theory Spec2Isabelle
  imports Main "HOL-Library.Sublist"
begin

section \<open>Availability engine: uniform-slot mode\<close>

text \<open>
  Source: \<^verbatim>\<open>src/calender-integration/calendar_avalibility.py\<close>, function
  \<^verbatim>\<open>suggest_meeting_times(busy_periods, time_min, time_max)\<close>.

  A \<^verbatim>\<open>datetime\<close> is modelled as an integer: the number of microseconds (the resolution
  of Python's \<^verbatim>\<open>datetime\<close>) of Hong Kong wall-clock time counted from a midnight. The
  source converts every value to \<^verbatim>\<open>Asia/Hong_Kong\<close> before it compares or reads the hour
  (\<^verbatim>\<open>astimezone(tz)\<close>, \<^verbatim>\<open>tz.localize\<close>); the zone has had the fixed offset UTC+8 since
  1979, so on the wall clock the conversion is the identity, comparison of instants is
  comparison of integers, and adding a \<^verbatim>\<open>timedelta\<close> is integer addition. The finite
  range of \<^verbatim>\<open>datetime\<close> (years 1 to 9999) is not modelled.
\<close>

type_synonym datetime = int

definition us_per_second :: int where "us_per_second = 1000000"
definition us_per_minute :: int where "us_per_minute = 60 * us_per_second"
definition us_per_hour :: int where "us_per_hour = 60 * us_per_minute"
definition us_per_day :: int where "us_per_day = 24 * us_per_hour"

definition SUGGESTION_DURATION_MINUTES :: int where "SUGGESTION_DURATION_MINUTES = 60"
definition BUSINESS_HOURS_START :: int where "BUSINESS_HOURS_START = 9"
definition BUSINESS_HOURS_END :: int where "BUSINESS_HOURS_END = 18"

text \<open>The fields \<^verbatim>\<open>.hour\<close>, \<^verbatim>\<open>.minute\<close>, \<^verbatim>\<open>.second\<close>, \<^verbatim>\<open>.microsecond\<close> of a datetime.\<close>

definition hour_of :: "datetime \<Rightarrow> int" where
  "hour_of t = (t div us_per_hour) mod 24"

definition minute_of :: "datetime \<Rightarrow> int" where
  "minute_of t = (t div us_per_minute) mod 60"

definition second_of :: "datetime \<Rightarrow> int" where
  "second_of t = (t div us_per_second) mod 60"

definition microsecond_of :: "datetime \<Rightarrow> int" where
  "microsecond_of t = t mod us_per_second"

text \<open>\<^verbatim>\<open>t.replace(minute=0, second=0, microsecond=0)\<close>: the same day and hour, the rest zero.\<close>

definition replace_minute_second_microsecond_0 :: "datetime \<Rightarrow> datetime" where
  "replace_minute_second_microsecond_0 t =
     t - (minute_of t * us_per_minute + second_of t * us_per_second + microsecond_of t)"

text \<open>
  \<^verbatim>\<open>if time_min.minute > 0 or time_min.second > 0 or time_min.microsecond > 0:
      time_min = (time_min + timedelta(hours=1)).replace(minute=0, second=0, microsecond=0)\<close>
\<close>

definition round_to_next_hour :: "datetime \<Rightarrow> datetime" where
  "round_to_next_hour time_min =
     (if minute_of time_min > 0 \<or> second_of time_min > 0 \<or> microsecond_of time_min > 0
      then replace_minute_second_microsecond_0 (time_min + us_per_hour)
      else time_min)"

definition slot_duration :: int where
  "slot_duration = SUGGESTION_DURATION_MINUTES * us_per_minute"

text \<open>
  The inner loop over \<^verbatim>\<open>busy_periods\<close>: it sets \<^verbatim>\<open>overlap = True\<close> and breaks at the first
  busy period with \<^verbatim>\<open>busy_start < current + slot_duration and busy_end > current\<close>.
\<close>

fun busy_overlap :: "(datetime \<times> datetime) list \<Rightarrow> datetime \<Rightarrow> bool" where
  "busy_overlap [] current = False"
| "busy_overlap ((busy_start, busy_end) # rest) current =
     (if busy_start < current + slot_duration \<and> busy_end > current then True
      else busy_overlap rest current)"

text \<open>
  The \<^verbatim>\<open>while current + slot_duration <= time_max\<close> loop, with the list \<^verbatim>\<open>suggestions\<close>
  as accumulator. It terminates because every round adds the positive \<^verbatim>\<open>slot_duration\<close>.
\<close>

function suggest_loop ::
  "(datetime \<times> datetime) list \<Rightarrow> datetime \<Rightarrow> datetime \<Rightarrow> datetime list \<Rightarrow> datetime list"
where
  "suggest_loop busy_periods time_max current suggestions =
     (if current + slot_duration \<le> time_max
      then suggest_loop busy_periods time_max (current + slot_duration)
             (if BUSINESS_HOURS_START \<le> hour_of current \<and> hour_of current < BUSINESS_HOURS_END
              then (if \<not> busy_overlap busy_periods current then suggestions @ [current]
                    else suggestions)
              else suggestions)
      else suggestions)"
  by pat_completeness auto
termination
  by (relation "measure (\<lambda>(b, time_max, current, s). nat (time_max - current))")
     (auto simp: slot_duration_def SUGGESTION_DURATION_MINUTES_def us_per_minute_def
        us_per_second_def)

declare suggest_loop.simps [simp del]

definition suggest_meeting_times ::
  "(datetime \<times> datetime) list \<Rightarrow> datetime \<Rightarrow> datetime \<Rightarrow> datetime list" where
  "suggest_meeting_times busy_periods time_min time_max =
     suggest_loop busy_periods time_max (round_to_next_hour time_min) []"

text \<open>
  Two notions used to state the results: the positions the cursor \<^verbatim>\<open>current\<close> takes in the
  loop, and the test a position has to pass for \<^verbatim>\<open>suggestions.append(current)\<close>.
\<close>

definition slot_accepted :: "(datetime \<times> datetime) list \<Rightarrow> datetime \<Rightarrow> bool" where
  "slot_accepted busy s \<longleftrightarrow>
     BUSINESS_HOURS_START \<le> hour_of s \<and> hour_of s < BUSINESS_HOURS_END \<and> \<not> busy_overlap busy s"

definition cursor_positions :: "datetime \<Rightarrow> datetime \<Rightarrow> datetime list" where
  "cursor_positions current time_max =
     map (\<lambda>k. current + int k * slot_duration) [0..<nat ((time_max - current) div slot_duration)]"

section \<open>Case mapping of Unicode\<close>

text \<open>
  \<^verbatim>\<open>str.lower()\<close> of CPython 3.11 uses the tables of Unicode 14.0.0. Three of them are needed:
  the simple lower-case mapping, and the properties Cased and Case_Ignorable, which decide
  whether a capital sigma stands at the end of a word.

  An entry \<open>(start, stop, step, target)\<close> of \<open>lower_table\<close> says that the code points
  \<open>start\<close>, \<open>start + step\<close>, ... up to \<open>stop\<close> are mapped to \<open>target\<close>, \<open>target + step\<close>, ...;
  the entries are in increasing order, and a code point in no entry is mapped to itself.
\<close>

definition lower_table :: "(nat \<times> nat \<times> nat \<times> nat) list" where
  "lower_table =
     [(0x41, 0x5A, 1, 0x61), (0xC0, 0xD6, 1, 0xE0), (0xD8, 0xDE, 1, 0xF8),
      (0x100, 0x12E, 2, 0x101), (0x132, 0x136, 2, 0x133), (0x139, 0x147, 2, 0x13A),
      (0x14A, 0x176, 2, 0x14B), (0x178, 0x178, 1, 0xFF), (0x179, 0x17D, 2, 0x17A),
      (0x181, 0x181, 1, 0x253), (0x182, 0x184, 2, 0x183), (0x186, 0x186, 1, 0x254),
      (0x187, 0x187, 1, 0x188), (0x189, 0x18A, 1, 0x256), (0x18B, 0x18B, 1, 0x18C),
      (0x18E, 0x18E, 1, 0x1DD), (0x18F, 0x18F, 1, 0x259), (0x190, 0x190, 1, 0x25B),
      (0x191, 0x191, 1, 0x192), (0x193, 0x193, 1, 0x260), (0x194, 0x194, 1, 0x263),
      (0x196, 0x196, 1, 0x269), (0x197, 0x197, 1, 0x268), (0x198, 0x198, 1, 0x199),
      (0x19C, 0x19C, 1, 0x26F), (0x19D, 0x19D, 1, 0x272), (0x19F, 0x19F, 1, 0x275),
      (0x1A0, 0x1A4, 2, 0x1A1), (0x1A6, 0x1A6, 1, 0x280), (0x1A7, 0x1A7, 1, 0x1A8),
      (0x1A9, 0x1A9, 1, 0x283), (0x1AC, 0x1AC, 1, 0x1AD), (0x1AE, 0x1AE, 1, 0x288),
      (0x1AF, 0x1AF, 1, 0x1B0), (0x1B1, 0x1B2, 1, 0x28A), (0x1B3, 0x1B5, 2, 0x1B4),
      (0x1B7, 0x1B7, 1, 0x292), (0x1B8, 0x1B8, 1, 0x1B9), (0x1BC, 0x1BC, 1, 0x1BD),
      (0x1C4, 0x1C4, 1, 0x1C6), (0x1C5, 0x1C5, 1, 0x1C6), (0x1C7, 0x1C7, 1, 0x1C9),
      (0x1C8, 0x1C8, 1, 0x1C9), (0x1CA, 0x1CA, 1, 0x1CC), (0x1CB, 0x1DB, 2, 0x1CC),
      (0x1DE, 0x1EE, 2, 0x1DF), (0x1F1, 0x1F1, 1, 0x1F3), (0x1F2, 0x1F4, 2, 0x1F3),
      (0x1F6, 0x1F6, 1, 0x195), (0x1F7, 0x1F7, 1, 0x1BF), (0x1F8, 0x21E, 2, 0x1F9),
      (0x220, 0x220, 1, 0x19E), (0x222, 0x232, 2, 0x223), (0x23A, 0x23A, 1, 0x2C65),
      (0x23B, 0x23B, 1, 0x23C), (0x23D, 0x23D, 1, 0x19A), (0x23E, 0x23E, 1, 0x2C66),
      (0x241, 0x241, 1, 0x242), (0x243, 0x243, 1, 0x180), (0x244, 0x244, 1, 0x289),
      (0x245, 0x245, 1, 0x28C), (0x246, 0x24E, 2, 0x247), (0x370, 0x372, 2, 0x371),
      (0x376, 0x376, 1, 0x377), (0x37F, 0x37F, 1, 0x3F3), (0x386, 0x386, 1, 0x3AC),
      (0x388, 0x38A, 1, 0x3AD), (0x38C, 0x38C, 1, 0x3CC), (0x38E, 0x38F, 1, 0x3CD),
      (0x391, 0x3A1, 1, 0x3B1), (0x3A4, 0x3AB, 1, 0x3C4), (0x3CF, 0x3CF, 1, 0x3D7),
      (0x3D8, 0x3EE, 2, 0x3D9), (0x3F4, 0x3F4, 1, 0x3B8), (0x3F7, 0x3F7, 1, 0x3F8),
      (0x3F9, 0x3F9, 1, 0x3F2), (0x3FA, 0x3FA, 1, 0x3FB), (0x3FD, 0x3FF, 1, 0x37B),
      (0x400, 0x40F, 1, 0x450), (0x410, 0x42F, 1, 0x430), (0x460, 0x480, 2, 0x461),
      (0x48A, 0x4BE, 2, 0x48B), (0x4C0, 0x4C0, 1, 0x4CF), (0x4C1, 0x4CD, 2, 0x4C2),
      (0x4D0, 0x52E, 2, 0x4D1), (0x531, 0x556, 1, 0x561), (0x10A0, 0x10C5, 1, 0x2D00),
      (0x10C7, 0x10C7, 1, 0x2D27), (0x10CD, 0x10CD, 1, 0x2D2D), (0x13A0, 0x13EF, 1, 0xAB70),
      (0x13F0, 0x13F5, 1, 0x13F8), (0x1C90, 0x1CBA, 1, 0x10D0), (0x1CBD, 0x1CBF, 1, 0x10FD),
      (0x1E00, 0x1E94, 2, 0x1E01), (0x1E9E, 0x1E9E, 1, 0xDF), (0x1EA0, 0x1EFE, 2, 0x1EA1),
      (0x1F08, 0x1F0F, 1, 0x1F00), (0x1F18, 0x1F1D, 1, 0x1F10), (0x1F28, 0x1F2F, 1, 0x1F20),
      (0x1F38, 0x1F3F, 1, 0x1F30), (0x1F48, 0x1F4D, 1, 0x1F40), (0x1F59, 0x1F5F, 2, 0x1F51),
      (0x1F68, 0x1F6F, 1, 0x1F60), (0x1F88, 0x1F8F, 1, 0x1F80), (0x1F98, 0x1F9F, 1, 0x1F90),
      (0x1FA8, 0x1FAF, 1, 0x1FA0), (0x1FB8, 0x1FB9, 1, 0x1FB0), (0x1FBA, 0x1FBB, 1, 0x1F70),
      (0x1FBC, 0x1FBC, 1, 0x1FB3), (0x1FC8, 0x1FCB, 1, 0x1F72), (0x1FCC, 0x1FCC, 1, 0x1FC3),
      (0x1FD8, 0x1FD9, 1, 0x1FD0), (0x1FDA, 0x1FDB, 1, 0x1F76), (0x1FE8, 0x1FE9, 1, 0x1FE0),
      (0x1FEA, 0x1FEB, 1, 0x1F7A), (0x1FEC, 0x1FEC, 1, 0x1FE5), (0x1FF8, 0x1FF9, 1, 0x1F78),
      (0x1FFA, 0x1FFB, 1, 0x1F7C), (0x1FFC, 0x1FFC, 1, 0x1FF3), (0x2126, 0x2126, 1, 0x3C9),
      (0x212A, 0x212A, 1, 0x6B), (0x212B, 0x212B, 1, 0xE5), (0x2132, 0x2132, 1, 0x214E),
      (0x2160, 0x216F, 1, 0x2170), (0x2183, 0x2183, 1, 0x2184), (0x24B6, 0x24CF, 1, 0x24D0),
      (0x2C00, 0x2C2F, 1, 0x2C30), (0x2C60, 0x2C60, 1, 0x2C61), (0x2C62, 0x2C62, 1, 0x26B),
      (0x2C63, 0x2C63, 1, 0x1D7D), (0x2C64, 0x2C64, 1, 0x27D), (0x2C67, 0x2C6B, 2, 0x2C68),
      (0x2C6D, 0x2C6D, 1, 0x251), (0x2C6E, 0x2C6E, 1, 0x271), (0x2C6F, 0x2C6F, 1, 0x250),
      (0x2C70, 0x2C70, 1, 0x252), (0x2C72, 0x2C72, 1, 0x2C73), (0x2C75, 0x2C75, 1, 0x2C76),
      (0x2C7E, 0x2C7F, 1, 0x23F), (0x2C80, 0x2CE2, 2, 0x2C81), (0x2CEB, 0x2CED, 2, 0x2CEC),
      (0x2CF2, 0x2CF2, 1, 0x2CF3), (0xA640, 0xA66C, 2, 0xA641), (0xA680, 0xA69A, 2, 0xA681),
      (0xA722, 0xA72E, 2, 0xA723), (0xA732, 0xA76E, 2, 0xA733), (0xA779, 0xA77B, 2, 0xA77A),
      (0xA77D, 0xA77D, 1, 0x1D79), (0xA77E, 0xA786, 2, 0xA77F), (0xA78B, 0xA78B, 1, 0xA78C),
      (0xA78D, 0xA78D, 1, 0x265), (0xA790, 0xA792, 2, 0xA791), (0xA796, 0xA7A8, 2, 0xA797),
      (0xA7AA, 0xA7AA, 1, 0x266), (0xA7AB, 0xA7AB, 1, 0x25C), (0xA7AC, 0xA7AC, 1, 0x261),
      (0xA7AD, 0xA7AD, 1, 0x26C), (0xA7AE, 0xA7AE, 1, 0x26A), (0xA7B0, 0xA7B0, 1, 0x29E),
      (0xA7B1, 0xA7B1, 1, 0x287), (0xA7B2, 0xA7B2, 1, 0x29D), (0xA7B3, 0xA7B3, 1, 0xAB53),
      (0xA7B4, 0xA7C2, 2, 0xA7B5), (0xA7C4, 0xA7C4, 1, 0xA794), (0xA7C5, 0xA7C5, 1, 0x282),
      (0xA7C6, 0xA7C6, 1, 0x1D8E), (0xA7C7, 0xA7C9, 2, 0xA7C8), (0xA7D0, 0xA7D0, 1, 0xA7D1),
      (0xA7D6, 0xA7D8, 2, 0xA7D7), (0xA7F5, 0xA7F5, 1, 0xA7F6), (0xFF21, 0xFF3A, 1, 0xFF41),
      (0x10400, 0x10427, 1, 0x10428), (0x104B0, 0x104D3, 1, 0x104D8), (0x10570, 0x1057A, 1, 0x10597),
      (0x1057C, 0x1058A, 1, 0x105A3), (0x1058C, 0x10592, 1, 0x105B3), (0x10594, 0x10595, 1, 0x105BB),
      (0x10C80, 0x10CB2, 1, 0x10CC0), (0x118A0, 0x118BF, 1, 0x118C0), (0x16E40, 0x16E5F, 1, 0x16E60),
      (0x1E900, 0x1E921, 1, 0x1E922)]"

text \<open>The code points with the property Case_Ignorable, as ranges \<open>(start, stop)\<close>.\<close>

definition case_ignorable_table :: "(nat \<times> nat) list" where
  "case_ignorable_table =
     [(0x27, 0x27), (0x2E, 0x2E), (0x3A, 0x3A), (0x5E, 0x5E), (0x60, 0x60),
      (0xA8, 0xA8), (0xAD, 0xAD), (0xAF, 0xAF), (0xB4, 0xB4), (0xB7, 0xB8),
      (0x2B0, 0x36F), (0x374, 0x375), (0x37A, 0x37A), (0x384, 0x385), (0x387, 0x387),
      (0x483, 0x489), (0x559, 0x559), (0x55F, 0x55F), (0x591, 0x5BD), (0x5BF, 0x5BF),
      (0x5C1, 0x5C2), (0x5C4, 0x5C5), (0x5C7, 0x5C7), (0x5F4, 0x5F4), (0x600, 0x605),
      (0x610, 0x61A), (0x61C, 0x61C), (0x640, 0x640), (0x64B, 0x65F), (0x670, 0x670),
      (0x6D6, 0x6DD), (0x6DF, 0x6E8), (0x6EA, 0x6ED), (0x70F, 0x70F), (0x711, 0x711),
      (0x730, 0x74A), (0x7A6, 0x7B0), (0x7EB, 0x7F5), (0x7FA, 0x7FA), (0x7FD, 0x7FD),
      (0x816, 0x82D), (0x859, 0x85B), (0x888, 0x888), (0x890, 0x891), (0x898, 0x89F),
      (0x8C9, 0x902), (0x93A, 0x93A), (0x93C, 0x93C), (0x941, 0x948), (0x94D, 0x94D),
      (0x951, 0x957), (0x962, 0x963), (0x971, 0x971), (0x981, 0x981), (0x9BC, 0x9BC),
      (0x9C1, 0x9C4), (0x9CD, 0x9CD), (0x9E2, 0x9E3), (0x9FE, 0x9FE), (0xA01, 0xA02),
      (0xA3C, 0xA3C), (0xA41, 0xA42), (0xA47, 0xA48), (0xA4B, 0xA4D), (0xA51, 0xA51),
      (0xA70, 0xA71), (0xA75, 0xA75), (0xA81, 0xA82), (0xABC, 0xABC), (0xAC1, 0xAC5),
      (0xAC7, 0xAC8), (0xACD, 0xACD), (0xAE2, 0xAE3), (0xAFA, 0xAFF), (0xB01, 0xB01),
      (0xB3C, 0xB3C), (0xB3F, 0xB3F), (0xB41, 0xB44), (0xB4D, 0xB4D), (0xB55, 0xB56),
      (0xB62, 0xB63), (0xB82, 0xB82), (0xBC0, 0xBC0), (0xBCD, 0xBCD), (0xC00, 0xC00),
      (0xC04, 0xC04), (0xC3C, 0xC3C), (0xC3E, 0xC40), (0xC46, 0xC48), (0xC4A, 0xC4D),
      (0xC55, 0xC56), (0xC62, 0xC63), (0xC81, 0xC81), (0xCBC, 0xCBC), (0xCBF, 0xCBF),
      (0xCC6, 0xCC6), (0xCCC, 0xCCD), (0xCE2, 0xCE3), (0xD00, 0xD01), (0xD3B, 0xD3C),
      (0xD41, 0xD44), (0xD4D, 0xD4D), (0xD62, 0xD63), (0xD81, 0xD81), (0xDCA, 0xDCA),
      (0xDD2, 0xDD4), (0xDD6, 0xDD6), (0xE31, 0xE31), (0xE34, 0xE3A), (0xE46, 0xE4E),
      (0xEB1, 0xEB1), (0xEB4, 0xEBC), (0xEC6, 0xEC6), (0xEC8, 0xECD), (0xF18, 0xF19),
      (0xF35, 0xF35), (0xF37, 0xF37), (0xF39, 0xF39), (0xF71, 0xF7E), (0xF80, 0xF84),
      (0xF86, 0xF87), (0xF8D, 0xF97), (0xF99, 0xFBC), (0xFC6, 0xFC6), (0x102D, 0x1030),
      (0x1032, 0x1037), (0x1039, 0x103A), (0x103D, 0x103E), (0x1058, 0x1059), (0x105E, 0x1060),
      (0x1071, 0x1074), (0x1082, 0x1082), (0x1085, 0x1086), (0x108D, 0x108D), (0x109D, 0x109D),
      (0x10FC, 0x10FC), (0x135D, 0x135F), (0x1712, 0x1714), (0x1732, 0x1733), (0x1752, 0x1753),
      (0x1772, 0x1773), (0x17B4, 0x17B5), (0x17B7, 0x17BD), (0x17C6, 0x17C6), (0x17C9, 0x17D3),
      (0x17D7, 0x17D7), (0x17DD, 0x17DD), (0x180B, 0x180F), (0x1843, 0x1843), (0x1885, 0x1886),
      (0x18A9, 0x18A9), (0x1920, 0x1922), (0x1927, 0x1928), (0x1932, 0x1932), (0x1939, 0x193B),
      (0x1A17, 0x1A18), (0x1A1B, 0x1A1B), (0x1A56, 0x1A56), (0x1A58, 0x1A5E), (0x1A60, 0x1A60),
      (0x1A62, 0x1A62), (0x1A65, 0x1A6C), (0x1A73, 0x1A7C), (0x1A7F, 0x1A7F), (0x1AA7, 0x1AA7),
      (0x1AB0, 0x1ACE), (0x1B00, 0x1B03), (0x1B34, 0x1B34), (0x1B36, 0x1B3A), (0x1B3C, 0x1B3C),
      (0x1B42, 0x1B42), (0x1B6B, 0x1B73), (0x1B80, 0x1B81), (0x1BA2, 0x1BA5), (0x1BA8, 0x1BA9),
      (0x1BAB, 0x1BAD), (0x1BE6, 0x1BE6), (0x1BE8, 0x1BE9), (0x1BED, 0x1BED), (0x1BEF, 0x1BF1),
      (0x1C2C, 0x1C33), (0x1C36, 0x1C37), (0x1C78, 0x1C7D), (0x1CD0, 0x1CD2), (0x1CD4, 0x1CE0),
      (0x1CE2, 0x1CE8), (0x1CED, 0x1CED), (0x1CF4, 0x1CF4), (0x1CF8, 0x1CF9), (0x1D2C, 0x1D6A),
      (0x1D78, 0x1D78), (0x1D9B, 0x1DFF), (0x1FBD, 0x1FBD), (0x1FBF, 0x1FC1), (0x1FCD, 0x1FCF),
      (0x1FDD, 0x1FDF), (0x1FED, 0x1FEF), (0x1FFD, 0x1FFE), (0x200B, 0x200F), (0x2018, 0x2019),
      (0x2024, 0x2024), (0x2027, 0x2027), (0x202A, 0x202E), (0x2060, 0x2064), (0x2066, 0x206F),
      (0x2071, 0x2071), (0x207F, 0x207F), (0x2090, 0x209C), (0x20D0, 0x20F0), (0x2C7C, 0x2C7D),
      (0x2CEF, 0x2CF1), (0x2D6F, 0x2D6F), (0x2D7F, 0x2D7F), (0x2DE0, 0x2DFF), (0x2E2F, 0x2E2F),
      (0x3005, 0x3005), (0x302A, 0x302D), (0x3031, 0x3035), (0x303B, 0x303B), (0x3099, 0x309E),
      (0x30FC, 0x30FE), (0xA015, 0xA015), (0xA4F8, 0xA4FD), (0xA60C, 0xA60C), (0xA66F, 0xA672),
      (0xA674, 0xA67D), (0xA67F, 0xA67F), (0xA69C, 0xA69F), (0xA6F0, 0xA6F1), (0xA700, 0xA721),
      (0xA770, 0xA770), (0xA788, 0xA78A), (0xA7F2, 0xA7F4), (0xA7F8, 0xA7F9), (0xA802, 0xA802),
      (0xA806, 0xA806), (0xA80B, 0xA80B), (0xA825, 0xA826), (0xA82C, 0xA82C), (0xA8C4, 0xA8C5),
      (0xA8E0, 0xA8F1), (0xA8FF, 0xA8FF), (0xA926, 0xA92D), (0xA947, 0xA951), (0xA980, 0xA982),
      (0xA9B3, 0xA9B3), (0xA9B6, 0xA9B9), (0xA9BC, 0xA9BD), (0xA9CF, 0xA9CF), (0xA9E5, 0xA9E6),
      (0xAA29, 0xAA2E), (0xAA31, 0xAA32), (0xAA35, 0xAA36), (0xAA43, 0xAA43), (0xAA4C, 0xAA4C),
      (0xAA70, 0xAA70), (0xAA7C, 0xAA7C), (0xAAB0, 0xAAB0), (0xAAB2, 0xAAB4), (0xAAB7, 0xAAB8),
      (0xAABE, 0xAABF), (0xAAC1, 0xAAC1), (0xAADD, 0xAADD), (0xAAEC, 0xAAED), (0xAAF3, 0xAAF4),
      (0xAAF6, 0xAAF6), (0xAB5B, 0xAB5F), (0xAB69, 0xAB6B), (0xABE5, 0xABE5), (0xABE8, 0xABE8),
      (0xABED, 0xABED), (0xFB1E, 0xFB1E), (0xFBB2, 0xFBC2), (0xFE00, 0xFE0F), (0xFE13, 0xFE13),
      (0xFE20, 0xFE2F), (0xFE52, 0xFE52), (0xFE55, 0xFE55), (0xFEFF, 0xFEFF), (0xFF07, 0xFF07),
      (0xFF0E, 0xFF0E), (0xFF1A, 0xFF1A), (0xFF3E, 0xFF3E), (0xFF40, 0xFF40), (0xFF70, 0xFF70),
      (0xFF9E, 0xFF9F), (0xFFE3, 0xFFE3), (0xFFF9, 0xFFFB), (0x101FD, 0x101FD), (0x102E0, 0x102E0),
      (0x10376, 0x1037A), (0x10780, 0x10785), (0x10787, 0x107B0), (0x107B2, 0x107BA), (0x10A01, 0x10A03),
      (0x10A05, 0x10A06), (0x10A0C, 0x10A0F), (0x10A38, 0x10A3A), (0x10A3F, 0x10A3F), (0x10AE5, 0x10AE6),
      (0x10D24, 0x10D27), (0x10EAB, 0x10EAC), (0x10F46, 0x10F50), (0x10F82, 0x10F85), (0x11001, 0x11001),
      (0x11038, 0x11046), (0x11070, 0x11070), (0x11073, 0x11074), (0x1107F, 0x11081), (0x110B3, 0x110B6),
      (0x110B9, 0x110BA), (0x110BD, 0x110BD), (0x110C2, 0x110C2), (0x110CD, 0x110CD), (0x11100, 0x11102),
      (0x11127, 0x1112B), (0x1112D, 0x11134), (0x11173, 0x11173), (0x11180, 0x11181), (0x111B6, 0x111BE),
      (0x111C9, 0x111CC), (0x111CF, 0x111CF), (0x1122F, 0x11231), (0x11234, 0x11234), (0x11236, 0x11237),
      (0x1123E, 0x1123E), (0x112DF, 0x112DF), (0x112E3, 0x112EA), (0x11300, 0x11301), (0x1133B, 0x1133C),
      (0x11340, 0x11340), (0x11366, 0x1136C), (0x11370, 0x11374), (0x11438, 0x1143F), (0x11442, 0x11444),
      (0x11446, 0x11446), (0x1145E, 0x1145E), (0x114B3, 0x114B8), (0x114BA, 0x114BA), (0x114BF, 0x114C0),
      (0x114C2, 0x114C3), (0x115B2, 0x115B5), (0x115BC, 0x115BD), (0x115BF, 0x115C0), (0x115DC, 0x115DD),
      (0x11633, 0x1163A), (0x1163D, 0x1163D), (0x1163F, 0x11640), (0x116AB, 0x116AB), (0x116AD, 0x116AD),
      (0x116B0, 0x116B5), (0x116B7, 0x116B7), (0x1171D, 0x1171F), (0x11722, 0x11725), (0x11727, 0x1172B),
      (0x1182F, 0x11837), (0x11839, 0x1183A), (0x1193B, 0x1193C), (0x1193E, 0x1193E), (0x11943, 0x11943),
      (0x119D4, 0x119D7), (0x119DA, 0x119DB), (0x119E0, 0x119E0), (0x11A01, 0x11A0A), (0x11A33, 0x11A38),
      (0x11A3B, 0x11A3E), (0x11A47, 0x11A47), (0x11A51, 0x11A56), (0x11A59, 0x11A5B), (0x11A8A, 0x11A96),
      (0x11A98, 0x11A99), (0x11C30, 0x11C36), (0x11C38, 0x11C3D), (0x11C3F, 0x11C3F), (0x11C92, 0x11CA7),
      (0x11CAA, 0x11CB0), (0x11CB2, 0x11CB3), (0x11CB5, 0x11CB6), (0x11D31, 0x11D36), (0x11D3A, 0x11D3A),
      (0x11D3C, 0x11D3D), (0x11D3F, 0x11D45), (0x11D47, 0x11D47), (0x11D90, 0x11D91), (0x11D95, 0x11D95),
      (0x11D97, 0x11D97), (0x11EF3, 0x11EF4), (0x13430, 0x13438), (0x16AF0, 0x16AF4), (0x16B30, 0x16B36),
      (0x16B40, 0x16B43), (0x16F4F, 0x16F4F), (0x16F8F, 0x16F9F), (0x16FE0, 0x16FE1), (0x16FE3, 0x16FE4),
      (0x1AFF0, 0x1AFF3), (0x1AFF5, 0x1AFFB), (0x1AFFD, 0x1AFFE), (0x1BC9D, 0x1BC9E), (0x1BCA0, 0x1BCA3),
      (0x1CF00, 0x1CF2D), (0x1CF30, 0x1CF46), (0x1D167, 0x1D169), (0x1D173, 0x1D182), (0x1D185, 0x1D18B),
      (0x1D1AA, 0x1D1AD), (0x1D242, 0x1D244), (0x1DA00, 0x1DA36), (0x1DA3B, 0x1DA6C), (0x1DA75, 0x1DA75),
      (0x1DA84, 0x1DA84), (0x1DA9B, 0x1DA9F), (0x1DAA1, 0x1DAAF), (0x1E000, 0x1E006), (0x1E008, 0x1E018),
      (0x1E01B, 0x1E021), (0x1E023, 0x1E024), (0x1E026, 0x1E02A), (0x1E130, 0x1E13D), (0x1E2AE, 0x1E2AE),
      (0x1E2EC, 0x1E2EF), (0x1E8D0, 0x1E8D6), (0x1E944, 0x1E94B), (0x1F3FB, 0x1F3FF), (0xE0001, 0xE0001),
      (0xE0020, 0xE007F), (0xE0100, 0xE01EF)]"

text \<open>The code points with the property Cased, as ranges \<open>(start, stop)\<close>.\<close>

definition cased_table :: "(nat \<times> nat) list" where
  "cased_table =
     [(0x41, 0x5A), (0x61, 0x7A), (0xAA, 0xAA), (0xB5, 0xB5), (0xBA, 0xBA),
      (0xC0, 0xD6), (0xD8, 0xF6), (0xF8, 0x1BA), (0x1BC, 0x1BF), (0x1C4, 0x293),
      (0x295, 0x2B8), (0x2C0, 0x2C1), (0x2E0, 0x2E4), (0x345, 0x345), (0x370, 0x373),
      (0x376, 0x377), (0x37A, 0x37D), (0x37F, 0x37F), (0x386, 0x386), (0x388, 0x38A),
      (0x38C, 0x38C), (0x38E, 0x3A1), (0x3A3, 0x3F5), (0x3F7, 0x481), (0x48A, 0x52F),
      (0x531, 0x556), (0x560, 0x588), (0x10A0, 0x10C5), (0x10C7, 0x10C7), (0x10CD, 0x10CD),
      (0x10D0, 0x10FA), (0x10FD, 0x10FF), (0x13A0, 0x13F5), (0x13F8, 0x13FD), (0x1C80, 0x1C88),
      (0x1C90, 0x1CBA), (0x1CBD, 0x1CBF), (0x1D00, 0x1DBF), (0x1E00, 0x1F15), (0x1F18, 0x1F1D),
      (0x1F20, 0x1F45), (0x1F48, 0x1F4D), (0x1F50, 0x1F57), (0x1F59, 0x1F59), (0x1F5B, 0x1F5B),
      (0x1F5D, 0x1F5D), (0x1F5F, 0x1F7D), (0x1F80, 0x1FB4), (0x1FB6, 0x1FBC), (0x1FBE, 0x1FBE),
      (0x1FC2, 0x1FC4), (0x1FC6, 0x1FCC), (0x1FD0, 0x1FD3), (0x1FD6, 0x1FDB), (0x1FE0, 0x1FEC),
      (0x1FF2, 0x1FF4), (0x1FF6, 0x1FFC), (0x2071, 0x2071), (0x207F, 0x207F), (0x2090, 0x209C),
      (0x2102, 0x2102), (0x2107, 0x2107), (0x210A, 0x2113), (0x2115, 0x2115), (0x2119, 0x211D),
      (0x2124, 0x2124), (0x2126, 0x2126), (0x2128, 0x2128), (0x212A, 0x212D), (0x212F, 0x2134),
      (0x2139, 0x2139), (0x213C, 0x213F), (0x2145, 0x2149), (0x214E, 0x214E), (0x2160, 0x217F),
      (0x2183, 0x2184), (0x24B6, 0x24E9), (0x2C00, 0x2CE4), (0x2CEB, 0x2CEE), (0x2CF2, 0x2CF3),
      (0x2D00, 0x2D25), (0x2D27, 0x2D27), (0x2D2D, 0x2D2D), (0xA640, 0xA66D), (0xA680, 0xA69D),
      (0xA722, 0xA787), (0xA78B, 0xA78E), (0xA790, 0xA7CA), (0xA7D0, 0xA7D1), (0xA7D3, 0xA7D3),
      (0xA7D5, 0xA7D9), (0xA7F5, 0xA7F6), (0xA7F8, 0xA7FA), (0xAB30, 0xAB5A), (0xAB5C, 0xAB68),
      (0xAB70, 0xABBF), (0xFB00, 0xFB06), (0xFB13, 0xFB17), (0xFF21, 0xFF3A), (0xFF41, 0xFF5A),
      (0x10400, 0x1044F), (0x104B0, 0x104D3), (0x104D8, 0x104FB), (0x10570, 0x1057A), (0x1057C, 0x1058A),
      (0x1058C, 0x10592), (0x10594, 0x10595), (0x10597, 0x105A1), (0x105A3, 0x105B1), (0x105B3, 0x105B9),
      (0x105BB, 0x105BC), (0x10780, 0x10780), (0x10783, 0x10785), (0x10787, 0x107B0), (0x107B2, 0x107BA),
      (0x10C80, 0x10CB2), (0x10CC0, 0x10CF2), (0x118A0, 0x118DF), (0x16E40, 0x16E7F), (0x1D400, 0x1D454),
      (0x1D456, 0x1D49C), (0x1D49E, 0x1D49F), (0x1D4A2, 0x1D4A2), (0x1D4A5, 0x1D4A6), (0x1D4A9, 0x1D4AC),
      (0x1D4AE, 0x1D4B9), (0x1D4BB, 0x1D4BB), (0x1D4BD, 0x1D4C3), (0x1D4C5, 0x1D505), (0x1D507, 0x1D50A),
      (0x1D50D, 0x1D514), (0x1D516, 0x1D51C), (0x1D51E, 0x1D539), (0x1D53B, 0x1D53E), (0x1D540, 0x1D544),
      (0x1D546, 0x1D546), (0x1D54A, 0x1D550), (0x1D552, 0x1D6A5), (0x1D6A8, 0x1D6C0), (0x1D6C2, 0x1D6DA),
      (0x1D6DC, 0x1D6FA), (0x1D6FC, 0x1D714), (0x1D716, 0x1D734), (0x1D736, 0x1D74E), (0x1D750, 0x1D76E),
      (0x1D770, 0x1D788), (0x1D78A, 0x1D7A8), (0x1D7AA, 0x1D7C2), (0x1D7C4, 0x1D7CB), (0x1DF00, 0x1DF09),
      (0x1DF0B, 0x1DF1E), (0x1E900, 0x1E943), (0x1F130, 0x1F149), (0x1F150, 0x1F169), (0x1F170, 0x1F189)]"

fun lower_lookup :: "nat \<Rightarrow> (nat \<times> nat \<times> nat \<times> nat) list \<Rightarrow> nat" where
  "lower_lookup c [] = c"
| "lower_lookup c ((start, stop, step, target) # rest) =
     (if c < start then c
      else if c \<le> stop \<and> (c - start) mod step = 0 then target + (c - start)
      else lower_lookup c rest)"

fun in_ranges :: "nat \<Rightarrow> (nat \<times> nat) list \<Rightarrow> bool" where
  "in_ranges c [] = False"
| "in_ranges c ((start, stop) # rest) =
     (if c < start then False else if c \<le> stop then True else in_ranges c rest)"

definition is_cased :: "nat \<Rightarrow> bool" where
  "is_cased c = in_ranges c cased_table"

definition is_case_ignorable :: "nat \<Rightarrow> bool" where
  "is_case_ignorable c = in_ranges c case_ignorable_table"

section \<open>Python strings and values\<close>

text \<open>
  A Python \<^verbatim>\<open>str\<close> is a sequence of Unicode code points, so it is modelled as a list of
  natural numbers: \<^verbatim>\<open>len\<close> is \<open>length\<close>, and the character classes of the regular expressions
  are ranges of code points. \<open>ustr\<close> embeds an ASCII literal.
\<close>

type_synonym ustring = "nat list"

definition ustr :: "string \<Rightarrow> ustring" where
  "ustr s = map of_char s"

text \<open>
  The characters for which \<^verbatim>\<open>str.isspace()\<close> holds. They are the characters matched by
  \<^verbatim>\<open>\s\<close> in a \<^verbatim>\<open>str\<close> pattern and the ones removed by \<^verbatim>\<open>str.strip()\<close>.
\<close>

definition is_space :: "nat \<Rightarrow> bool" where
  "is_space c \<longleftrightarrow>
     (0x09 \<le> c \<and> c \<le> 0x0D) \<or> (0x1C \<le> c \<and> c \<le> 0x20) \<or> c = 0x85 \<or> c = 0xA0 \<or> c = 0x1680
     \<or> (0x2000 \<le> c \<and> c \<le> 0x200A) \<or> c = 0x2028 \<or> c = 0x2029 \<or> c = 0x202F \<or> c = 0x205F
     \<or> c = 0x3000"

text \<open>
  The decimal digits of Unicode (general category Nd, here as of Unicode 14): \<^verbatim>\<open>\d\<close> in a
  \<^verbatim>\<open>str\<close> pattern matches exactly these, and \<^verbatim>\<open>int()\<close> reads them with their digit value.
  They come in blocks of ten consecutive code points for the digits 0 to 9; the list holds
  the first code point of each block, ASCII \<^verbatim>\<open>0\<close> first.
\<close>

definition decimal_blocks :: "nat list" where
  "decimal_blocks =
     [48, 1632, 1776, 1984, 2406, 2534, 2662, 2790, 2918, 3046, 3174, 3302, 3430, 3558, 3664,
      3792, 3872, 4160, 4240, 6112, 6160, 6470, 6608, 6784, 6800, 6992, 7088, 7232, 7248, 42528,
      43216, 43264, 43472, 43504, 43600, 44016, 65296, 66720, 68912, 69734, 69872, 69942, 70096,
      70384, 70736, 70864, 71248, 71360, 71472, 71904, 72016, 72784, 73040, 73120, 92768, 92864,
      93008, 120782, 120792, 120802, 120812, 120822, 123200, 123632, 125264, 130032]"

definition decimal_value :: "nat \<Rightarrow> nat option" where
  "decimal_value c = map_option (\<lambda>b. c - b) (find (\<lambda>b. b \<le> c \<and> c < b + 10) decimal_blocks)"

definition is_decimal :: "nat \<Rightarrow> bool" where
  "is_decimal c \<longleftrightarrow> decimal_value c \<noteq> None"

definition is_ascii_letter :: "nat \<Rightarrow> bool" where
  "is_ascii_letter c \<longleftrightarrow> (0x41 \<le> c \<and> c \<le> 0x5A) \<or> (0x61 \<le> c \<and> c \<le> 0x7A)"

definition is_ascii_alnum :: "nat \<Rightarrow> bool" where
  "is_ascii_alnum c \<longleftrightarrow> is_ascii_letter c \<or> (0x30 \<le> c \<and> c \<le> 0x39)"

text \<open>
  \<^verbatim>\<open>str.lower()\<close>. Every code point is replaced by its lower-case mapping; two code points
  are special. U+0130 (capital I with dot above) becomes the two code points U+0069 U+0307.
  The capital sigma U+03A3 becomes the final sigma U+03C2 when it ends a word, that is, when
  the nearest code point before it that is not case-ignorable exists and is cased, and the
  nearest code point after it that is not case-ignorable does not exist or is not cased;
  otherwise it becomes U+03C3. \<open>do_lower\<close> walks along the string; its first argument holds
  the code points already passed, the nearest first.
\<close>

definition lower_char :: "nat \<Rightarrow> nat" where
  "lower_char c = lower_lookup c lower_table"

definition to_lower_full :: "nat \<Rightarrow> ustring" where
  "to_lower_full c = (if c = 0x130 then [0x69, 0x307] else [lower_char c])"

definition handle_capital_sigma :: "ustring \<Rightarrow> ustring \<Rightarrow> nat" where
  "handle_capital_sigma before after =
     (let final_sigma = (case dropWhile is_case_ignorable before of
                           [] \<Rightarrow> False
                         | c # _ \<Rightarrow> is_cased c);
          final_sigma = (final_sigma \<and> (case dropWhile is_case_ignorable after of
                                            [] \<Rightarrow> True
                                          | c # _ \<Rightarrow> \<not> is_cased c))
      in if final_sigma then 0x3C2 else 0x3C3)"

fun do_lower :: "ustring \<Rightarrow> ustring \<Rightarrow> ustring" where
  "do_lower before [] = []"
| "do_lower before (c # rest) =
     (if c = 0x3A3 then [handle_capital_sigma before rest] else to_lower_full c)
     @ do_lower (c # before) rest"

definition py_lower :: "ustring \<Rightarrow> ustring" where
  "py_lower s = do_lower [] s"

text \<open>
  \<^verbatim>\<open>str.upper()\<close> on a string of ASCII letters, digits and control characters: the letters a to
  z are replaced by A to Z. The source calls \<^verbatim>\<open>upper()\<close> in one place only, on a policy number
  that has matched \<^verbatim>\<open>^[A-Za-z0-9]{6,20}$\<close>, which is such a string.
\<close>

definition upper_char :: "nat \<Rightarrow> nat" where
  "upper_char c = (if 0x61 \<le> c \<and> c \<le> 0x7A then c - 32 else c)"

definition py_upper :: "ustring \<Rightarrow> ustring" where
  "py_upper s = map upper_char s"

definition py_strip :: "ustring \<Rightarrow> ustring" where
  "py_strip s = rev (dropWhile is_space (rev (dropWhile is_space s)))"

text \<open>\<^verbatim>\<open>sub in s\<close> for two strings: \<open>sub\<close> occurs in \<open>s\<close> as a contiguous piece.\<close>

fun str_in :: "ustring \<Rightarrow> ustring \<Rightarrow> bool" where
  "str_in sub [] = (sub = [])"
| "str_in sub (c # s) = (prefix sub (c # s) \<or> str_in sub s)"

text \<open>
  \<^verbatim>\<open>re.match(r'^X$', s)\<close> for a pattern \<open>X\<close> that has to consume all it is given: the anchor
  \<^verbatim>\<open>$\<close> matches at the end of the string and also just before a newline that ends the
  string.
\<close>

definition re_match_dollar :: "(ustring \<Rightarrow> bool) \<Rightarrow> ustring \<Rightarrow> bool" where
  "re_match_dollar full s \<longleftrightarrow> full s \<or> (s \<noteq> [] \<and> last s = 0x0A \<and> full (butlast s))"

text \<open>\<^verbatim>\<open>re.search\<close>: the match at the leftmost position where the pattern matches.\<close>

fun re_search :: "(ustring \<Rightarrow> 'a option) \<Rightarrow> ustring \<Rightarrow> 'a option" where
  "re_search m [] = m []"
| "re_search m (c # s) = (case m (c # s) of Some g \<Rightarrow> Some g | None \<Rightarrow> re_search m s)"

text \<open>The decimal text of an integer, as \<^verbatim>\<open>str(n)\<close> and \<^verbatim>\<open>f"{n}"\<close> give it.\<close>

fun nat_digits :: "nat \<Rightarrow> ustring" where
  "nat_digits n = (if n < 10 then [0x30 + n] else nat_digits (n div 10) @ [0x30 + n mod 10])"

declare nat_digits.simps [simp del]

definition str_of_int :: "int \<Rightarrow> ustring" where
  "str_of_int n = (if n < 0 then 0x2D # nat_digits (nat (- n)) else nat_digits (nat n))"

text \<open>\<^verbatim>\<open>f"{n:02d}"\<close>: at least two characters, padded with a zero on the left.\<close>

definition fmt_02d :: "int \<Rightarrow> ustring" where
  "fmt_02d n = (if 0 \<le> n \<and> n < 10 then 0x30 # str_of_int n else str_of_int n)"

text \<open>
  The values the extraction service can hand over. It parses JSON, so a value is \<^verbatim>\<open>None\<close>, a
  \<^verbatim>\<open>bool\<close>, an \<^verbatim>\<open>int\<close>, a \<^verbatim>\<open>str\<close> or a \<^verbatim>\<open>dict\<close> with string keys, given as the list of its
  items in insertion order (the keys of a Python dict are distinct). JSON arrays and
  floating-point numbers are left out of the model. The fields of the entity objects hold
  values of the same kind, because the source assigns them with \<^verbatim>\<open>setattr\<close> and the pydantic
  models do not validate on assignment.
\<close>

datatype pyval =
    PNone
  | PBool bool
  | PInt int
  | PStr ustring
  | PDict "(ustring \<times> pyval) list"

datatype py_error = TypeError | AttributeError | ValueError

text \<open>Truth value of a value, as \<^verbatim>\<open>if value:\<close> and \<^verbatim>\<open>not value\<close> test it.\<close>

fun truthy :: "pyval \<Rightarrow> bool" where
  "truthy PNone = False"
| "truthy (PBool b) = b"
| "truthy (PInt n) = (n \<noteq> 0)"
| "truthy (PStr s) = (s \<noteq> [])"
| "truthy (PDict d) = (d \<noteq> [])"

text \<open>\<^verbatim>\<open>isinstance(value, dict)\<close>.\<close>

fun is_dict :: "pyval \<Rightarrow> bool" where
  "is_dict (PDict d) = True"
| "is_dict _ = False"

text \<open>
  \<^verbatim>\<open>str(value)\<close>. The text of a dict is its opening brace, the \<^verbatim>\<open>repr\<close> of its items and the
  closing brace; the text of the items is not modelled and left out. The source passes
  \<^verbatim>\<open>str(value)\<close> only to the telephone and policy validators, which turn down every text
  that starts with a brace and do not quote it in their answer.
\<close>

fun py_str :: "pyval \<Rightarrow> ustring" where
  "py_str PNone = ustr ''None''"
| "py_str (PBool b) = (if b then ustr ''True'' else ustr ''False'')"
| "py_str (PInt n) = str_of_int n"
| "py_str (PStr s) = s"
| "py_str (PDict d) = ustr ''{}''"

text \<open>\<^verbatim>\<open>d.get(key)\<close> and \<^verbatim>\<open>d[key] = v\<close> on the items of a dict.\<close>

definition dict_get :: "(ustring \<times> pyval) list \<Rightarrow> ustring \<Rightarrow> pyval" where
  "dict_get d k = (case map_of d k of None \<Rightarrow> PNone | Some v \<Rightarrow> v)"

fun dict_set :: "(ustring \<times> pyval) list \<Rightarrow> ustring \<Rightarrow> pyval \<Rightarrow> (ustring \<times> pyval) list" where
  "dict_set [] k v = [(k, v)]"
| "dict_set ((k', v') # d) k v = (if k' = k then (k, v) # d else (k', v') # dict_set d k v)"

text \<open>
  \<^verbatim>\<open>int(s)\<close> for a string: white space around the number is skipped (the characters of
  \<^verbatim>\<open>isspace\<close> except the four separators U+001C to U+001F), one sign may come first, and the
  digits may be separated by single underscores. More than 4300 digits are refused, the
  default limit of CPython. Everything else raises \<^verbatim>\<open>ValueError\<close>.
\<close>

definition int_space :: "nat \<Rightarrow> bool" where
  "int_space c \<longleftrightarrow> is_space c \<and> \<not> (0x1C \<le> c \<and> c \<le> 0x1F)"

fun digits_us :: "ustring \<Rightarrow> nat list option" where
  "digits_us [] = None"
| "digits_us [c] = map_option (\<lambda>d. [d]) (decimal_value c)"
| "digits_us (c # c' # r) =
     (case decimal_value c of
        None \<Rightarrow> None
      | Some d \<Rightarrow> map_option ((#) d) (if c' = 0x5F then digits_us r else digits_us (c' # r)))"

definition int_of_str :: "ustring \<Rightarrow> py_error + int" where
  "int_of_str s =
     (let t = dropWhile int_space s;
          neg = (t \<noteq> [] \<and> hd t = 0x2D);
          u = (if t \<noteq> [] \<and> (hd t = 0x2D \<or> hd t = 0x2B) then tl t else t);
          body = rev (dropWhile int_space (rev u))
      in case digits_us body of
           None \<Rightarrow> Inl ValueError
         | Some ds \<Rightarrow>
             if length ds > 4300 then Inl ValueError
             else Inr ((if neg then - 1 else 1) * int (foldl (\<lambda>a d. 10 * a + d) 0 ds)))"

text \<open>\<^verbatim>\<open>int(value)\<close>; a \<^verbatim>\<open>bool\<close> is an \<^verbatim>\<open>int\<close>, \<^verbatim>\<open>None\<close> and a dict raise \<^verbatim>\<open>TypeError\<close>.\<close>

fun py_int :: "pyval \<Rightarrow> py_error + int" where
  "py_int PNone = Inl TypeError"
| "py_int (PBool b) = Inr (if b then 1 else 0)"
| "py_int (PInt n) = Inr n"
| "py_int (PStr s) = int_of_str s"
| "py_int (PDict d) = Inl TypeError"

section \<open>Validators\<close>

text \<open>
  Source: \<^verbatim>\<open>src/clinic_chatbot/utils/validators.py\<close>. A validator returns the pair
  \<^verbatim>\<open>(is_valid, text)\<close> of the source; where the source can raise on a value of another type
  than the one it expects, the result is a sum with the exception on the left.

  The Chinese literals of the source, as code points.
\<close>

definition zh_today_1 :: ustring where "zh_today_1 = [0x4ECA, 0x5929]"
definition zh_today_2 :: ustring where "zh_today_2 = [0x4ECA, 0x65E5]"
definition zh_tomorrow_1 :: ustring where "zh_tomorrow_1 = [0x660E, 0x5929]"
definition zh_tomorrow_2 :: ustring where "zh_tomorrow_2 = [0x660E, 0x65E5]"
definition zh_day_after :: ustring where "zh_day_after = [0x540E, 0x5929]"
definition zh_next_week :: ustring where "zh_next_week = [0x4E0B, 0x5468]"
definition zh_month :: nat where "zh_month = 0x6708"
definition zh_day :: nat where "zh_day = 0x65E5"
definition zh_early_1 :: ustring where "zh_early_1 = [0x65E9, 0x4E0A]"
definition zh_early_2 :: ustring where "zh_early_2 = [0x65E9, 0x6668]"
definition zh_morning :: ustring where "zh_morning = [0x4E0A, 0x5348]"
definition zh_noon :: ustring where "zh_noon = [0x4E2D, 0x5348]"
definition zh_afternoon :: ustring where "zh_afternoon = [0x4E0B, 0x5348]"
definition zh_evening :: ustring where "zh_evening = [0x665A, 0x4E0A]"
definition zh_night :: ustring where "zh_night = [0x591C, 0x95F4]"
definition zh_male :: ustring where "zh_male = [0x7537]"
definition zh_female :: ustring where "zh_female = [0x5973]"
definition zh_other :: ustring where "zh_other = [0x5176, 0x4ED6]"

text \<open>\<^verbatim>\<open>is_valid_chinese_name\<close>, on a string.\<close>

definition is_han :: "nat \<Rightarrow> bool" where
  "is_han c \<longleftrightarrow> 0x4E00 \<le> c \<and> c \<le> 0x9FA5"

definition chinese_pattern :: "ustring \<Rightarrow> bool" where
  "chinese_pattern = re_match_dollar (\<lambda>t. t \<noteq> [] \<and> list_all is_han t)"

definition english_pattern :: "ustring \<Rightarrow> bool" where
  "english_pattern = re_match_dollar (\<lambda>t. t \<noteq> [] \<and> list_all (\<lambda>c. is_ascii_letter c \<or> is_space c) t)"

definition is_valid_chinese_name_str :: "ustring \<Rightarrow> bool" where
  "is_valid_chinese_name_str name =
     (if name = [] \<or> length name < 2 \<or> length name > 10 then False
      else chinese_pattern name \<or> english_pattern name)"

text \<open>
  The same on any value: \<^verbatim>\<open>len\<close> raises \<^verbatim>\<open>TypeError\<close> on a number, and \<^verbatim>\<open>re.match\<close> raises
  it on a dict that got past the length test.
\<close>

fun is_valid_chinese_name :: "pyval \<Rightarrow> py_error + bool" where
  "is_valid_chinese_name (PStr name) = Inr (is_valid_chinese_name_str name)"
| "is_valid_chinese_name (PDict d) =
     (if d = [] \<or> length d < 2 \<or> length d > 10 then Inr False else Inl TypeError)"
| "is_valid_chinese_name PNone = Inr False"
| "is_valid_chinese_name (PBool b) = (if \<not> b then Inr False else Inl TypeError)"
| "is_valid_chinese_name (PInt n) = (if n = 0 then Inr False else Inl TypeError)"

text \<open>\<^verbatim>\<open>validate_phone_number\<close>.\<close>

definition strip_country_code :: "ustring \<Rightarrow> ustring" where
  "strip_country_code s =
     (if prefix (ustr ''+852'') s then drop 4 s
      else if prefix (ustr ''852'') s then drop 3 s
      else s)"

definition phone_pattern :: "ustring \<Rightarrow> bool" where
  "phone_pattern =
     re_match_dollar (\<lambda>t. length t = 8 \<and> 0x32 \<le> hd t \<and> hd t \<le> 0x39 \<and> list_all is_decimal (tl t))"

definition validate_phone_number :: "ustring \<Rightarrow> bool \<times> ustring" where
  "validate_phone_number phone =
     (if phone = [] then (False, ustr ''Phone number cannot be empty'')
      else
        let clean_phone = filter (\<lambda>c. \<not> (is_space c \<or> c = 0x2D)) phone;
            clean_phone = strip_country_code clean_phone
        in if phone_pattern clean_phone then (True, clean_phone)
           else (False, ustr ''Please provide a valid Hong Kong phone number.''))"

text \<open>\<^verbatim>\<open>validate_policy_number\<close>.\<close>

definition policy_pattern :: "ustring \<Rightarrow> bool" where
  "policy_pattern =
     re_match_dollar (\<lambda>t. 6 \<le> length t \<and> length t \<le> 20 \<and> list_all is_ascii_alnum t)"

definition validate_policy_number :: "ustring \<Rightarrow> bool \<times> ustring" where
  "validate_policy_number policy =
     (if policy = [] then (False, ustr ''Policy number cannot be empty'')
      else if policy_pattern policy then (True, py_upper policy)
      else (False, ustr ''Policy number format is incorrect, please check and re-enter''))"

text \<open>\<^verbatim>\<open>get_clinic_appointment_types\<close>: the catalog of the source, in its order.\<close>

definition get_clinic_appointment_types :: "ustring list" where
  "get_clinic_appointment_types =
     [[0x666E, 0x901A, 0x79D1], [0x5185, 0x79D1], [0x5916, 0x79D1], [0x513F, 0x79D1],
      [0x5987, 0x4EA7, 0x79D1], [0x773C, 0x79D1], [0x8033, 0x9F3B, 0x5589, 0x79D1],
      [0x53E3, 0x8154, 0x79D1], [0x76AE, 0x80A4, 0x79D1], [0x9AA8, 0x79D1],
      [0x6CCC, 0x5C3F, 0x79D1], [0x5FC3, 0x8840, 0x7BA1, 0x79D1], [0x547C, 0x5438, 0x79D1],
      [0x6D88, 0x5316, 0x79D1], [0x5185, 0x5206, 0x6CCC, 0x79D1], [0x80BF, 0x7624, 0x79D1],
      [0x7CBE, 0x795E, 0x79D1], [0x5EB7, 0x590D, 0x79D1], [0x4E2D, 0x533B, 0x79D1],
      [0x75BC, 0x75DB, 0x79D1], [0x9EBB, 0x9189, 0x79D1], [0x8425, 0x517B, 0x79D1],
      [0x68C0, 0x9A8C, 0x79D1], [0x5F71, 0x50CF, 0x79D1]]"

text \<open>
  \<^verbatim>\<open>validate_appointment_type(apt_type, valid_types)\<close>. The source computes
  \<^verbatim>\<open>apt_type.lower()\<close> and does not use it; the call raises \<^verbatim>\<open>AttributeError\<close> on a value
  that is not a string. The first catalog entry that contains the text or is contained in it
  is returned; without one the text itself is accepted.
\<close>

fun validate_appointment_type :: "pyval \<Rightarrow> ustring list \<Rightarrow> py_error + (bool \<times> ustring)" where
  "validate_appointment_type (PStr apt_type) valid_types =
     (if apt_type = [] then Inr (False, ustr ''Appointment type cannot be empty'')
      else case find (\<lambda>valid_type. str_in valid_type apt_type \<or> str_in apt_type valid_type) valid_types of
             Some valid_type \<Rightarrow> Inr (True, valid_type)
           | None \<Rightarrow> Inr (True, apt_type))"
| "validate_appointment_type v valid_types =
     (if \<not> truthy v then Inr (False, ustr ''Appointment type cannot be empty'')
      else Inl AttributeError)"

text \<open>
  The clock: \<^verbatim>\<open>normalize_date_expression\<close> reads \<^verbatim>\<open>datetime.now()\<close>. What it uses of it is
  the text \<^verbatim>\<open>(today + timedelta(days=n)).strftime("%Y-%m-%d")\<close> and the number \<^verbatim>\<open>today.year\<close>;
  both are taken from the environment.
\<close>

record clock =
  strftime_plus_days :: "nat \<Rightarrow> ustring"
  today_year :: int

text \<open>
  The three date patterns, matched at the start of the text given:
  \<^verbatim>\<open>(\d{4})-(\d{1,2})-(\d{1,2})\<close>, \<^verbatim>\<open>(\d{1,2})<month>(\d{1,2})<day>\<close> with the characters
  U+6708 and U+65E5, and \<^verbatim>\<open>(\d{1,2})/(\d{1,2})\<close>. A group \<^verbatim>\<open>\d{1,2}\<close> before a separator
  takes two digits if the separator follows them and else one digit if the separator follows
  it; at the end of a pattern it takes two digits where there are two.
\<close>

fun digits12_then :: "nat \<Rightarrow> ustring \<Rightarrow> (ustring \<times> ustring) option" where
  "digits12_then sep (a # b # c # r) =
     (if is_decimal a \<and> is_decimal b \<and> c = sep then Some ([a, b], r)
      else if is_decimal a \<and> b = sep then Some ([a], c # r)
      else None)"
| "digits12_then sep [a, b] = (if is_decimal a \<and> b = sep then Some ([a], []) else None)"
| "digits12_then sep [a] = None"
| "digits12_then sep [] = None"

fun digits12 :: "ustring \<Rightarrow> ustring option" where
  "digits12 (a # b # r) =
     (if is_decimal a \<and> is_decimal b then Some [a, b]
      else if is_decimal a then Some [a]
      else None)"
| "digits12 [a] = (if is_decimal a then Some [a] else None)"
| "digits12 [] = None"

fun match_year_month_day :: "ustring \<Rightarrow> (ustring \<times> ustring \<times> ustring) option" where
  "match_year_month_day (y1 # y2 # y3 # y4 # c # r) =
     (if is_decimal y1 \<and> is_decimal y2 \<and> is_decimal y3 \<and> is_decimal y4 \<and> c = 0x2D
      then case digits12_then 0x2D r of
             None \<Rightarrow> None
           | Some (month, r') \<Rightarrow>
               (case digits12 r' of None \<Rightarrow> None | Some day \<Rightarrow> Some ([y1, y2, y3, y4], month, day))
      else None)"
| "match_year_month_day _ = None"

definition match_month_day_zh :: "ustring \<Rightarrow> (ustring \<times> ustring) option" where
  "match_month_day_zh s =
     (case digits12_then zh_month s of
        None \<Rightarrow> None
      | Some (month, r) \<Rightarrow>
          (case digits12_then zh_day r of None \<Rightarrow> None | Some (day, r') \<Rightarrow> Some (month, day)))"

definition match_month_day_slash :: "ustring \<Rightarrow> (ustring \<times> ustring) option" where
  "match_month_day_slash s =
     (case digits12_then 0x2F s of
        None \<Rightarrow> None
      | Some (month, r) \<Rightarrow> (case digits12 r of None \<Rightarrow> None | Some day \<Rightarrow> Some (month, day)))"

text \<open>
  The body of the loop over \<^verbatim>\<open>date_patterns\<close> for each pattern: \<open>Some\<close> text when the pattern
  is found and the text is returned, \<open>None\<close> when the loop goes on to the next pattern (no
  match, or the \<^verbatim>\<open>ValueError\<close> of \<^verbatim>\<open>int\<close> caught by \<^verbatim>\<open>continue\<close>).
\<close>

definition month_day_text :: "ustring \<Rightarrow> ustring \<Rightarrow> ustring \<Rightarrow> ustring option" where
  "month_day_text year month day =
     (case int_of_str month of
        Inl e \<Rightarrow> None
      | Inr m \<Rightarrow>
          (case int_of_str day of
             Inl e \<Rightarrow> None
           | Inr d \<Rightarrow> Some (year @ [0x2D] @ fmt_02d m @ [0x2D] @ fmt_02d d)))"

definition date_pattern_1 :: "ustring \<Rightarrow> ustring option" where
  "date_pattern_1 date_expr =
     (case re_search match_year_month_day date_expr of
        None \<Rightarrow> None
      | Some (year, month, day) \<Rightarrow> month_day_text year month day)"

definition date_pattern_2 :: "clock \<Rightarrow> ustring \<Rightarrow> ustring option" where
  "date_pattern_2 clk date_expr =
     (case re_search match_month_day_zh date_expr of
        None \<Rightarrow> None
      | Some (month, day) \<Rightarrow> month_day_text (str_of_int (today_year clk)) month day)"

definition date_pattern_3 :: "clock \<Rightarrow> ustring \<Rightarrow> ustring option" where
  "date_pattern_3 clk date_expr =
     (case re_search match_month_day_slash date_expr of
        None \<Rightarrow> None
      | Some (month, day) \<Rightarrow> month_day_text (str_of_int (today_year clk)) month day)"

text \<open>
  \<^verbatim>\<open>normalize_date_expression\<close>, on a string. The result \<open>None\<close> is the \<^verbatim>\<open>None\<close> of the
  source (empty input); the last case returns the lower-cased and stripped text.
\<close>

definition normalize_date_expression_str :: "clock \<Rightarrow> ustring \<Rightarrow> ustring option" where
  "normalize_date_expression_str clk date_expr0 =
     (if date_expr0 = [] then None
      else
        let date_expr = py_strip (py_lower date_expr0) in
        if str_in zh_today_1 date_expr \<or> str_in zh_today_2 date_expr
          then Some (strftime_plus_days clk 0)
        else if str_in zh_tomorrow_1 date_expr \<or> str_in zh_tomorrow_2 date_expr
          then Some (strftime_plus_days clk 1)
        else if str_in zh_day_after date_expr then Some (strftime_plus_days clk 2)
        else if str_in zh_next_week date_expr then Some (strftime_plus_days clk 7)
        else case date_pattern_1 date_expr of
               Some text \<Rightarrow> Some text
             | None \<Rightarrow>
                 (case date_pattern_2 clk date_expr of
                    Some text \<Rightarrow> Some text
                  | None \<Rightarrow>
                      (case date_pattern_3 clk date_expr of
                         Some text \<Rightarrow> Some text
                       | None \<Rightarrow> Some date_expr)))"

fun normalize_date_expression :: "clock \<Rightarrow> pyval \<Rightarrow> py_error + ustring option" where
  "normalize_date_expression clk (PStr date_expr) = Inr (normalize_date_expression_str clk date_expr)"
| "normalize_date_expression clk v = (if \<not> truthy v then Inr None else Inl AttributeError)"

text \<open>\<^verbatim>\<open>normalize_time_slot\<close>; the dict \<^verbatim>\<open>time_mappings\<close> is gone through in its order.\<close>

definition time_mappings :: "(ustring \<times> ustring) list" where
  "time_mappings =
     [(zh_early_1, zh_morning), (zh_early_2, zh_morning), (zh_morning, zh_morning),
      (zh_noon, zh_afternoon), (zh_afternoon, zh_afternoon), (zh_evening, zh_evening),
      (zh_night, zh_evening)]"

definition normalize_time_slot_str :: "ustring \<Rightarrow> ustring option" where
  "normalize_time_slot_str time_slot0 =
     (if time_slot0 = [] then None
      else
        let time_slot = py_strip (py_lower time_slot0) in
        case find (\<lambda>(key, value). str_in key time_slot) time_mappings of
          Some (key, value) \<Rightarrow> Some value
        | None \<Rightarrow>
            if list_ex (\<lambda>x. str_in x time_slot) [ustr ''9'', ustr ''10'', ustr ''11'']
              then Some zh_morning
            else if list_ex (\<lambda>x. str_in x time_slot) [ustr ''14'', ustr ''15'', ustr ''16'', ustr ''17'']
              then Some zh_afternoon
            else if list_ex (\<lambda>x. str_in x time_slot) [ustr ''18'', ustr ''19'', ustr ''20'']
              then Some zh_evening
            else Some time_slot)"

fun normalize_time_slot :: "pyval \<Rightarrow> py_error + ustring option" where
  "normalize_time_slot (PStr time_slot) = Inr (normalize_time_slot_str time_slot)"
| "normalize_time_slot v = (if \<not> truthy v then Inr None else Inl AttributeError)"

text \<open>\<^verbatim>\<open>validate_age_range\<close> with its defaults \<^verbatim>\<open>min_age = 0\<close> and \<^verbatim>\<open>max_age = 150\<close>.\<close>

definition validate_age_range :: "int \<Rightarrow> bool \<times> ustring" where
  "validate_age_range age =
     (if age < 0 then (False, ustr ''Age cannot be less than 0 years'')
      else if age > 150 then (False, ustr ''Age cannot be greater than 150 years'')
      else (True, []))"

text \<open>
  \<^verbatim>\<open>validate_gender\<close>. The message of the last case is
  \<^verbatim>\<open>"Valid options are: "\<close> followed by the three valid values separated by U+3001.
\<close>

definition valid_genders :: "ustring list" where
  "valid_genders = [zh_male, zh_female, zh_other]"

definition gender_message :: ustring where
  "gender_message = ustr ''Valid options are: '' @ zh_male @ [0x3001] @ zh_female @ [0x3001] @ zh_other"

fun validate_gender :: "pyval \<Rightarrow> py_error + (bool \<times> ustring)" where
  "validate_gender (PStr gender) =
     (if gender = [] then Inr (True, [])
      else if gender \<in> set valid_genders then Inr (True, gender)
      else if py_lower gender \<in> set [ustr ''male'', ustr ''m''] then Inr (True, zh_male)
      else if py_lower gender \<in> set [ustr ''female'', ustr ''f''] then Inr (True, zh_female)
      else Inr (False, gender_message))"
| "validate_gender v = (if \<not> truthy v then Inr (True, []) else Inl AttributeError)"

text \<open>
  \<^verbatim>\<open>validate_patient_info(patient_info)\<close>. The source changes the dict it is given in place;
  the function returns the changed dict as third component. The age is read with \<^verbatim>\<open>int\<close>:
  its \<^verbatim>\<open>ValueError\<close> is caught, its \<^verbatim>\<open>TypeError\<close> is not.
\<close>

definition validate_patient_info ::
  "(ustring \<times> pyval) list \<Rightarrow> py_error + (bool \<times> ustring list \<times> (ustring \<times> pyval) list)" where
  "validate_patient_info patient_info =
     (let name = dict_get patient_info (ustr ''name'') in
      case (if truthy name then is_valid_chinese_name name else Inr True) of
        Inl e \<Rightarrow> Inl e
      | Inr name_ok \<Rightarrow>
      let errors = (if name_ok then [] else [ustr ''Name format is incorrect'']);
          age = dict_get patient_info (ustr ''age'') in
      case (if age \<noteq> PNone
            then (case py_int age of
                    Inl ValueError \<Rightarrow> Inr (errors @ [ustr ''Age must be a number''])
                  | Inl e \<Rightarrow> Inl e
                  | Inr age_int \<Rightarrow>
                      (case validate_age_range age_int of
                         (is_valid, error_msg) \<Rightarrow>
                           Inr (if \<not> is_valid then errors @ [error_msg] else errors)))
            else Inr errors) of
        Inl e \<Rightarrow> Inl e
      | Inr errors \<Rightarrow>
      let gender = dict_get patient_info (ustr ''gender'') in
      if truthy gender
      then (case validate_gender gender of
              Inl e \<Rightarrow> Inl e
            | Inr (is_valid, normalized_gender) \<Rightarrow>
                if \<not> is_valid
                then Inr (False, errors @ [normalized_gender], patient_info)
                else Inr (errors = [], errors,
                          dict_set patient_info (ustr ''gender'') (PStr normalized_gender)))
      else Inr (errors = [], errors, patient_info))"

text \<open>\<^verbatim>\<open>validate_preferred_time(time_info)\<close>, with the changed dict as third component.\<close>

definition validate_preferred_time ::
  "clock \<Rightarrow> (ustring \<times> pyval) list \<Rightarrow> py_error + (bool \<times> ustring list \<times> (ustring \<times> pyval) list)"
where
  "validate_preferred_time clk time_info =
     (let date_expr = dict_get time_info (ustr ''date'') in
      case (if truthy date_expr
            then (case normalize_date_expression clk date_expr of
                    Inl e \<Rightarrow> Inl e
                  | Inr normalized_date \<Rightarrow>
                      (case normalized_date of
                         Some text \<Rightarrow>
                           if text \<noteq> [] then Inr ([], dict_set time_info (ustr ''date'') (PStr text))
                           else Inr ([ustr ''Date format cannot be recognized, please provide a specific date''],
                                     time_info)
                       | None \<Rightarrow>
                           Inr ([ustr ''Date format cannot be recognized, please provide a specific date''],
                                time_info)))
            else Inr ([], time_info)) of
        Inl e \<Rightarrow> Inl e
      | Inr (errors, time_info) \<Rightarrow>
      let time_slot = dict_get time_info (ustr ''time_slot'') in
      if truthy time_slot
      then (case normalize_time_slot time_slot of
              Inl e \<Rightarrow> Inl e
            | Inr normalized_slot \<Rightarrow>
                (case normalized_slot of
                   Some text \<Rightarrow>
                     if text \<noteq> []
                     then Inr (errors = [], errors, dict_set time_info (ustr ''time_slot'') (PStr text))
                     else Inr (errors = [], errors, time_info)
                 | None \<Rightarrow> Inr (errors = [], errors, time_info)))
      else Inr (errors = [], errors, time_info))"

section \<open>Entity model\<close>

text \<open>
  Source: \<^verbatim>\<open>src/clinic_chatbot/models/entities.py\<close>. The fields are declared
  \<^verbatim>\<open>Optional[str]\<close>, \<^verbatim>\<open>Optional[int]\<close>, \<^verbatim>\<open>Optional[PatientInfo]\<close> and
  \<^verbatim>\<open>Optional[PreferredTime]\<close>, but an assignment with \<^verbatim>\<open>setattr\<close> stores any value, so a
  field holds a \<open>pyval\<close>, and the two fields for sub-objects hold either a sub-object
  (\<open>Obj\<close>) or another value (\<open>Val\<close>, with \<open>Val PNone\<close> for \<^verbatim>\<open>None\<close>). The type of the
  sub-objects is a parameter: here they are the records themselves, in the store model below
  they are addresses.
\<close>

record PatientInfo =
  name :: pyval
  age :: pyval
  gender :: pyval

record PreferredTime =
  date :: pyval
  time_slot :: pyval

datatype 'a attr = Obj 'a | Val pyval

record ('p, 't) Booking =
  booking_type :: pyval
  patient_info :: "'p attr"
  policy_number :: pyval
  available_time :: "'t attr"
  phone_number :: pyval

type_synonym BookingEntities = "(PatientInfo, PreferredTime) Booking"

text \<open>The objects \<^verbatim>\<open>PatientInfo()\<close>, \<^verbatim>\<open>PreferredTime()\<close> and \<^verbatim>\<open>BookingEntities()\<close>.\<close>

definition new_PatientInfo :: PatientInfo where
  "new_PatientInfo = \<lparr>name = PNone, age = PNone, gender = PNone\<rparr>"

definition new_PreferredTime :: PreferredTime where
  "new_PreferredTime = \<lparr>date = PNone, time_slot = PNone\<rparr>"

definition new_BookingEntities :: BookingEntities where
  "new_BookingEntities =
     \<lparr>booking_type = PNone, patient_info = Obj new_PatientInfo, policy_number = PNone,
      available_time = Obj new_PreferredTime, phone_number = PNone\<rparr>"

text \<open>Truth value of a field for a sub-object: a pydantic model object is always true.\<close>

fun attr_truthy :: "'a attr \<Rightarrow> bool" where
  "attr_truthy (Obj p) = True"
| "attr_truthy (Val v) = truthy v"

text \<open>
  Reading an attribute of what a sub-object field holds: a value that is not a model object
  has no attribute \<^verbatim>\<open>name\<close> or \<^verbatim>\<open>date\<close>.
\<close>

fun getattr_of :: "('a \<Rightarrow> pyval) \<Rightarrow> 'a attr \<Rightarrow> py_error + pyval" where
  "getattr_of field (Obj p) = Inr (field p)"
| "getattr_of field (Val v) = Inl AttributeError"

text \<open>The labels of \<^verbatim>\<open>get_missing_fields\<close>, as code points.\<close>

definition label_booking_type :: ustring where
  "label_booking_type = [0x9810, 0x7D04, 0x985E, 0x578B]"
definition label_patient_info :: ustring where
  "label_patient_info = [0x75C5, 0x4EBA, 0x8CC7, 0x8A0A]"
definition label_policy_number :: ustring where
  "label_policy_number = [0x4FDD, 0x55AE, 0x865F, 0x78BC]"
definition label_available_time :: ustring where
  "label_available_time = [0x53EF, 0x9810, 0x7D04, 0x6642, 0x9593]"
definition label_phone_number :: ustring where
  "label_phone_number = [0x96FB, 0x8A71, 0x865F, 0x78BC]"

text \<open>
  \<^verbatim>\<open>not self.patient_info or not self.patient_info.name\<close>, and the same for
  \<^verbatim>\<open>available_time\<close> and \<^verbatim>\<open>date\<close>.
\<close>

definition attr_field_missing :: "('a \<Rightarrow> pyval) \<Rightarrow> 'a attr \<Rightarrow> py_error + bool" where
  "attr_field_missing field a =
     (if \<not> attr_truthy a then Inr True
      else case getattr_of field a of Inl e \<Rightarrow> Inl e | Inr v \<Rightarrow> Inr (\<not> truthy v))"

text \<open>\<^verbatim>\<open>BookingEntities.get_missing_fields\<close>.\<close>

definition get_missing_fields :: "BookingEntities \<Rightarrow> py_error + ustring list" where
  "get_missing_fields self =
     (let missing = [];
          missing = (if \<not> truthy (booking_type self) then missing @ [label_booking_type] else missing)
      in case attr_field_missing name (patient_info self) of
           Inl e \<Rightarrow> Inl e
         | Inr no_name \<Rightarrow>
      let missing = (if no_name then missing @ [label_patient_info] else missing);
          missing = (if \<not> truthy (policy_number self) then missing @ [label_policy_number] else missing)
      in case attr_field_missing date (available_time self) of
           Inl e \<Rightarrow> Inl e
         | Inr no_date \<Rightarrow>
      let missing = (if no_date then missing @ [label_available_time] else missing);
          missing = (if \<not> truthy (phone_number self) then missing @ [label_phone_number] else missing)
      in Inr missing)"

text \<open>\<^verbatim>\<open>BookingEntities.is_complete\<close>.\<close>

definition is_complete :: "BookingEntities \<Rightarrow> py_error + bool" where
  "is_complete self = (case get_missing_fields self of Inl e \<Rightarrow> Inl e | Inr missing \<Rightarrow> Inr (length missing = 0))"

text \<open>
  \<^verbatim>\<open>BookingEntities.to_dict\<close>; \<^verbatim>\<open>self.patient_info.name if self.patient_info else None\<close>.
\<close>

definition attr_field_or_none :: "('a \<Rightarrow> pyval) \<Rightarrow> 'a attr \<Rightarrow> py_error + pyval" where
  "attr_field_or_none field a = (if attr_truthy a then getattr_of field a else Inr PNone)"

definition to_dict :: "BookingEntities \<Rightarrow> py_error + pyval" where
  "to_dict self =
     (case attr_field_or_none name (patient_info self) of Inl e \<Rightarrow> Inl e | Inr n \<Rightarrow>
      case attr_field_or_none age (patient_info self) of Inl e \<Rightarrow> Inl e | Inr a \<Rightarrow>
      case attr_field_or_none gender (patient_info self) of Inl e \<Rightarrow> Inl e | Inr g \<Rightarrow>
      case attr_field_or_none date (available_time self) of Inl e \<Rightarrow> Inl e | Inr d \<Rightarrow>
      case attr_field_or_none time_slot (available_time self) of Inl e \<Rightarrow> Inl e | Inr t \<Rightarrow>
      Inr (PDict
        [(ustr ''booking_type'', booking_type self),
         (ustr ''patient_info'',
            PDict [(ustr ''name'', n), (ustr ''age'', a), (ustr ''gender'', g)]),
         (ustr ''policy_number'', policy_number self),
         (ustr ''available_time'', PDict [(ustr ''date'', d), (ustr ''time_slot'', t)]),
         (ustr ''phone_number'', phone_number self)]))"

section \<open>Entity merger\<close>

text \<open>
  Source: \<^verbatim>\<open>SmartEntityMerger.merge_entities\<close> in
  \<^verbatim>\<open>src/clinic_chatbot/services/entity_extractor.py\<close>.

  \<^verbatim>\<open>setattr(obj, key, value)\<close> on a pydantic model object stores the value under a declared
  field and raises \<^verbatim>\<open>ValueError\<close> for any other name; on a value that is not a model object
  it raises \<^verbatim>\<open>AttributeError\<close>.
\<close>

definition setattr_PatientInfo :: "PatientInfo \<Rightarrow> ustring \<Rightarrow> pyval \<Rightarrow> py_error + PatientInfo" where
  "setattr_PatientInfo p key v =
     (if key = ustr ''name'' then Inr (p\<lparr>name := v\<rparr>)
      else if key = ustr ''age'' then Inr (p\<lparr>age := v\<rparr>)
      else if key = ustr ''gender'' then Inr (p\<lparr>gender := v\<rparr>)
      else Inl ValueError)"

definition setattr_PreferredTime :: "PreferredTime \<Rightarrow> ustring \<Rightarrow> pyval \<Rightarrow> py_error + PreferredTime" where
  "setattr_PreferredTime t key v =
     (if key = ustr ''date'' then Inr (t\<lparr>date := v\<rparr>)
      else if key = ustr ''time_slot'' then Inr (t\<lparr>time_slot := v\<rparr>)
      else Inl ValueError)"

fun setattr_attr :: "('a \<Rightarrow> ustring \<Rightarrow> pyval \<Rightarrow> py_error + 'a) \<Rightarrow> 'a attr \<Rightarrow> ustring \<Rightarrow> pyval \<Rightarrow> py_error + 'a attr" where
  "setattr_attr setter (Obj p) key v = (case setter p key v of Inl e \<Rightarrow> Inl e | Inr p' \<Rightarrow> Inr (Obj p'))"
| "setattr_attr setter (Val w) key v = Inl AttributeError"

text \<open>
  \<^verbatim>\<open>for k, v in d.items(): if v: setattr(target, k, v)\<close>, the loop that copies the true
  values of a dict into a sub-object.
\<close>

fun setattr_items :: "('a \<Rightarrow> ustring \<Rightarrow> pyval \<Rightarrow> py_error + 'a) \<Rightarrow> 'a attr \<Rightarrow> (ustring \<times> pyval) list \<Rightarrow> py_error + 'a attr" where
  "setattr_items setter target [] = Inr target"
| "setattr_items setter target ((k, v) # rest) =
     (if truthy v
      then case setattr_attr setter target k v of
             Inl e \<Rightarrow> Inl e
           | Inr target' \<Rightarrow> setattr_items setter target' rest
      else setattr_items setter target rest)"

text \<open>
  One round of the loop \<^verbatim>\<open>for key, value in new_entities.items()\<close>, on the pair of
  \<^verbatim>\<open>merged\<close> and \<^verbatim>\<open>all_errors\<close>.
\<close>

definition merge_item ::
  "clock \<Rightarrow> ustring \<times> pyval \<Rightarrow> BookingEntities \<times> ustring list \<Rightarrow> py_error + (BookingEntities \<times> ustring list)"
where
  "merge_item clk item st =
     (case item of (key, value) \<Rightarrow> case st of (merged, all_errors) \<Rightarrow>
      if \<not> truthy value then Inr (merged, all_errors)
      else if key = ustr ''booking_type'' then
        (case validate_appointment_type value get_clinic_appointment_types of
           Inl e \<Rightarrow> Inl e
         | Inr (is_valid, result) \<Rightarrow>
             if is_valid then Inr (merged\<lparr>booking_type := PStr result\<rparr>, all_errors)
             else Inr (merged, all_errors @ [ustr ''booking_type: '' @ result]))
      else if key = ustr ''phone_number'' then
        (case validate_phone_number (py_str value) of
           (is_valid, result) \<Rightarrow>
             if is_valid then Inr (merged\<lparr>phone_number := PStr result\<rparr>, all_errors)
             else Inr (merged, all_errors @ [ustr ''phone_number: '' @ result]))
      else if key = ustr ''policy_number'' then
        (case validate_policy_number (py_str value) of
           (is_valid, result) \<Rightarrow>
             if is_valid then Inr (merged\<lparr>policy_number := PStr result\<rparr>, all_errors)
             else Inr (merged, all_errors @ [ustr ''policy_number: '' @ result]))
      else if key = ustr ''patient_info'' \<and> is_dict value then
        (let merged = (if \<not> attr_truthy (patient_info merged)
                       then merged\<lparr>patient_info := Obj new_PatientInfo\<rparr> else merged);
             patient_copy = (case value of PDict d \<Rightarrow> d | _ \<Rightarrow> [])
         in case validate_patient_info patient_copy of
              Inl e \<Rightarrow> Inl e
            | Inr (is_valid, errors, patient_copy) \<Rightarrow>
                if \<not> is_valid
                then Inr (merged, all_errors @ map (\<lambda>error. ustr ''patient_info: '' @ error) errors)
                else (case setattr_items setattr_PatientInfo (patient_info merged) patient_copy of
                        Inl e \<Rightarrow> Inl e
                      | Inr target \<Rightarrow> Inr (merged\<lparr>patient_info := target\<rparr>, all_errors)))
      else if key = ustr ''available_time'' \<and> is_dict value then
        (let merged = (if \<not> attr_truthy (available_time merged)
                       then merged\<lparr>available_time := Obj new_PreferredTime\<rparr> else merged);
             time_copy = (case value of PDict d \<Rightarrow> d | _ \<Rightarrow> [])
         in case validate_preferred_time clk time_copy of
              Inl e \<Rightarrow> Inl e
            | Inr (is_valid, errors, time_copy) \<Rightarrow>
                if \<not> is_valid
                then Inr (merged, all_errors @ map (\<lambda>error. ustr ''available_time: '' @ error) errors)
                else (case setattr_items setattr_PreferredTime (available_time merged) time_copy of
                        Inl e \<Rightarrow> Inl e
                      | Inr target \<Rightarrow> Inr (merged\<lparr>available_time := target\<rparr>, all_errors)))
      else Inr (merged, all_errors))"

fun merge_items ::
  "clock \<Rightarrow> (ustring \<times> pyval) list \<Rightarrow> BookingEntities \<times> ustring list \<Rightarrow> py_error + (BookingEntities \<times> ustring list)"
where
  "merge_items clk [] st = Inr st"
| "merge_items clk (item # rest) st =
     (case merge_item clk item st of Inl e \<Rightarrow> Inl e | Inr st' \<Rightarrow> merge_items clk rest st')"

text \<open>
  \<^verbatim>\<open>merge_entities(current_entities, new_entities)\<close>: the result is the pair
  \<^verbatim>\<open>(merged, all_errors)\<close>, or the exception that ended the call. On values the deep copy
  \<^verbatim>\<open>current_entities.copy(deep=True)\<close> is the value itself; the store model below has the
  copy.
\<close>

definition merge_entities ::
  "clock \<Rightarrow> BookingEntities \<Rightarrow> (ustring \<times> pyval) list \<Rightarrow> py_error + (BookingEntities \<times> ustring list)"
where
  "merge_entities clk current_entities new_entities =
     (let merged = current_entities; all_errors = []
      in merge_items clk new_entities (merged, all_errors))"

section \<open>Conversation manager and entity extractor\<close>

text \<open>
  Source: \<^verbatim>\<open>src/clinic_chatbot/models/conversation.py\<close> and class \<^verbatim>\<open>EntityExtractor\<close> in
  \<^verbatim>\<open>src/clinic_chatbot/services/entity_extractor.py\<close>.
\<close>

datatype ConversationState =
    GREETING
  | EXTRACTING_ENTITIES
  | COLLECTING_MISSING
  | SHOWING_AVAILABILITY
  | CONFIRMING_BOOKING
  | COMPLETED
  | ERROR

text \<open>
  \<^verbatim>\<open>DoctorSlot\<close>; its field \<^verbatim>\<open>date\<close> is written \<open>slot_date\<close>, since \<open>date\<close> is the field of
  \<open>PreferredTime\<close>.
\<close>

record DoctorSlot =
  doctor_id :: ustring
  doctor_name :: ustring
  specialty :: ustring
  slot_date :: ustring
  start_time :: ustring
  end_time :: ustring
  available :: bool

record Message =
  role :: ustring
  content :: ustring
  timestamp :: ustring

record ConversationManager =
  conversation_id :: ustring
  state :: ConversationState
  entities :: BookingEntities
  message_history :: "Message list"
  available_slots :: "DoctorSlot list"
  selected_slot :: "DoctorSlot option"
  turn_count :: nat
  created_at :: datetime

text \<open>
  \<^verbatim>\<open>setattr(self.entities, key, value)\<close>: any value is stored under a declared field, also in
  the two fields for sub-objects.
\<close>

definition setattr_BookingEntities :: "BookingEntities \<Rightarrow> ustring \<Rightarrow> pyval \<Rightarrow> py_error + BookingEntities" where
  "setattr_BookingEntities e key v =
     (if key = ustr ''booking_type'' then Inr (e\<lparr>booking_type := v\<rparr>)
      else if key = ustr ''patient_info'' then Inr (e\<lparr>patient_info := Val v\<rparr>)
      else if key = ustr ''policy_number'' then Inr (e\<lparr>policy_number := v\<rparr>)
      else if key = ustr ''available_time'' then Inr (e\<lparr>available_time := Val v\<rparr>)
      else if key = ustr ''phone_number'' then Inr (e\<lparr>phone_number := v\<rparr>)
      else Inl ValueError)"

text \<open>
  The loop \<^verbatim>\<open>for k, v in d.items(): if v: setattr(target, k, v)\<close> on an object that is changed
  in place: when \<^verbatim>\<open>setattr\<close> raises, what was assigned before stays assigned.
\<close>

fun setattr_items_inplace :: "('a \<Rightarrow> ustring \<Rightarrow> pyval \<Rightarrow> py_error + 'a) \<Rightarrow> 'a attr \<Rightarrow> (ustring \<times> pyval) list \<Rightarrow> 'a attr \<times> py_error option" where
  "setattr_items_inplace setter target [] = (target, None)"
| "setattr_items_inplace setter target ((k, v) # rest) =
     (if truthy v
      then case setattr_attr setter target k v of
             Inl e \<Rightarrow> (target, Some e)
           | Inr target' \<Rightarrow> setattr_items_inplace setter target' rest
      else setattr_items_inplace setter target rest)"

text \<open>One round of the loop of \<^verbatim>\<open>ConversationManager.update_entities\<close>, on \<^verbatim>\<open>self.entities\<close>.\<close>

definition update_item :: "ustring \<times> pyval \<Rightarrow> BookingEntities \<Rightarrow> BookingEntities \<times> py_error option" where
  "update_item item e =
     (case item of (key, value) \<Rightarrow>
      if key = ustr ''patient_info'' \<and> is_dict value then
        (let e = (if \<not> attr_truthy (patient_info e)
                  then e\<lparr>patient_info := Obj new_PatientInfo\<rparr> else e)
         in case setattr_items_inplace setattr_PatientInfo (patient_info e)
                   (case value of PDict d \<Rightarrow> d | _ \<Rightarrow> []) of
              (target, err) \<Rightarrow> (e\<lparr>patient_info := target\<rparr>, err))
      else if key = ustr ''available_time'' \<and> is_dict value then
        (let e = (if \<not> attr_truthy (available_time e)
                  then e\<lparr>available_time := Obj new_PreferredTime\<rparr> else e)
         in case setattr_items_inplace setattr_PreferredTime (available_time e)
                   (case value of PDict d \<Rightarrow> d | _ \<Rightarrow> []) of
              (target, err) \<Rightarrow> (e\<lparr>available_time := target\<rparr>, err))
      else if truthy value then
        (case setattr_BookingEntities e key value of
           Inl err \<Rightarrow> (e, Some err)
         | Inr e' \<Rightarrow> (e', None))
      else (e, None))"

fun update_items :: "(ustring \<times> pyval) list \<Rightarrow> BookingEntities \<Rightarrow> BookingEntities \<times> py_error option" where
  "update_items [] e = (e, None)"
| "update_items (item # rest) e =
     (case update_item item e of
        (e', Some err) \<Rightarrow> (e', Some err)
      | (e', None) \<Rightarrow> update_items rest e')"

text \<open>
  \<^verbatim>\<open>ConversationManager.update_entities(new_entities)\<close>: the conversation after the call, and
  the exception if the call ended with one.
\<close>

definition update_entities :: "ConversationManager \<Rightarrow> (ustring \<times> pyval) list \<Rightarrow> ConversationManager \<times> py_error option" where
  "update_entities self new_entities =
     (case update_items new_entities (entities self) of
        (e, err) \<Rightarrow> (self\<lparr>entities := e\<rparr>, err))"

text \<open>\<^verbatim>\<open>ConversationManager.get_conversation_context\<close>: the last six messages.\<close>

definition get_conversation_context :: "ConversationManager \<Rightarrow> ustring" where
  "get_conversation_context self =
     concat (map (\<lambda>msg. role msg @ ustr '': '' @ content msg @ [0x0A])
                 (drop (length (message_history self) - 6) (message_history self)))"

text \<open>
  The dict \<^verbatim>\<open>extraction_info\<close> of \<^verbatim>\<open>extract_and_merge\<close>. The key \<^verbatim>\<open>"error"\<close> is there only
  after an exception was caught; the field holds the exception instead of its text.
\<close>

record extraction_info =
  message :: ustring
  extracted_entities :: "(ustring \<times> pyval) list"
  merged_successfully :: bool
  validation_errors :: "ustring list"
  entities_before :: pyval
  entities_after :: pyval
  error :: "py_error option"

text \<open>How a call ends: with an exception, or with the value it returns.\<close>

datatype 'a outcome = Raised py_error | Returned 'a

text \<open>
  \<^verbatim>\<open>EntityExtractor.extract_and_merge(conversation, user_message)\<close>. The extraction service
  \<^verbatim>\<open>self.llm_service.extract_entities\<close> is a parameter: a function of the message, the entities
  as a dict and the conversation context, which returns a dict or raises. The result is the
  outcome of the call, the list \<^verbatim>\<open>self.extraction_history\<close> and the conversation after the
  call. The first \<^verbatim>\<open>to_dict\<close> stands before the \<^verbatim>\<open>try\<close>, so its exception leaves the call;
  every exception after it is caught and answered with \<^verbatim>\<open>False\<close>.
\<close>

definition extract_and_merge ::
  "(ustring \<Rightarrow> pyval \<Rightarrow> ustring \<Rightarrow> py_error + (ustring \<times> pyval) list) \<Rightarrow> clock \<Rightarrow>
   extraction_info list \<Rightarrow> ConversationManager \<Rightarrow> ustring \<Rightarrow>
   (bool \<times> extraction_info) outcome \<times> extraction_info list \<times> ConversationManager"
where
  "extract_and_merge extract_entities clk extraction_history conversation user_message =
     (case to_dict (entities conversation) of
        Inl e \<Rightarrow> (Raised e, extraction_history, conversation)
      | Inr before \<Rightarrow>
      let info = \<lparr>message = user_message, extracted_entities = [], merged_successfully = False,
                  validation_errors = [], entities_before = before, entities_after = PNone,
                  error = None\<rparr>
      in case to_dict (entities conversation) of
           Inl e \<Rightarrow> (Returned (False, info\<lparr>error := Some e\<rparr>), extraction_history, conversation)
         | Inr current_entities_dict \<Rightarrow>
      let conversation_context = get_conversation_context conversation
      in case extract_entities user_message current_entities_dict conversation_context of
           Inl e \<Rightarrow> (Returned (False, info\<lparr>error := Some e\<rparr>), extraction_history, conversation)
         | Inr extracted \<Rightarrow>
      let info = info\<lparr>extracted_entities := extracted\<rparr>
      in if extracted = [] then (Returned (False, info), extraction_history, conversation)
         else
           let original_entities = entities conversation
           in case merge_entities clk original_entities extracted of
                Inl e \<Rightarrow> (Returned (False, info\<lparr>error := Some e\<rparr>), extraction_history, conversation)
              | Inr (merged_entities, errors) \<Rightarrow>
           let conversation = conversation\<lparr>entities := merged_entities\<rparr>
           in case to_dict merged_entities of
                Inl e \<Rightarrow> (Returned (False, info\<lparr>error := Some e\<rparr>), extraction_history, conversation)
              | Inr after \<Rightarrow>
           let info = info\<lparr>entities_after := after, validation_errors := errors,
                          merged_successfully := True\<rparr>
           in (Returned (True, info), extraction_history @ [info], conversation))"

text \<open>
  \<^verbatim>\<open>EntityExtractor.get_missing_fields_question(conversation)\<close>. The follow-up question
  generator \<^verbatim>\<open>self.llm_service.generate_missing_fields_question\<close> is a parameter.
  \<open>missing_fields_request\<close> is the triple of arguments the generator is called with, or
  \<open>None\<close> when no field is missing and the generator is not called.
\<close>

definition missing_fields_request ::
  "ConversationManager \<Rightarrow> py_error + (ustring list \<times> ustring \<times> pyval) option" where
  "missing_fields_request conversation =
     (case get_missing_fields (entities conversation) of
        Inl e \<Rightarrow> Inl e
      | Inr missing_fields \<Rightarrow>
          if missing_fields = [] then Inr None
          else let conversation_context = get_conversation_context conversation
               in case to_dict (entities conversation) of
                    Inl e \<Rightarrow> Inl e
                  | Inr current_entities \<Rightarrow>
                      Inr (Some (missing_fields, conversation_context, current_entities)))"

definition get_missing_fields_question ::
  "(ustring list \<Rightarrow> ustring \<Rightarrow> pyval \<Rightarrow> ustring) \<Rightarrow> ConversationManager \<Rightarrow> py_error + ustring" where
  "get_missing_fields_question generate_missing_fields_question conversation =
     (case missing_fields_request conversation of
        Inl e \<Rightarrow> Inl e
      | Inr None \<Rightarrow> Inr []
      | Inr (Some (missing_fields, conversation_context, current_entities)) \<Rightarrow>
          Inr (generate_missing_fields_question missing_fields conversation_context current_entities))"

text \<open>
  The priority the prompt of the question generator names
  (\<^verbatim>\<open>PromptTemplates.missing_fields_prompt\<close>, "Priority Order for Missing Fields": appointment
  type, patient name, appointment date, insurance policy number, phone number), in the labels
  of \<^verbatim>\<open>get_missing_fields\<close>; and the order in which \<^verbatim>\<open>get_missing_fields\<close> tests the fields.
\<close>

definition priority_order :: "ustring list" where
  "priority_order =
     [label_booking_type, label_patient_info, label_available_time, label_policy_number,
      label_phone_number]"

definition test_order :: "ustring list" where
  "test_order =
     [label_booking_type, label_patient_info, label_policy_number, label_available_time,
      label_phone_number]"

text \<open>\<open>in_order xs ys\<close>: the entries of \<open>xs\<close> occur in \<open>ys\<close>, in the order they have in \<open>ys\<close>.\<close>

fun in_order :: "'a list \<Rightarrow> 'a list \<Rightarrow> bool" where
  "in_order [] ys = True"
| "in_order (x # xs) [] = False"
| "in_order (x # xs) (y # ys) = (if x = y then in_order xs ys else in_order (x # xs) ys)"

section \<open>The merger on a store of objects\<close>

text \<open>
  \<^verbatim>\<open>merge_entities\<close> works on objects: \<^verbatim>\<open>current_entities.copy(deep=True)\<close> makes new
  objects, and the assignments of the loop change the object \<^verbatim>\<open>merged\<close> and its sub-objects in
  place. To say what happens to the object the caller handed in, the objects are put in a
  store: one list for each class, an object being addressed by its position, and a new object
  being put at the end. A \<^verbatim>\<open>BookingEntities\<close> object holds the addresses of its sub-objects.
  Strings, numbers and dicts are immutable values here (the merger assigns them and never
  changes them), so they are stored in the fields as they are. Every address in use lies
  within its list: Python has no dangling reference.
\<close>

record store =
  PatientInfo_objects :: "PatientInfo list"
  PreferredTime_objects :: "PreferredTime list"
  BookingEntities_objects :: "(nat, nat) Booking list"

text \<open>The entities an address stands for: the object with its sub-objects read from the store.\<close>

fun read_attr :: "'a list \<Rightarrow> nat attr \<Rightarrow> 'a attr" where
  "read_attr objs (Obj a) = Obj (objs ! a)"
| "read_attr objs (Val v) = Val v"

definition read_entities :: "store \<Rightarrow> nat \<Rightarrow> BookingEntities" where
  "read_entities st r =
     \<lparr>booking_type = booking_type (BookingEntities_objects st ! r),
      patient_info = read_attr (PatientInfo_objects st) (patient_info (BookingEntities_objects st ! r)),
      policy_number = policy_number (BookingEntities_objects st ! r),
      available_time = read_attr (PreferredTime_objects st) (available_time (BookingEntities_objects st ! r)),
      phone_number = phone_number (BookingEntities_objects st ! r)\<rparr>"

text \<open>
  \<^verbatim>\<open>copy(deep=True)\<close>: a new \<^verbatim>\<open>BookingEntities\<close> object whose sub-objects are new copies of
  the sub-objects of the original.
\<close>

fun copy_attr :: "'a list \<Rightarrow> nat attr \<Rightarrow> 'a list \<times> nat attr" where
  "copy_attr objs (Obj a) = (objs @ [objs ! a], Obj (length objs))"
| "copy_attr objs (Val v) = (objs, Val v)"

definition copy_deep :: "store \<Rightarrow> nat \<Rightarrow> store \<times> nat" where
  "copy_deep st r =
     (let b = BookingEntities_objects st ! r
      in case copy_attr (PatientInfo_objects st) (patient_info b) of (ps, pa) \<Rightarrow>
         case copy_attr (PreferredTime_objects st) (available_time b) of (ts, ta) \<Rightarrow>
           (\<lparr>PatientInfo_objects = ps, PreferredTime_objects = ts,
             BookingEntities_objects =
               BookingEntities_objects st @ [b\<lparr>patient_info := pa, available_time := ta\<rparr>]\<rparr>,
            length (BookingEntities_objects st)))"

text \<open>
  \<^verbatim>\<open>for k, v in d.items(): if v: setattr(target, k, v)\<close> on the store: the object at the
  address \<^verbatim>\<open>target\<close> holds is changed in place. \<open>objs\<close> is the list of the objects of the class
  of the target. The result is the list after the loop, and the exception if one ended it.
\<close>

fun setattr_items_store ::
  "('a \<Rightarrow> ustring \<Rightarrow> pyval \<Rightarrow> py_error + 'a) \<Rightarrow> nat attr \<Rightarrow> (ustring \<times> pyval) list \<Rightarrow> 'a list \<Rightarrow> 'a list \<times> py_error option"
where
  "setattr_items_store setter target [] objs = (objs, None)"
| "setattr_items_store setter target ((k, v) # rest) objs =
     (if truthy v
      then case target of
             Obj a \<Rightarrow>
               (case setter (objs ! a) k v of
                  Inl e \<Rightarrow> (objs, Some e)
                | Inr p' \<Rightarrow> setattr_items_store setter target rest (objs[a := p']))
           | Val w \<Rightarrow> (objs, Some AttributeError)
      else setattr_items_store setter target rest objs)"

text \<open>
  \<^verbatim>\<open>if not merged.patient_info: merged.patient_info = PatientInfo()\<close> on the store: a new
  object is made and its address assigned to the field of \<^verbatim>\<open>merged\<close>.
\<close>

definition ensure_store :: "'a \<Rightarrow> 'a list \<Rightarrow> nat attr \<Rightarrow> 'a list \<times> nat attr" where
  "ensure_store fresh objs a =
     (if \<not> attr_truthy a then (objs @ [fresh], Obj (length objs)) else (objs, a))"

text \<open>
  One round of the loop of \<^verbatim>\<open>merge_entities\<close> on the store; \<open>merged\<close> is the address of the
  object \<^verbatim>\<open>merged\<close>. The result is the store and \<^verbatim>\<open>all_errors\<close> after the round, and the
  exception if the round raised one.
\<close>

definition merge_item_store ::
  "clock \<Rightarrow> ustring \<times> pyval \<Rightarrow> nat \<Rightarrow> store \<times> ustring list \<Rightarrow> (store \<times> ustring list) \<times> py_error option"
where
  "merge_item_store clk item merged st_errors =
     (case item of (key, value) \<Rightarrow> case st_errors of (st, all_errors) \<Rightarrow>
      let b = BookingEntities_objects st ! merged in
      if \<not> truthy value then ((st, all_errors), None)
      else if key = ustr ''booking_type'' then
        (case validate_appointment_type value get_clinic_appointment_types of
           Inl e \<Rightarrow> ((st, all_errors), Some e)
         | Inr (is_valid, result) \<Rightarrow>
             if is_valid
             then ((st\<lparr>BookingEntities_objects :=
                        (BookingEntities_objects st)[merged := b\<lparr>booking_type := PStr result\<rparr>]\<rparr>,
                    all_errors), None)
             else ((st, all_errors @ [ustr ''booking_type: '' @ result]), None))
      else if key = ustr ''phone_number'' then
        (case validate_phone_number (py_str value) of
           (is_valid, result) \<Rightarrow>
             if is_valid
             then ((st\<lparr>BookingEntities_objects :=
                        (BookingEntities_objects st)[merged := b\<lparr>phone_number := PStr result\<rparr>]\<rparr>,
                    all_errors), None)
             else ((st, all_errors @ [ustr ''phone_number: '' @ result]), None))
      else if key = ustr ''policy_number'' then
        (case validate_policy_number (py_str value) of
           (is_valid, result) \<Rightarrow>
             if is_valid
             then ((st\<lparr>BookingEntities_objects :=
                        (BookingEntities_objects st)[merged := b\<lparr>policy_number := PStr result\<rparr>]\<rparr>,
                    all_errors), None)
             else ((st, all_errors @ [ustr ''policy_number: '' @ result]), None))
      else if key = ustr ''patient_info'' \<and> is_dict value then
        (case ensure_store new_PatientInfo (PatientInfo_objects st) (patient_info b) of
           (ps, target) \<Rightarrow>
         let st = st\<lparr>PatientInfo_objects := ps,
                     BookingEntities_objects :=
                       (BookingEntities_objects st)[merged := b\<lparr>patient_info := target\<rparr>]\<rparr>;
             patient_copy = (case value of PDict d \<Rightarrow> d | _ \<Rightarrow> [])
         in case validate_patient_info patient_copy of
              Inl e \<Rightarrow> ((st, all_errors), Some e)
            | Inr (is_valid, errors, patient_copy) \<Rightarrow>
                if \<not> is_valid
                then ((st, all_errors @ map (\<lambda>error. ustr ''patient_info: '' @ error) errors), None)
                else (case setattr_items_store setattr_PatientInfo target patient_copy
                             (PatientInfo_objects st) of
                        (ps', err) \<Rightarrow> ((st\<lparr>PatientInfo_objects := ps'\<rparr>, all_errors), err)))
      else if key = ustr ''available_time'' \<and> is_dict value then
        (case ensure_store new_PreferredTime (PreferredTime_objects st) (available_time b) of
           (ts, target) \<Rightarrow>
         let st = st\<lparr>PreferredTime_objects := ts,
                     BookingEntities_objects :=
                       (BookingEntities_objects st)[merged := b\<lparr>available_time := target\<rparr>]\<rparr>;
             time_copy = (case value of PDict d \<Rightarrow> d | _ \<Rightarrow> [])
         in case validate_preferred_time clk time_copy of
              Inl e \<Rightarrow> ((st, all_errors), Some e)
            | Inr (is_valid, errors, time_copy) \<Rightarrow>
                if \<not> is_valid
                then ((st, all_errors @ map (\<lambda>error. ustr ''available_time: '' @ error) errors), None)
                else (case setattr_items_store setattr_PreferredTime target time_copy
                             (PreferredTime_objects st) of
                        (ts', err) \<Rightarrow> ((st\<lparr>PreferredTime_objects := ts'\<rparr>, all_errors), err)))
      else ((st, all_errors), None))"

fun merge_items_store ::
  "clock \<Rightarrow> (ustring \<times> pyval) list \<Rightarrow> nat \<Rightarrow> store \<times> ustring list \<Rightarrow> (store \<times> ustring list) \<times> py_error option"
where
  "merge_items_store clk [] merged st_errors = (st_errors, None)"
| "merge_items_store clk (item # rest) merged st_errors =
     (case merge_item_store clk item merged st_errors of
        (st_errors', Some e) \<Rightarrow> (st_errors', Some e)
      | (st_errors', None) \<Rightarrow> merge_items_store clk rest merged st_errors')"

text \<open>
  \<^verbatim>\<open>merge_entities(current_entities, new_entities)\<close> on the store, \<open>current_entities\<close> being
  the address of the object handed in: the store after the call, and either the exception
  that ended it or the address of \<^verbatim>\<open>merged\<close> with the list \<^verbatim>\<open>all_errors\<close>.
\<close>

definition merge_entities_store ::
  "clock \<Rightarrow> store \<Rightarrow> nat \<Rightarrow> (ustring \<times> pyval) list \<Rightarrow> store \<times> (nat \<times> ustring list) outcome" where
  "merge_entities_store clk st current_entities new_entities =
     (case copy_deep st current_entities of
        (st, merged) \<Rightarrow>
          (case merge_items_store clk new_entities merged (st, []) of
             ((st', all_errors), Some e) \<Rightarrow> (st', Raised e)
           | ((st', all_errors), None) \<Rightarrow> (st', Returned (merged, all_errors))))"

text \<open>
  The store is well formed at an address of a \<^verbatim>\<open>BookingEntities\<close> object when the address and
  the addresses of the sub-objects lie within their lists.
\<close>

fun attr_in_store :: "'a list \<Rightarrow> nat attr \<Rightarrow> bool" where
  "attr_in_store objs (Obj a) = (a < length objs)"
| "attr_in_store objs (Val v) = True"

definition entities_in_store :: "store \<Rightarrow> nat \<Rightarrow> bool" where
  "entities_in_store st r \<longleftrightarrow>
     r < length (BookingEntities_objects st)
     \<and> attr_in_store (PatientInfo_objects st) (patient_info (BookingEntities_objects st ! r))
     \<and> attr_in_store (PreferredTime_objects st) (available_time (BookingEntities_objects st ! r))"

section \<open>Notions used to state and prove the results on the merger\<close>

text \<open>
  A fixed clock for the concrete examples: every relative date is answered with the same
  text.
\<close>

definition example_clock :: clock where
  "example_clock = \<lparr>strftime_plus_days = (\<lambda>n. ustr ''2024-01-15''), today_year = 2024\<rparr>"

text \<open>
  The clock as it reads on day \<open>d\<close> of January 2024, where \<open>d\<close> is at most 24 so that every
  date the validators ask for (up to seven days ahead) lies in the same month.
\<close>

definition january_2024 :: "nat \<Rightarrow> clock" where
  "january_2024 d =
     \<lparr>strftime_plus_days = (\<lambda>n. ustr ''2024-01-'' @ fmt_02d (int (d + n))), today_year = 2024\<rparr>"

text \<open>
  \<open>between n m x\<close>: every component of the state \<open>n\<close> is the component of \<open>m\<close> or the
  component of \<open>x\<close>. For a sub-object the components are its fields, where a field that holds
  no object counts as a fresh object.
\<close>

definition between_PatientInfo :: "PatientInfo \<Rightarrow> PatientInfo \<Rightarrow> PatientInfo \<Rightarrow> bool" where
  "between_PatientInfo q p x \<longleftrightarrow>
     (name q = name p \<or> name q = name x) \<and> (age q = age p \<or> age q = age x)
     \<and> (gender q = gender p \<or> gender q = gender x)"

definition between_PreferredTime :: "PreferredTime \<Rightarrow> PreferredTime \<Rightarrow> PreferredTime \<Rightarrow> bool" where
  "between_PreferredTime q p x \<longleftrightarrow>
     (date q = date p \<or> date q = date x) \<and> (time_slot q = time_slot p \<or> time_slot q = time_slot x)"

fun fields_of :: "'a \<Rightarrow> 'a attr \<Rightarrow> 'a" where
  "fields_of fresh (Obj p) = p"
| "fields_of fresh (Val w) = fresh"

definition between_attr :: "('a \<Rightarrow> 'a \<Rightarrow> 'a \<Rightarrow> bool) \<Rightarrow> 'a \<Rightarrow> 'a attr \<Rightarrow> 'a attr \<Rightarrow> 'a attr \<Rightarrow> bool" where
  "between_attr betw fresh sn s x \<longleftrightarrow>
     sn = s \<or> (\<exists>q px. sn = Obj q \<and> x = Obj px \<and> betw q (fields_of fresh s) px)"

definition between :: "BookingEntities \<Rightarrow> BookingEntities \<Rightarrow> BookingEntities \<Rightarrow> bool" where
  "between n m x \<longleftrightarrow>
     (booking_type n = booking_type m \<or> booking_type n = booking_type x)
     \<and> (policy_number n = policy_number m \<or> policy_number n = policy_number x)
     \<and> (phone_number n = phone_number m \<or> phone_number n = phone_number x)
     \<and> between_attr between_PatientInfo new_PatientInfo (patient_info n) (patient_info m) (patient_info x)
     \<and> between_attr between_PreferredTime new_PreferredTime (available_time n) (available_time m)
           (available_time x)"

text \<open>\<^verbatim>\<open>if not merged.patient_info: merged.patient_info = PatientInfo()\<close>, on the field.\<close>

definition ensure_attr :: "'a \<Rightarrow> 'a attr \<Rightarrow> 'a attr" where
  "ensure_attr fresh s = (if \<not> attr_truthy s then Obj fresh else s)"

text \<open>A conversation as \<^verbatim>\<open>ConversationManager()\<close> creates it, with a fixed identifier and time.\<close>

definition example_conversation :: ConversationManager where
  "example_conversation =
     \<lparr>conversation_id = ustr ''conv_1700000000'', state = GREETING, entities = new_BookingEntities,
      message_history = [], available_slots = [], selected_slot = None, turn_count = 0,
      created_at = 0\<rparr>"

text \<open>
  What a sub-object holds under a field after the loop
  \<^verbatim>\<open>for k, v in d.items(): if v: setattr(target, k, v)\<close>: the value of the dict if it is
  true, else what it held before.
\<close>

definition picked :: "(ustring \<times> pyval) list \<Rightarrow> ustring \<Rightarrow> pyval \<Rightarrow> pyval" where
  "picked d field old = (if truthy (dict_get d field) then dict_get d field else old)"


text \<open>
  The dicts of an incoming map are well formed when their keys are distinct, as the keys of
  a Python dict are.
\<close>

definition dicts_well_formed :: "(ustring \<times> pyval) list \<Rightarrow> bool" where
  "dicts_well_formed M =
     list_all (\<lambda>item. case snd item of PDict d \<Rightarrow> distinct (map fst d) | _ \<Rightarrow> True) M"

text \<open>
  The invariant of the stored entities: each field is absent or holds a value that passed its
  validator. For the appointment type, the policy number, the name and the age this is: the
  validator accepts the stored value (and returns the policy number as it is). The gender is
  one of the three canonical values. The date and time-slot normalizers reject no text except
  the empty one, so a stored date or time slot is a text that is not empty. A stored telephone
  number is a text that \<^verbatim>\<open>validate_phone_number\<close> returns when it accepts: eight digits, the
  first one from 2 to 9.
\<close>

definition booking_type_ok :: "pyval \<Rightarrow> bool" where
  "booking_type_ok v \<longleftrightarrow>
     v = PNone \<or> (case validate_appointment_type v get_clinic_appointment_types of
                    Inr (is_valid, result) \<Rightarrow> is_valid | Inl e \<Rightarrow> False)"

definition accepted_phone_text :: "ustring \<Rightarrow> bool" where
  "accepted_phone_text s \<longleftrightarrow>
     length s = 8 \<and> 0x32 \<le> hd s \<and> hd s \<le> 0x39 \<and> list_all is_decimal (tl s)"

fun phone_number_ok :: "pyval \<Rightarrow> bool" where
  "phone_number_ok PNone = True"
| "phone_number_ok (PStr s) = accepted_phone_text s"
| "phone_number_ok v = False"

fun policy_number_ok :: "pyval \<Rightarrow> bool" where
  "policy_number_ok PNone = True"
| "policy_number_ok (PStr s) = (validate_policy_number s = (True, s))"
| "policy_number_ok v = False"

definition name_ok :: "pyval \<Rightarrow> bool" where
  "name_ok v \<longleftrightarrow> v = PNone \<or> is_valid_chinese_name v = Inr True"

definition age_ok :: "pyval \<Rightarrow> bool" where
  "age_ok v \<longleftrightarrow>
     v = PNone \<or> (case py_int v of Inr n \<Rightarrow> fst (validate_age_range n) | Inl e \<Rightarrow> False)"

definition gender_ok :: "pyval \<Rightarrow> bool" where
  "gender_ok v \<longleftrightarrow> v = PNone \<or> v \<in> PStr ` set valid_genders"

fun text_ok :: "pyval \<Rightarrow> bool" where
  "text_ok PNone = True"
| "text_ok (PStr s) = (s \<noteq> [])"
| "text_ok v = False"

fun patient_info_ok :: "PatientInfo attr \<Rightarrow> bool" where
  "patient_info_ok (Obj p) = (name_ok (name p) \<and> age_ok (age p) \<and> gender_ok (gender p))"
| "patient_info_ok (Val w) = (\<not> truthy w)"

fun available_time_ok :: "PreferredTime attr \<Rightarrow> bool" where
  "available_time_ok (Obj t) = (text_ok (date t) \<and> text_ok (time_slot t))"
| "available_time_ok (Val w) = (\<not> truthy w)"

definition entities_valid :: "BookingEntities \<Rightarrow> bool" where
  "entities_valid e \<longleftrightarrow>
     booking_type_ok (booking_type e) \<and> patient_info_ok (patient_info e)
     \<and> policy_number_ok (policy_number e) \<and> available_time_ok (available_time e)
     \<and> phone_number_ok (phone_number e)"

text \<open>
  \<open>store_extends st0 st\<close>: every object of the store \<open>st0\<close> is in the store \<open>st\<close> at its
  address, with the same content in every field; \<open>st\<close> may hold more objects.
\<close>

definition store_extends :: "store \<Rightarrow> store \<Rightarrow> bool" where
  "store_extends st0 st \<longleftrightarrow>
     take (length (PatientInfo_objects st0)) (PatientInfo_objects st) = PatientInfo_objects st0
     \<and> take (length (PreferredTime_objects st0)) (PreferredTime_objects st) = PreferredTime_objects st0
     \<and> take (length (BookingEntities_objects st0)) (BookingEntities_objects st)
         = BookingEntities_objects st0"

text \<open>
  \<open>separated st0 st m\<close>: the store \<open>st\<close> extends the store \<open>st0\<close>, and the object at the address
  \<open>m\<close> and its sub-objects are objects of \<open>st\<close> that \<open>st0\<close> does not have.
\<close>

fun fresh_attr :: "nat \<Rightarrow> 'a list \<Rightarrow> nat attr \<Rightarrow> bool" where
  "fresh_attr n objs (Obj a) = (n \<le> a \<and> a < length objs)"
| "fresh_attr n objs (Val v) = True"

definition separated :: "store \<Rightarrow> store \<Rightarrow> nat \<Rightarrow> bool" where
  "separated st0 st m \<longleftrightarrow>
     store_extends st0 st
     \<and> length (BookingEntities_objects st0) \<le> m \<and> m < length (BookingEntities_objects st)
     \<and> fresh_attr (length (PatientInfo_objects st0)) (PatientInfo_objects st)
          (patient_info (BookingEntities_objects st ! m))
     \<and> fresh_attr (length (PreferredTime_objects st0)) (PreferredTime_objects st)
          (available_time (BookingEntities_objects st ! m))"

text \<open>
  A store for the concrete examples: one \<^verbatim>\<open>BookingEntities\<close> object at address 0 whose patient
  is named Alice, and the store after an incoming name and telephone number have been merged.
\<close>

definition example_store :: store where
  "example_store =
     \<lparr>PatientInfo_objects = [\<lparr>name = PStr (ustr ''Alice''), age = PNone, gender = PNone\<rparr>],
      PreferredTime_objects = [new_PreferredTime],
      BookingEntities_objects =
        [\<lparr>booking_type = PNone, patient_info = Obj 0, policy_number = PNone,
          available_time = Obj 0, phone_number = PNone\<rparr>]\<rparr>"

definition example_store_after :: store where
  "example_store_after =
     \<lparr>PatientInfo_objects = [\<lparr>name = PStr (ustr ''Alice''), age = PNone, gender = PNone\<rparr>,
                              \<lparr>name = PStr (ustr ''Bob''), age = PNone, gender = PNone\<rparr>],
      PreferredTime_objects = [new_PreferredTime, new_PreferredTime],
      BookingEntities_objects =
        [\<lparr>booking_type = PNone, patient_info = Obj 0, policy_number = PNone,
          available_time = Obj 0, phone_number = PNone\<rparr>,
         \<lparr>booking_type = PNone, patient_info = Obj 1, policy_number = PNone,
          available_time = Obj 1, phone_number = PStr (ustr ''91234567'')\<rparr>]\<rparr>"

section \<open>Results on the availability engine\<close>

lemma slot_duration_eq: "slot_duration = us_per_hour"
  by (simp add: slot_duration_def SUGGESTION_DURATION_MINUTES_def us_per_hour_def)

lemma us_per_hour_pos: "0 < us_per_hour"
  by (simp add: us_per_hour_def us_per_minute_def us_per_second_def)

lemma busy_overlap_iff:
  "busy_overlap busy s \<longleftrightarrow> (\<exists>(bs, be) \<in> set busy. bs < s + slot_duration \<and> s < be)"
  by (induction busy s rule: busy_overlap.induct) auto

lemma cursor_positions_stop:
  assumes "\<not> current + slot_duration \<le> time_max"
  shows "cursor_positions current time_max = []"
proof -
  have "time_max - current < slot_duration" using assms by simp
  then have "time_max - current \<le> slot_duration - 1" by simp
  then have "(time_max - current) div slot_duration \<le> (slot_duration - 1) div slot_duration"
    using us_per_hour_pos slot_duration_eq by (intro zdiv_mono1) simp_all
  moreover have "(slot_duration - 1) div slot_duration = 0"
    using us_per_hour_pos slot_duration_eq by (intro div_pos_pos_trivial) simp_all
  ultimately have "(time_max - current) div slot_duration \<le> 0" by simp
  then show ?thesis by (simp add: cursor_positions_def)
qed

lemma cursor_positions_step:
  assumes "current + slot_duration \<le> time_max"
  shows "cursor_positions current time_max = current # cursor_positions (current + slot_duration) time_max"
proof -
  have pos: "0 < slot_duration" by (simp add: slot_duration_eq us_per_hour_pos)
  let ?n = "nat ((time_max - current) div slot_duration)"
  have d: "(time_max - (current + slot_duration)) div slot_duration = (time_max - current) div slot_duration - 1"
  proof -
    have "(time_max - (current + slot_duration) + slot_duration) div slot_duration
            = (time_max - (current + slot_duration)) div slot_duration + 1"
      using pos by (intro div_add_self2) simp
    moreover have "time_max - (current + slot_duration) + slot_duration = time_max - current"
      by simp
    ultimately show ?thesis by simp
  qed
  have "slot_duration div slot_duration \<le> (time_max - current) div slot_duration"
    using assms pos by (intro zdiv_mono1) simp_all
  then have ge: "1 \<le> (time_max - current) div slot_duration"
    using pos by simp
  then have n: "?n = Suc (nat ((time_max - (current + slot_duration)) div slot_duration))"
    using d by simp
  show ?thesis
    unfolding cursor_positions_def n
    by (simp add: upt_rec[of 0] map_Suc_upt[symmetric] del: upt_Suc) (simp add: algebra_simps)
qed

lemma suggest_loop_closed:
  "suggest_loop busy time_max current acc =
     acc @ filter (slot_accepted busy) (cursor_positions current time_max)"
proof (induction busy time_max current acc rule: suggest_loop.induct)
  case (1 busy time_max current acc)
  show ?case
  proof (cases "current + slot_duration \<le> time_max")
    case False
    then have "suggest_loop busy time_max current acc = acc"
      by (subst suggest_loop.simps) simp
    then show ?thesis using cursor_positions_stop[OF False] by simp
  next
    case True
    have "suggest_loop busy time_max current acc =
        suggest_loop busy time_max (current + slot_duration)
             (if BUSINESS_HOURS_START \<le> hour_of current \<and> hour_of current < BUSINESS_HOURS_END
              then (if \<not> busy_overlap busy current then acc @ [current]
                    else acc)
              else acc)"
      using True by (subst suggest_loop.simps) simp
    then show ?thesis
      by (simp only: "1.IH"[OF True] cursor_positions_step[OF True]) (simp add: slot_accepted_def)
  qed
qed

lemma suggest_meeting_times_closed:
  "suggest_meeting_times busy time_min time_max =
     filter (slot_accepted busy) (cursor_positions (round_to_next_hour time_min) time_max)"
  by (simp only: suggest_meeting_times_def suggest_loop_closed append_Nil)

lemma le_div_pos_iff:
  fixes a x d :: int
  assumes pos: "0 < d"
  shows "a \<le> x div d \<longleftrightarrow> a * d \<le> x"
proof
  assume "a \<le> x div d"
  then have "a * d \<le> (x div d) * d"
    using pos by (intro mult_right_mono) simp_all
  also have "\<dots> \<le> x"
  proof -
    have "x = (x div d) * d + x mod d" by simp
    moreover have "0 \<le> x mod d" using pos by simp
    ultimately show ?thesis by linarith
  qed
  finally show "a * d \<le> x" .
next
  assume "a * d \<le> x"
  then have "(a * d) div d \<le> x div d"
    using pos by (intro zdiv_mono1) simp_all
  then show "a \<le> x div d" using pos by simp
qed

lemma le_div_slot_iff:
  "a \<le> x div slot_duration \<longleftrightarrow> a * slot_duration \<le> x"
  by (rule le_div_pos_iff) (simp add: slot_duration_eq us_per_hour_pos)

lemma set_cursor_positions:
  "s \<in> set (cursor_positions current time_max) \<longleftrightarrow>
     (\<exists>k::nat. s = current + int k * slot_duration \<and> s + slot_duration \<le> time_max)"
proof -
  have "k < nat ((time_max - current) div slot_duration) \<longleftrightarrow>
          current + int k * slot_duration + slot_duration \<le> time_max" for k :: nat
  proof -
    have "k < nat ((time_max - current) div slot_duration) \<longleftrightarrow>
            int k + 1 \<le> (time_max - current) div slot_duration" by auto
    also have "\<dots> \<longleftrightarrow> (int k + 1) * slot_duration \<le> time_max - current"
      by (rule le_div_slot_iff)
    also have "\<dots> \<longleftrightarrow> current + int k * slot_duration + slot_duration \<le> time_max"
      by (simp add: algebra_simps)
    finally show ?thesis .
  qed
  note bound = this
  have "s \<in> set (cursor_positions current time_max) \<longleftrightarrow>
          (\<exists>k. k < nat ((time_max - current) div slot_duration) \<and> s = current + int k * slot_duration)"
    unfolding cursor_positions_def set_map set_upt image_iff by (simp add: Bex_def conj_commute)
  also have "\<dots> \<longleftrightarrow> (\<exists>k::nat. s = current + int k * slot_duration \<and> s + slot_duration \<le> time_max)"
    unfolding bound by blast
  finally show ?thesis .
qed

lemma sorted_cursor_positions: "sorted_wrt (<) (cursor_positions current time_max)"
proof -
  have pos: "0 < slot_duration" by (simp add: slot_duration_eq us_per_hour_pos)
  have "sorted_wrt (<) (map (\<lambda>k. current + int k * slot_duration) [0..<n])" for n
    using pos by (simp add: sorted_wrt_map sorted_wrt_iff_nth_less)
  then show ?thesis by (simp add: cursor_positions_def)
qed

text \<open>
  Claim C4 (half-open overlap). Let \<open>s\<close> be a candidate slot of the uniform-slot mode: a cursor
  position (the rounded \<open>time_min\<close> plus a multiple of the slot duration) that fits before
  \<open>time_max\<close> and whose start hour lies in the business hours. Then \<open>s\<close> is left out of the
  result if and only if some busy interval \<open>[bs, be)\<close> satisfies \<open>bs < s + d\<close> and \<open>s < be\<close>,
  both strict. In particular busy intervals that only abut the slot (\<open>be \<le> s\<close>, or
  \<open>s + d \<le> bs\<close>) do not exclude it.
\<close>

theorem slot_excluded_iff_overlap:
  assumes "s = round_to_next_hour time_min + int k * slot_duration"
    and "s + slot_duration \<le> time_max"
    and "BUSINESS_HOURS_START \<le> hour_of s" and "hour_of s < BUSINESS_HOURS_END"
  shows "(s \<notin> set (suggest_meeting_times busy time_min time_max) \<longleftrightarrow>
            (\<exists>(bs, be) \<in> set busy. bs < s + slot_duration \<and> s < be))
         \<and> ((\<forall>(bs, be) \<in> set busy. be \<le> s \<or> s + slot_duration \<le> bs) \<longrightarrow>
              s \<in> set (suggest_meeting_times busy time_min time_max))"
proof -
  have cand: "s \<in> set (cursor_positions (round_to_next_hour time_min) time_max)"
    unfolding set_cursor_positions using assms(1,2) by blast
  have mem: "s \<in> set (suggest_meeting_times busy time_min time_max) \<longleftrightarrow> \<not> busy_overlap busy s"
    using cand assms(3,4) by (simp add: suggest_meeting_times_closed slot_accepted_def)
  have "(\<forall>(bs, be) \<in> set busy. be \<le> s \<or> s + slot_duration \<le> bs) \<Longrightarrow> \<not> busy_overlap busy s"
    unfolding busy_overlap_iff case_prod_beta Bex_def Ball_def by (meson not_less)
  then show ?thesis
    unfolding mem busy_overlap_iff by blast
qed


theorem slot_excluded_iff_overlap_witness:
  "9 * us_per_hour \<in> set (suggest_meeting_times [(8 * us_per_hour, 9 * us_per_hour)]
       (9 * us_per_hour) (18 * us_per_hour))
   \<and> 10 * us_per_hour \<notin> set (suggest_meeting_times [(10 * us_per_hour + 1, 10 * us_per_hour + 2)]
       (9 * us_per_hour) (18 * us_per_hour))"
proof -
  have a: "9 * us_per_hour \<in> set (suggest_meeting_times [(8 * us_per_hour, 9 * us_per_hour)]
       (9 * us_per_hour) (18 * us_per_hour))"
    using slot_excluded_iff_overlap [of "9 * us_per_hour" "9 * us_per_hour" 0 "18 * us_per_hour"
        "[(8 * us_per_hour, 9 * us_per_hour)]"]
    by (simp add: round_to_next_hour_def minute_of_def second_of_def microsecond_of_def
        hour_of_def slot_duration_def SUGGESTION_DURATION_MINUTES_def BUSINESS_HOURS_START_def
        BUSINESS_HOURS_END_def us_per_hour_def us_per_minute_def us_per_second_def)
  have b: "10 * us_per_hour \<notin> set (suggest_meeting_times [(10 * us_per_hour + 1, 10 * us_per_hour + 2)]
       (9 * us_per_hour) (18 * us_per_hour))"
    using slot_excluded_iff_overlap [of "10 * us_per_hour" "9 * us_per_hour" 1 "18 * us_per_hour"
        "[(10 * us_per_hour + 1, 10 * us_per_hour + 2)]"]
    by (simp add: round_to_next_hour_def minute_of_def second_of_def microsecond_of_def
        hour_of_def slot_duration_def SUGGESTION_DURATION_MINUTES_def BUSINESS_HOURS_START_def
        BUSINESS_HOURS_END_def us_per_hour_def us_per_minute_def us_per_second_def)
  from a b show ?thesis by (rule conjI)
qed

lemma mod_hour_split:
  "t mod us_per_hour = minute_of t * us_per_minute + second_of t * us_per_second + microsecond_of t"
proof -
  have "t mod us_per_hour = us_per_minute * (t div us_per_minute mod 60) + t mod us_per_minute"
    unfolding us_per_hour_def by (subst mult.commute) (rule zmod_zmult2_eq, simp)
  also have "t mod us_per_minute = us_per_second * (t div us_per_second mod 60) + t mod us_per_second"
    unfolding us_per_minute_def by (subst mult.commute) (rule zmod_zmult2_eq, simp)
  finally show ?thesis
    by (simp add: minute_of_def second_of_def microsecond_of_def mult.commute)
qed

lemma replace_eq: "replace_minute_second_microsecond_0 t = t - t mod us_per_hour"
  by (simp only: replace_minute_second_microsecond_0_def mod_hour_split)

lemma sub_hour_iff:
  "(minute_of t > 0 \<or> second_of t > 0 \<or> microsecond_of t > 0) \<longleftrightarrow> t mod us_per_hour \<noteq> 0"
proof -
  have m: "0 \<le> minute_of t" "0 \<le> second_of t" "0 \<le> microsecond_of t"
    by (simp_all add: minute_of_def second_of_def microsecond_of_def us_per_second_def)
  have p: "0 < us_per_minute" "0 < us_per_second"
    by (simp_all add: us_per_minute_def us_per_second_def)
  have n: "0 \<le> minute_of t * us_per_minute" "0 \<le> second_of t * us_per_second"
    using m p by simp_all
  show ?thesis
  proof
    assume "minute_of t > 0 \<or> second_of t > 0 \<or> microsecond_of t > 0"
    then consider "minute_of t * us_per_minute > 0" | "second_of t * us_per_second > 0"
      | "microsecond_of t > 0"
      using p by auto
    then have "minute_of t * us_per_minute + second_of t * us_per_second + microsecond_of t > 0"
      using n m by cases linarith+
    then show "t mod us_per_hour \<noteq> 0" unfolding mod_hour_split by simp
  next
    assume "t mod us_per_hour \<noteq> 0"
    then have "minute_of t * us_per_minute + second_of t * us_per_second + microsecond_of t \<noteq> 0"
      unfolding mod_hour_split .
    then have "minute_of t * us_per_minute \<noteq> 0 \<or> second_of t * us_per_second \<noteq> 0
        \<or> microsecond_of t \<noteq> 0"
      by linarith
    then have "minute_of t \<noteq> 0 \<or> second_of t \<noteq> 0 \<or> microsecond_of t \<noteq> 0"
      by auto
    then show "minute_of t > 0 \<or> second_of t > 0 \<or> microsecond_of t > 0"
      using m by linarith
  qed
qed

lemma round_to_next_hour_eq:
  "round_to_next_hour t = (if t mod us_per_hour \<noteq> 0 then t + us_per_hour - t mod us_per_hour else t)"
  by (simp only: round_to_next_hour_def sub_hour_iff replace_eq) simp

lemma round_to_next_hour_bounds:
  "us_per_hour dvd round_to_next_hour t \<and> t \<le> round_to_next_hour t
     \<and> round_to_next_hour t < t + us_per_hour"
proof (cases "t mod us_per_hour = 0")
  case True
  then show ?thesis
    using us_per_hour_pos by (simp add: round_to_next_hour_eq mod_eq_0_iff_dvd)
next
  case False
  have b: "0 \<le> t mod us_per_hour" "t mod us_per_hour < us_per_hour"
    using us_per_hour_pos by simp_all
  have "us_per_hour dvd (t - t mod us_per_hour) + us_per_hour"
    by (intro dvd_add dvd_minus_mod dvd_refl)
  moreover have "(t - t mod us_per_hour) + us_per_hour = t + us_per_hour - t mod us_per_hour"
    by linarith
  ultimately have "us_per_hour dvd t + us_per_hour - t mod us_per_hour" by (simp only:)
  moreover have "t \<le> t + us_per_hour - t mod us_per_hour" using b by linarith
  moreover have "t + us_per_hour - t mod us_per_hour < t + us_per_hour" using b False by linarith
  ultimately show ?thesis using False by (simp only: round_to_next_hour_eq if_True simp_thms)
qed

lemma round_to_next_hour_idem: "round_to_next_hour (round_to_next_hour t) = round_to_next_hour t"
  using round_to_next_hour_bounds[of t] by (subst round_to_next_hour_eq) (simp add: mod_eq_0_iff_dvd)

lemma hour_of_day_hour:
  assumes "0 \<le> h" "h < 24"
  shows "hour_of (day * us_per_day + h * us_per_hour) = h"
proof -
  have "day * us_per_day + h * us_per_hour = (day * 24 + h) * us_per_hour"
    by (simp add: us_per_day_def algebra_simps)
  then have "(day * us_per_day + h * us_per_hour) div us_per_hour = day * 24 + h"
    using us_per_hour_pos by simp
  then show ?thesis using assms by (simp add: hour_of_def)
qed


lemma upt_0_9: "[0..<9] = [0, 1, 2, 3, 4, 5, 6, 7, 8 :: nat]"
  by code_simp

lemma cursor_positions_business_day:
  "cursor_positions (day * us_per_day + 9 * us_per_hour) (day * us_per_day + 18 * us_per_hour) =
     map (\<lambda>h. day * us_per_day + h * us_per_hour) [9, 10, 11, 12, 13, 14, 15, 16, 17]"
proof -
  have "(day * us_per_day + 18 * us_per_hour - (day * us_per_day + 9 * us_per_hour)) div slot_duration
          = (9 * us_per_hour) div us_per_hour"
    by (simp add: slot_duration_eq)
  also have "\<dots> = 9" using us_per_hour_pos by simp
  finally have n: "nat ((day * us_per_day + 18 * us_per_hour - (day * us_per_day + 9 * us_per_hour))
                     div slot_duration) = 9"
    by simp
  have "cursor_positions (day * us_per_day + 9 * us_per_hour) (day * us_per_day + 18 * us_per_hour)
          = map (\<lambda>k. day * us_per_day + 9 * us_per_hour + int k * slot_duration) [0..<9]"
    by (simp only: cursor_positions_def n)
  then show ?thesis
    by (simp only: upt_0_9 slot_duration_eq) simp
qed

lemma slot_accepted_no_busy:
  "slot_accepted [] s \<longleftrightarrow> BUSINESS_HOURS_START \<le> hour_of s \<and> hour_of s < BUSINESS_HOURS_END"
  by (simp add: slot_accepted_def)

lemma nine_slots:
  "suggest_meeting_times [] (day * us_per_day + 9 * us_per_hour) (day * us_per_day + 18 * us_per_hour)
     = map (\<lambda>h. day * us_per_day + h * us_per_hour) [9, 10, 11, 12, 13, 14, 15, 16, 17]"
proof -
  have "us_per_hour dvd day * us_per_day + 9 * us_per_hour"
    by (simp add: us_per_day_def)
  then have r: "round_to_next_hour (day * us_per_day + 9 * us_per_hour)
                  = day * us_per_day + 9 * us_per_hour"
    by (simp add: round_to_next_hour_eq mod_eq_0_iff_dvd)
  show ?thesis
    unfolding suggest_meeting_times_closed r cursor_positions_business_day
    by (simp add: slot_accepted_no_busy hour_of_day_hour BUSINESS_HOURS_START_def
          BUSINESS_HOURS_END_def)
qed

text \<open>
  Claim C5 (business-hour boundary). With business hours 9 to 18, slots of 60 minutes, the window
  from 09:00 to 18:00 of any day and no busy interval, the result is exactly the nine slots
  starting at 09:00, 10:00, ..., 17:00 in this order (so none at 08:00 or 18:00). For all inputs
  the result is strictly increasing; every produced slot has its start hour in the business hours,
  starts at or after the rounded \<open>time_min\<close> and ends by \<open>time_max\<close>; with no busy interval
  every cursor position that fits the window is produced as soon as its start hour is in the
  business hours (nothing else of the slot is tested); and \<open>time_min\<close> is first rounded up to
  the next full hour: the rounded value is a full hour, at least \<open>time_min\<close> and less than one
  hour later, and the result is the one computed from the rounded value.
\<close>

theorem business_hours_enumeration:
  "suggest_meeting_times [] (day * us_per_day + 9 * us_per_hour) (day * us_per_day + 18 * us_per_hour)
     = map (\<lambda>h. day * us_per_day + h * us_per_hour) [9, 10, 11, 12, 13, 14, 15, 16, 17]
   \<and> sorted_wrt (<) (suggest_meeting_times busy time_min time_max)
   \<and> (\<forall>s \<in> set (suggest_meeting_times busy time_min time_max).
         BUSINESS_HOURS_START \<le> hour_of s \<and> hour_of s < BUSINESS_HOURS_END
         \<and> round_to_next_hour time_min \<le> s \<and> s + slot_duration \<le> time_max)
   \<and> (\<forall>k::nat. round_to_next_hour time_min + int k * slot_duration + slot_duration \<le> time_max
         \<longrightarrow> BUSINESS_HOURS_START \<le> hour_of (round_to_next_hour time_min + int k * slot_duration)
         \<longrightarrow> hour_of (round_to_next_hour time_min + int k * slot_duration) < BUSINESS_HOURS_END
         \<longrightarrow> round_to_next_hour time_min + int k * slot_duration
               \<in> set (suggest_meeting_times [] time_min time_max))
   \<and> us_per_hour dvd round_to_next_hour time_min
   \<and> time_min \<le> round_to_next_hour time_min
   \<and> round_to_next_hour time_min < time_min + us_per_hour
   \<and> suggest_meeting_times busy time_min time_max
        = suggest_meeting_times busy (round_to_next_hour time_min) time_max"
proof -
  have pos: "0 < slot_duration" by (simp add: slot_duration_eq us_per_hour_pos)
  have s: "sorted_wrt (<) (suggest_meeting_times busy time_min time_max)"
    unfolding suggest_meeting_times_closed
    by (rule sorted_wrt_filter) (rule sorted_cursor_positions)
  have m: "\<forall>s \<in> set (suggest_meeting_times busy time_min time_max).
         BUSINESS_HOURS_START \<le> hour_of s \<and> hour_of s < BUSINESS_HOURS_END
         \<and> round_to_next_hour time_min \<le> s \<and> s + slot_duration \<le> time_max"
  proof
    fix s assume "s \<in> set (suggest_meeting_times busy time_min time_max)"
    then have a: "slot_accepted busy s"
      and "s \<in> set (cursor_positions (round_to_next_hour time_min) time_max)"
      by (simp_all add: suggest_meeting_times_closed)
    then obtain k :: nat where k: "s = round_to_next_hour time_min + int k * slot_duration"
      "s + slot_duration \<le> time_max"
      unfolding set_cursor_positions by blast
    have "0 \<le> int k * slot_duration" using pos by simp
    then have "round_to_next_hour time_min \<le> s" using k(1) by linarith
    then show "BUSINESS_HOURS_START \<le> hour_of s \<and> hour_of s < BUSINESS_HOURS_END
         \<and> round_to_next_hour time_min \<le> s \<and> s + slot_duration \<le> time_max"
      using a k(2) by (simp add: slot_accepted_def)
  qed
  have c: "\<forall>k::nat. round_to_next_hour time_min + int k * slot_duration + slot_duration \<le> time_max
         \<longrightarrow> BUSINESS_HOURS_START \<le> hour_of (round_to_next_hour time_min + int k * slot_duration)
         \<longrightarrow> hour_of (round_to_next_hour time_min + int k * slot_duration) < BUSINESS_HOURS_END
         \<longrightarrow> round_to_next_hour time_min + int k * slot_duration
               \<in> set (suggest_meeting_times [] time_min time_max)"
    unfolding suggest_meeting_times_closed set_filter slot_accepted_no_busy mem_Collect_eq
      set_cursor_positions by blast
  have i: "suggest_meeting_times busy time_min time_max
        = suggest_meeting_times busy (round_to_next_hour time_min) time_max"
    by (simp only: suggest_meeting_times_def round_to_next_hour_idem)
  show ?thesis
    using nine_slots s m c round_to_next_hour_bounds[of time_min] i by (intro conjI) blast+
qed


theorem business_hours_enumeration_witness:
  "round_to_next_hour (8 * us_per_hour + 30 * us_per_minute) = 9 * us_per_hour
   \<and> hour_of (9 * us_per_hour) = 9
   \<and> 9 * us_per_hour
        \<in> set (suggest_meeting_times [] (8 * us_per_hour + 30 * us_per_minute) (11 * us_per_hour))"
proof -
  have r: "round_to_next_hour (8 * us_per_hour + 30 * us_per_minute) = 9 * us_per_hour"
    by (simp add: round_to_next_hour_def replace_minute_second_microsecond_0_def minute_of_def
        second_of_def microsecond_of_def us_per_hour_def us_per_minute_def us_per_second_def)
  have h: "hour_of (9 * us_per_hour) = 9"
    by (simp add: hour_of_def us_per_hour_def us_per_minute_def us_per_second_def)
  have "\<forall>k::nat. round_to_next_hour (8 * us_per_hour + 30 * us_per_minute) + int k * slot_duration
            + slot_duration \<le> 11 * us_per_hour
         \<longrightarrow> BUSINESS_HOURS_START
               \<le> hour_of (round_to_next_hour (8 * us_per_hour + 30 * us_per_minute) + int k * slot_duration)
         \<longrightarrow> hour_of (round_to_next_hour (8 * us_per_hour + 30 * us_per_minute) + int k * slot_duration)
               < BUSINESS_HOURS_END
         \<longrightarrow> round_to_next_hour (8 * us_per_hour + 30 * us_per_minute) + int k * slot_duration
               \<in> set (suggest_meeting_times [] (8 * us_per_hour + 30 * us_per_minute) (11 * us_per_hour))"
    using business_hours_enumeration [of 0 "[]" "8 * us_per_hour + 30 * us_per_minute" "11 * us_per_hour"]
    by blast
  from this [rule_format, of 0] have "9 * us_per_hour
        \<in> set (suggest_meeting_times [] (8 * us_per_hour + 30 * us_per_minute) (11 * us_per_hour))"
    using us_per_hour_pos
    by (simp add: r h slot_duration_eq BUSINESS_HOURS_START_def BUSINESS_HOURS_END_def)
  with r h show ?thesis by simp
qed

section \<open>Results on the entity merger\<close>

lemma key_neq [simp]:
  "ustr ''booking_type'' \<noteq> ustr ''phone_number''" "ustr ''booking_type'' \<noteq> ustr ''policy_number''"
  "ustr ''booking_type'' \<noteq> ustr ''patient_info''" "ustr ''booking_type'' \<noteq> ustr ''available_time''"
  "ustr ''phone_number'' \<noteq> ustr ''policy_number''" "ustr ''phone_number'' \<noteq> ustr ''patient_info''"
  "ustr ''phone_number'' \<noteq> ustr ''available_time''" "ustr ''policy_number'' \<noteq> ustr ''patient_info''"
  "ustr ''policy_number'' \<noteq> ustr ''available_time''" "ustr ''patient_info'' \<noteq> ustr ''available_time''"
  by (simp_all add: ustr_def)

lemma merge_item_skip: "\<not> truthy value \<Longrightarrow> merge_item clk (key, value) st = Inr st"
  by (cases st) (simp add: merge_item_def)

lemma merge_items_append:
  "merge_items clk (xs @ ys) st =
     (case merge_items clk xs st of Inl e \<Rightarrow> Inl e | Inr st' \<Rightarrow> merge_items clk ys st')"
  by (induction xs arbitrary: st) (auto split: sum.splits)


lemmas key_neq' = key_neq key_neq[symmetric]

lemma merge_item_patient:
  assumes "d \<noteq> []"
  shows "merge_item clk (ustr ''patient_info'', PDict d) (merged, all_errors) =
     (case validate_patient_info d of
        Inl e \<Rightarrow> Inl e
      | Inr (is_valid, errors, patient_copy) \<Rightarrow>
          if \<not> is_valid
          then Inr (merged\<lparr>patient_info := ensure_attr new_PatientInfo (patient_info merged)\<rparr>,
                    all_errors @ map (\<lambda>error. ustr ''patient_info: '' @ error) errors)
          else (case setattr_items setattr_PatientInfo (ensure_attr new_PatientInfo (patient_info merged)) patient_copy of
                  Inl e \<Rightarrow> Inl e
                | Inr target \<Rightarrow> Inr (merged\<lparr>patient_info := target\<rparr>, all_errors)))"
proof (cases "attr_truthy (patient_info merged)")
  case True
  then have e: "ensure_attr new_PatientInfo (patient_info merged) = patient_info merged"
    "merged\<lparr>patient_info := patient_info merged\<rparr> = merged"
    by (simp_all add: ensure_attr_def)
  show ?thesis
    unfolding e using assms True
    by (simp add: merge_item_def key_neq' split: sum.split prod.split)
next
  case False
  then have e: "ensure_attr new_PatientInfo (patient_info merged) = Obj new_PatientInfo"
    by (simp add: ensure_attr_def)
  show ?thesis
    unfolding e using assms False
    by (simp add: merge_item_def key_neq' split: sum.split prod.split)
qed


lemma merge_item_time:
  assumes "d \<noteq> []"
  shows "merge_item clk (ustr ''available_time'', PDict d) (merged, all_errors) =
     (case validate_preferred_time clk d of
        Inl e \<Rightarrow> Inl e
      | Inr (is_valid, errors, time_copy) \<Rightarrow>
          if \<not> is_valid
          then Inr (merged\<lparr>available_time := ensure_attr new_PreferredTime (available_time merged)\<rparr>,
                    all_errors @ map (\<lambda>error. ustr ''available_time: '' @ error) errors)
          else (case setattr_items setattr_PreferredTime (ensure_attr new_PreferredTime (available_time merged)) time_copy of
                  Inl e \<Rightarrow> Inl e
                | Inr target \<Rightarrow> Inr (merged\<lparr>available_time := target\<rparr>, all_errors)))"
proof (cases "attr_truthy (available_time merged)")
  case True
  then have e: "ensure_attr new_PreferredTime (available_time merged) = available_time merged"
    "merged\<lparr>available_time := available_time merged\<rparr> = merged"
    by (simp_all add: ensure_attr_def)
  show ?thesis
    unfolding e using assms True
    by (simp add: merge_item_def key_neq' split: sum.split prod.split)
next
  case False
  then have e: "ensure_attr new_PreferredTime (available_time merged) = Obj new_PreferredTime"
    by (simp add: ensure_attr_def)
  show ?thesis
    unfolding e using assms False
    by (simp add: merge_item_def key_neq' split: sum.split prod.split)
qed

lemma merge_item_booking:
  assumes "truthy value"
  shows "merge_item clk (ustr ''booking_type'', value) (merged, all_errors) =
     (case validate_appointment_type value get_clinic_appointment_types of
        Inl e \<Rightarrow> Inl e
      | Inr (is_valid, result) \<Rightarrow>
          if is_valid then Inr (merged\<lparr>booking_type := PStr result\<rparr>, all_errors)
          else Inr (merged, all_errors @ [ustr ''booking_type: '' @ result]))"
  using assms by (simp add: merge_item_def)

lemma merge_item_phone:
  assumes "truthy value"
  shows "merge_item clk (ustr ''phone_number'', value) (merged, all_errors) =
     (case validate_phone_number (py_str value) of
        (is_valid, result) \<Rightarrow>
          if is_valid then Inr (merged\<lparr>phone_number := PStr result\<rparr>, all_errors)
          else Inr (merged, all_errors @ [ustr ''phone_number: '' @ result]))"
  using assms by (simp add: merge_item_def key_neq')

lemma merge_item_policy:
  assumes "truthy value"
  shows "merge_item clk (ustr ''policy_number'', value) (merged, all_errors) =
     (case validate_policy_number (py_str value) of
        (is_valid, result) \<Rightarrow>
          if is_valid then Inr (merged\<lparr>policy_number := PStr result\<rparr>, all_errors)
          else Inr (merged, all_errors @ [ustr ''policy_number: '' @ result]))"
  using assms by (simp add: merge_item_def key_neq')

lemma merge_item_other:
  assumes "key \<noteq> ustr ''booking_type''" "key \<noteq> ustr ''phone_number''" "key \<noteq> ustr ''policy_number''"
    and "\<not> (key = ustr ''patient_info'' \<and> is_dict value)"
    and "\<not> (key = ustr ''available_time'' \<and> is_dict value)"
  shows "merge_item clk (key, value) st = Inr st"
  using assms by (cases st) (auto simp: merge_item_def)

text \<open>The seven ways one round of the loop can go.\<close>

lemma merge_item_cases:
  assumes "\<not> truthy v \<Longrightarrow> P"
    and "truthy v \<Longrightarrow> k = ustr ''booking_type'' \<Longrightarrow> P"
    and "truthy v \<Longrightarrow> k = ustr ''phone_number'' \<Longrightarrow> P"
    and "truthy v \<Longrightarrow> k = ustr ''policy_number'' \<Longrightarrow> P"
    and "\<And>d. d \<noteq> [] \<Longrightarrow> k = ustr ''patient_info'' \<Longrightarrow> v = PDict d \<Longrightarrow> P"
    and "\<And>d. d \<noteq> [] \<Longrightarrow> k = ustr ''available_time'' \<Longrightarrow> v = PDict d \<Longrightarrow> P"
    and "truthy v \<Longrightarrow> k \<noteq> ustr ''booking_type'' \<Longrightarrow> k \<noteq> ustr ''phone_number'' \<Longrightarrow>
         k \<noteq> ustr ''policy_number'' \<Longrightarrow> \<not> (k = ustr ''patient_info'' \<and> is_dict v) \<Longrightarrow>
         \<not> (k = ustr ''available_time'' \<and> is_dict v) \<Longrightarrow> P"
  shows P
proof (cases "truthy v")
  case False
  then show ?thesis by (rule assms(1))
next
  case True
  show ?thesis
  proof (cases v)
    case (PDict d)
    with True have "d \<noteq> []" by simp
    with PDict True assms(2-7) show ?thesis by (metis is_dict.simps(1))
  next
    case PNone
    with True show ?thesis by simp
  next
    case (PBool b)
    with True assms(2-4,7) show ?thesis by (metis is_dict.simps(3))
  next
    case (PInt n)
    with True assms(2-4,7) show ?thesis by (metis is_dict.simps(4))
  next
    case (PStr s)
    with True assms(2-4,7) show ?thesis by (metis is_dict.simps(5))
  qed
qed


lemma setattr_items_obj_between:
  assumes step: "\<And>p q px k v p1. setter p k v = Inr p1 \<Longrightarrow> betw q p px \<Longrightarrow>
                   \<exists>q1. setter q k v = Inr q1 \<and> betw q1 p1 px"
  shows "setattr_items setter (Obj p) d = Inr t \<Longrightarrow> betw q p px \<Longrightarrow>
         \<exists>p1 q1. t = Obj p1 \<and> setattr_items setter (Obj q) d = Inr (Obj q1) \<and> betw q1 p1 px"
proof (induction d arbitrary: p q)
  case Nil
  then show ?case by auto
next
  case (Cons kv d)
  obtain k v where kv: "kv = (k, v)" by (cases kv)
  show ?case
  proof (cases "truthy v")
    case False
    with Cons kv show ?thesis by simp
  next
    case True
    with Cons.prems(1) kv obtain p' where p': "setter p k v = Inr p'"
      and rest: "setattr_items setter (Obj p') d = Inr t"
      by (auto split: sum.splits)
    from step[OF p' Cons.prems(2)] obtain q' where q': "setter q k v = Inr q'" "betw q' p' px"
      by blast
    from Cons.IH[OF rest q'(2)] obtain p1 q1 where
      "t = Obj p1" "setattr_items setter (Obj q') d = Inr (Obj q1)" "betw q1 p1 px"
      by blast
    with True kv q'(1) show ?thesis by simp
  qed
qed

lemma setattr_items_val:
  "setattr_items setter (Val w) d = Inr t \<Longrightarrow> t = Val w \<and> (\<forall>kv \<in> set d. \<not> truthy (snd kv))"
  by (induction d) (fastforce split: if_splits)+

lemma setattr_items_no_truthy:
  "\<forall>kv \<in> set d. \<not> truthy (snd kv) \<Longrightarrow> setattr_items setter s d = Inr s"
  by (induction d) auto

lemma fields_of_ensure: "fields_of fresh (ensure_attr fresh s) = fields_of fresh s"
  by (cases s) (simp_all add: ensure_attr_def)

lemma ensure_between:
  "between_attr betw fresh sn s x \<Longrightarrow>
   between_attr betw fresh (ensure_attr fresh sn) (ensure_attr fresh s) x"
  unfolding between_attr_def
  by (auto simp: fields_of_ensure) (auto simp: ensure_attr_def)

lemma setattr_items_between:
  assumes step: "\<And>p q px k v p1. setter p k v = Inr p1 \<Longrightarrow> betw q p px \<Longrightarrow>
                   \<exists>q1. setter q k v = Inr q1 \<and> betw q1 p1 px"
    and run: "setattr_items setter (ensure_attr fresh s) d = Inr t"
    and btw: "between_attr betw fresh sn s x"
  shows "\<exists>tn. setattr_items setter (ensure_attr fresh sn) d = Inr tn \<and> between_attr betw fresh tn t x"
proof (cases "sn = s")
  case True
  with run show ?thesis by (auto simp: between_attr_def)
next
  case False
  with btw obtain q px where q: "sn = Obj q" "x = Obj px" "betw q (fields_of fresh s) px"
    by (auto simp: between_attr_def)
  have esn: "ensure_attr fresh sn = Obj q" using q(1) by (simp add: ensure_attr_def)
  show ?thesis
  proof (cases "ensure_attr fresh s")
    case (Obj p)
    then have p: "p = fields_of fresh s" using fields_of_ensure[of fresh s] by simp
    have "\<exists>p1 q1. t = Obj p1 \<and> setattr_items setter (Obj q) d = Inr (Obj q1) \<and> betw q1 p1 px"
      using run[unfolded Obj] q(3)[folded p]
      by (rule setattr_items_obj_between[rotated 1]) (rule step, assumption+)
    then obtain p1 q1 where "t = Obj p1" "setattr_items setter (Obj q) d = Inr (Obj q1)" "betw q1 p1 px"
      by blast
    then show ?thesis using q(2) esn by (auto simp: between_attr_def)
  next
    case (Val w)
    then have s: "s = Val w" by (cases s) (auto simp: ensure_attr_def split: if_splits)
    from run[unfolded Val] have t: "t = Val w" and none: "\<forall>kv \<in> set d. \<not> truthy (snd kv)"
      using setattr_items_val by blast+
    have "setattr_items setter (Obj q) d = Inr (Obj q)"
      using none by (rule setattr_items_no_truthy)
    then show ?thesis using q esn t s by (auto simp: between_attr_def)
  qed
qed

lemma setattr_PatientInfo_between:
  "setattr_PatientInfo p k v = Inr p1 \<Longrightarrow> between_PatientInfo q p px \<Longrightarrow>
   \<exists>q1. setattr_PatientInfo q k v = Inr q1 \<and> between_PatientInfo q1 p1 px"
  by (auto simp: setattr_PatientInfo_def between_PatientInfo_def split: if_splits)

lemma setattr_PreferredTime_between:
  "setattr_PreferredTime p k v = Inr p1 \<Longrightarrow> between_PreferredTime q p px \<Longrightarrow>
   \<exists>q1. setattr_PreferredTime q k v = Inr q1 \<and> between_PreferredTime q1 p1 px"
  by (auto simp: setattr_PreferredTime_def between_PreferredTime_def split: if_splits)


lemma between_update_patient:
  "between n m x \<Longrightarrow> between_attr between_PatientInfo new_PatientInfo tn t (patient_info x) \<Longrightarrow>
   between (n\<lparr>patient_info := tn\<rparr>) (m\<lparr>patient_info := t\<rparr>) x"
  by (simp add: between_def)

lemma between_update_time:
  "between n m x \<Longrightarrow> between_attr between_PreferredTime new_PreferredTime tn t (available_time x) \<Longrightarrow>
   between (n\<lparr>available_time := tn\<rparr>) (m\<lparr>available_time := t\<rparr>) x"
  by (simp add: between_def)

lemma item_between:
  assumes run: "merge_item clk (key, value) (m, e) = Inr (m1, e1)"
    and btw: "between n m x"
  shows "\<exists>errs. e1 = e @ errs \<and>
           (\<exists>n1. merge_item clk (key, value) (n, e2) = Inr (n1, e2 @ errs) \<and> between n1 m1 x)"
proof (rule merge_item_cases[where v="value" and k=key])
  assume "\<not> truthy value"
  then show ?thesis using run btw by (simp add: merge_item_skip)
next
  assume "truthy value" "key = ustr ''booking_type''"
  then show ?thesis using run btw
    by (auto simp: merge_item_booking between_def split: sum.splits prod.splits if_splits)
next
  assume "truthy value" "key = ustr ''phone_number''"
  then show ?thesis using run btw
    by (auto simp: merge_item_phone between_def split: sum.splits prod.splits if_splits)
next
  assume "truthy value" "key = ustr ''policy_number''"
  then show ?thesis using run btw
    by (auto simp: merge_item_policy between_def split: sum.splits prod.splits if_splits)
next
  fix d assume d: "d \<noteq> []" "key = ustr ''patient_info''" "value = PDict d"
  from run d obtain is_valid errors patient_copy where
    v: "validate_patient_info d = Inr (is_valid, errors, patient_copy)"
    by (auto simp: merge_item_patient split: sum.splits)
  have pb: "between_attr between_PatientInfo new_PatientInfo (patient_info n) (patient_info m) (patient_info x)"
    using btw by (simp add: between_def)
  show ?thesis
  proof (cases is_valid)
    case False
    then have "m1 = m\<lparr>patient_info := ensure_attr new_PatientInfo (patient_info m)\<rparr>"
      and "e1 = e @ map (\<lambda>error. ustr ''patient_info: '' @ error) errors"
      using run d v by (simp_all add: merge_item_patient)
    then show ?thesis using False d v btw ensure_between[OF pb]
      by (simp add: merge_item_patient between_update_patient)
  next
    case True
    then obtain t where t: "setattr_items setattr_PatientInfo
          (ensure_attr new_PatientInfo (patient_info m)) patient_copy = Inr t"
      and m1: "m1 = m\<lparr>patient_info := t\<rparr>" "e1 = e"
      using run d v by (auto simp: merge_item_patient split: sum.splits)
    have "\<exists>tn. setattr_items setattr_PatientInfo (ensure_attr new_PatientInfo (patient_info n)) patient_copy = Inr tn
             \<and> between_attr between_PatientInfo new_PatientInfo tn t (patient_info x)"
      using t pb by (rule setattr_items_between[rotated 1]) (rule setattr_PatientInfo_between, assumption+)
    then obtain tn where "setattr_items setattr_PatientInfo
          (ensure_attr new_PatientInfo (patient_info n)) patient_copy = Inr tn"
      "between_attr between_PatientInfo new_PatientInfo tn t (patient_info x)"
      by blast
    then show ?thesis using True d v btw m1
      by (simp add: merge_item_patient between_update_patient)
  qed
next
  fix d assume d: "d \<noteq> []" "key = ustr ''available_time''" "value = PDict d"
  from run d obtain is_valid errors time_copy where
    v: "validate_preferred_time clk d = Inr (is_valid, errors, time_copy)"
    by (auto simp: merge_item_time split: sum.splits)
  have pb: "between_attr between_PreferredTime new_PreferredTime (available_time n) (available_time m) (available_time x)"
    using btw by (simp add: between_def)
  show ?thesis
  proof (cases is_valid)
    case False
    then have "m1 = m\<lparr>available_time := ensure_attr new_PreferredTime (available_time m)\<rparr>"
      and "e1 = e @ map (\<lambda>error. ustr ''available_time: '' @ error) errors"
      using run d v by (simp_all add: merge_item_time)
    then show ?thesis using False d v btw ensure_between[OF pb]
      by (simp add: merge_item_time between_update_time)
  next
    case True
    then obtain t where t: "setattr_items setattr_PreferredTime
          (ensure_attr new_PreferredTime (available_time m)) time_copy = Inr t"
      and m1: "m1 = m\<lparr>available_time := t\<rparr>" "e1 = e"
      using run d v by (auto simp: merge_item_time split: sum.splits)
    have "\<exists>tn. setattr_items setattr_PreferredTime (ensure_attr new_PreferredTime (available_time n)) time_copy = Inr tn
             \<and> between_attr between_PreferredTime new_PreferredTime tn t (available_time x)"
      using t pb by (rule setattr_items_between[rotated 1]) (rule setattr_PreferredTime_between, assumption+)
    then obtain tn where "setattr_items setattr_PreferredTime
          (ensure_attr new_PreferredTime (available_time n)) time_copy = Inr tn"
      "between_attr between_PreferredTime new_PreferredTime tn t (available_time x)"
      by blast
    then show ?thesis using True d v btw m1
      by (simp add: merge_item_time between_update_time)
  qed
next
  assume "truthy value" "key \<noteq> ustr ''booking_type''" "key \<noteq> ustr ''phone_number''"
    "key \<noteq> ustr ''policy_number''" "\<not> (key = ustr ''patient_info'' \<and> is_dict value)"
    "\<not> (key = ustr ''available_time'' \<and> is_dict value)"
  then show ?thesis using run btw by (simp add: merge_item_other)
qed

lemma items_between:
  "merge_items clk M (m, e) = Inr (m', e') \<Longrightarrow> between n m x \<Longrightarrow>
   \<exists>errs. e' = e @ errs \<and>
     (\<exists>n'. merge_items clk M (n, e2) = Inr (n', e2 @ errs) \<and> between n' m' x)"
proof (induction M arbitrary: m e n e2)
  case Nil
  then show ?case by auto
next
  case (Cons item M)
  obtain key v where item: "item = (key, v)" by (cases item)
  from Cons.prems(1) item obtain m1 e1 where
    s1: "merge_item clk (key, v) (m, e) = Inr (m1, e1)"
    and r1: "merge_items clk M (m1, e1) = Inr (m', e')"
    by (auto split: sum.splits)
  from item_between[OF s1 Cons.prems(2), of e2] obtain a n1 where
    a: "e1 = e @ a" "merge_item clk (key, v) (n, e2) = Inr (n1, e2 @ a)" "between n1 m1 x"
    by blast
  from Cons.IH[OF r1 a(3), of "e2 @ a"] obtain b n' where
    b: "e' = e1 @ b" "merge_items clk M (n1, e2 @ a) = Inr (n', (e2 @ a) @ b)" "between n' m' x"
    by blast
  have "e' = e @ (a @ b)" using a(1) b(1) by simp
  moreover have "merge_items clk (item # M) (n, e2) = Inr (n', e2 @ (a @ b))"
    using item a(2) b(2) by simp
  ultimately show ?case using b(3) by blast
qed


lemma between_attr_same:
  assumes "\<And>q p. betw q p p \<Longrightarrow> q = p"
  shows "between_attr betw fresh sn s s \<Longrightarrow> sn = s"
  using assms by (auto simp: between_attr_def)

lemma between_same: "between n m m \<Longrightarrow> n = m"
proof -
  assume b: "between n m m"
  have p: "q = p" if "between_PatientInfo q p p" for q p
    using that by (cases q, cases p) (simp add: between_PatientInfo_def)
  have t: "q = p" if "between_PreferredTime q p p" for q p
    using that by (cases q, cases p) (simp add: between_PreferredTime_def)
  have "patient_info n = patient_info m"
    using b between_attr_same[of between_PatientInfo, OF p] by (simp add: between_def) blast
  moreover have "available_time n = available_time m"
    using b between_attr_same[of between_PreferredTime, OF t] by (simp add: between_def) blast
  moreover have "booking_type n = booking_type m" "policy_number n = policy_number m"
    "phone_number n = phone_number m"
    using b by (simp_all add: between_def)
  ultimately show "n = m" by (cases n, cases m) simp
qed

lemma setattr_items_obj:
  "setattr_items setter (Obj p) d = Inr t \<Longrightarrow> \<exists>q. t = Obj q"
proof (induction d arbitrary: p)
  case Nil
  then show ?case by auto
next
  case (Cons kv d)
  obtain k v where kv: "kv = (k, v)" by (cases kv)
  show ?case
  proof (cases "truthy v")
    case False
    with Cons kv show ?thesis by simp
  next
    case True
    with Cons.prems kv obtain p' where "setattr_items setter (Obj p') d = Inr t"
      by (auto split: sum.splits)
    then show ?thesis by (rule Cons.IH)
  qed
qed

lemma setattr_items_ensure_kind:
  "setattr_items setter (ensure_attr fresh s) d = Inr t \<Longrightarrow> t = s \<or> (\<exists>q. t = Obj q)"
proof (cases "ensure_attr fresh s")
  case (Obj p)
  assume "setattr_items setter (ensure_attr fresh s) d = Inr t"
  with Obj show ?thesis using setattr_items_obj[of setter p d t] by simp
next
  case (Val w)
  assume r: "setattr_items setter (ensure_attr fresh s) d = Inr t"
  from Val have "s = Val w" by (cases s) (auto simp: ensure_attr_def split: if_splits)
  with r Val show ?thesis using setattr_items_val[of setter w d t] by simp
qed

lemma ensure_kind: "ensure_attr fresh s = s \<or> (\<exists>q. ensure_attr fresh s = Obj q)"
  by (simp add: ensure_attr_def)

lemma item_kind:
  assumes run: "merge_item clk (key, value) (m, e) = Inr (m1, e1)"
  shows "(patient_info m1 = patient_info m \<or> (\<exists>q. patient_info m1 = Obj q))
       \<and> (available_time m1 = available_time m \<or> (\<exists>q. available_time m1 = Obj q))"
proof (rule merge_item_cases[where v="value" and k=key])
  assume "\<not> truthy value"
  then show ?thesis using run by (simp add: merge_item_skip)
next
  assume "truthy value" "key = ustr ''booking_type''"
  then show ?thesis using run
    by (auto simp: merge_item_booking split: sum.splits prod.splits if_splits)
next
  assume "truthy value" "key = ustr ''phone_number''"
  then show ?thesis using run
    by (auto simp: merge_item_phone split: sum.splits prod.splits if_splits)
next
  assume "truthy value" "key = ustr ''policy_number''"
  then show ?thesis using run
    by (auto simp: merge_item_policy split: sum.splits prod.splits if_splits)
next
  fix d assume d: "d \<noteq> []" "key = ustr ''patient_info''" "value = PDict d"
  then show ?thesis using run ensure_kind[of new_PatientInfo "patient_info m"]
    by (auto simp: merge_item_patient split: sum.splits prod.splits if_splits
             dest: setattr_items_ensure_kind)
next
  fix d assume d: "d \<noteq> []" "key = ustr ''available_time''" "value = PDict d"
  then show ?thesis using run ensure_kind[of new_PreferredTime "available_time m"]
    by (auto simp: merge_item_time split: sum.splits prod.splits if_splits
             dest: setattr_items_ensure_kind)
next
  assume "truthy value" "key \<noteq> ustr ''booking_type''" "key \<noteq> ustr ''phone_number''"
    "key \<noteq> ustr ''policy_number''" "\<not> (key = ustr ''patient_info'' \<and> is_dict value)"
    "\<not> (key = ustr ''available_time'' \<and> is_dict value)"
  then show ?thesis using run by (simp add: merge_item_other)
qed

lemma items_kind:
  "merge_items clk M (m, e) = Inr (m', e') \<Longrightarrow>
   (patient_info m' = patient_info m \<or> (\<exists>q. patient_info m' = Obj q))
   \<and> (available_time m' = available_time m \<or> (\<exists>q. available_time m' = Obj q))"
proof (induction M arbitrary: m e)
  case Nil
  then show ?case by simp
next
  case (Cons item M)
  obtain key v where item: "item = (key, v)" by (cases item)
  from Cons.prems item obtain m1 e1 where
    s1: "merge_item clk (key, v) (m, e) = Inr (m1, e1)"
    and r1: "merge_items clk M (m1, e1) = Inr (m', e')"
    by (auto split: sum.splits)
  from item_kind[OF s1] Cons.IH[OF r1] show ?case by auto
qed

lemma between_result:
  assumes "merge_items clk M (m, e) = Inr (m', e')"
  shows "between m' m m'"
proof -
  have "between_attr between_PatientInfo new_PatientInfo (patient_info m') (patient_info m) (patient_info m')"
    using items_kind[OF assms] by (auto simp: between_attr_def between_PatientInfo_def)
  moreover have "between_attr between_PreferredTime new_PreferredTime (available_time m') (available_time m) (available_time m')"
    using items_kind[OF assms] by (auto simp: between_attr_def between_PreferredTime_def)
  ultimately show ?thesis by (simp add: between_def)
qed

text \<open>
  Claim C1 (merge idempotence), amended. The merge reads the clock on every call, to turn a
  relative date into a calendar date. Whenever merging the incoming map \<open>M\<close> into the
  entities \<open>E\<close> returns the entities \<open>E'\<close> and the error list \<open>errors\<close>, merging the same map
  into \<open>E'\<close> at the same reading of the clock returns \<open>E'\<close> again, with the same error list:
  no further change, and no error the first merge did not report. There is no restriction on
  \<open>E\<close> or on the keys and values of \<open>M\<close>. The second merge validates the incoming values
  afresh and stores what the first one stored; it does not validate the stored values.
\<close>

theorem merge_idempotent:
  assumes "merge_entities clk E M = Inr (E', errors)"
  shows "merge_entities clk E' M = Inr (E', errors)"
proof -
  have run: "merge_items clk M (E, []) = Inr (E', errors)"
    using assms by (simp add: merge_entities_def)
  from items_between[OF run between_result[OF run], of "[]"] obtain n' where
    n': "merge_items clk M (E', []) = Inr (n', errors)" "between n' E' E'"
    by auto
  from n'(2) have "n' = E'" by (rule between_same)
  with n'(1) show ?thesis by (simp add: merge_entities_def)
qed


lemmas string_eval =
  ustr_def is_space_def is_decimal_def decimal_value_def decimal_blocks_def is_ascii_letter_def
  is_ascii_alnum_def lower_char_def lower_table_def to_lower_full_def handle_capital_sigma_def
  is_cased_def is_case_ignorable_def cased_table_def case_ignorable_table_def upper_char_def
  py_lower_def py_upper_def py_strip_def
  re_match_dollar_def str_of_int_def fmt_02d_def int_space_def int_of_str_def

lemmas validator_eval =
  zh_today_1_def zh_today_2_def zh_tomorrow_1_def zh_tomorrow_2_def zh_day_after_def
  zh_next_week_def zh_month_def zh_day_def zh_early_1_def zh_early_2_def zh_morning_def
  zh_noon_def zh_afternoon_def zh_evening_def zh_night_def zh_male_def zh_female_def zh_other_def
  is_han_def chinese_pattern_def english_pattern_def is_valid_chinese_name_str_def
  strip_country_code_def phone_pattern_def validate_phone_number_def policy_pattern_def
  validate_policy_number_def get_clinic_appointment_types_def match_month_day_zh_def
  match_month_day_slash_def month_day_text_def date_pattern_1_def date_pattern_2_def
  date_pattern_3_def normalize_date_expression_str_def time_mappings_def
  normalize_time_slot_str_def validate_age_range_def valid_genders_def gender_message_def
  validate_patient_info_def validate_preferred_time_def dict_get_def

lemmas merge_eval =
  new_PatientInfo_def new_PreferredTime_def new_BookingEntities_def setattr_PatientInfo_def
  setattr_PreferredTime_def merge_item_def merge_entities_def example_clock_def Let_def

theorem merge_idempotent_witness:
  "merge_entities example_clock new_BookingEntities
     [(ustr ''phone_number'', PStr (ustr ''+852 9123 4567'')),
      (ustr ''patient_info'', PDict [(ustr ''name'', PStr (ustr ''Alice'')), (ustr ''gender'', PStr (ustr ''xyz''))])]
     = Inr (new_BookingEntities\<lparr>phone_number := PStr (ustr ''91234567'')\<rparr>,
            [ustr ''patient_info: '' @ gender_message])
   \<and> merge_entities example_clock (new_BookingEntities\<lparr>phone_number := PStr (ustr ''91234567'')\<rparr>)
     [(ustr ''phone_number'', PStr (ustr ''+852 9123 4567'')),
      (ustr ''patient_info'', PDict [(ustr ''name'', PStr (ustr ''Alice'')), (ustr ''gender'', PStr (ustr ''xyz''))])]
     = Inr (new_BookingEntities\<lparr>phone_number := PStr (ustr ''91234567'')\<rparr>,
            [ustr ''patient_info: '' @ gender_message])"
proof -
  have first: "merge_entities example_clock new_BookingEntities
     [(ustr ''phone_number'', PStr (ustr ''+852 9123 4567'')),
      (ustr ''patient_info'', PDict [(ustr ''name'', PStr (ustr ''Alice'')), (ustr ''gender'', PStr (ustr ''xyz''))])]
     = Inr (new_BookingEntities\<lparr>phone_number := PStr (ustr ''91234567'')\<rparr>,
            [ustr ''patient_info: '' @ gender_message])"
    by (simp add: string_eval validator_eval merge_eval)
  from first merge_idempotent [OF first] show ?thesis by (rule conjI)
qed

text \<open>
  Claim C1 as stated fails when the day changes between the two merges: the incoming date
  U+660E U+5929 (tomorrow) merged on 15 January 2024 stores 2024-01-16, and the same map merged
  again on 16 January changes the stored date to 2024-01-17.
\<close>

theorem merge_twice_across_midnight:
  "merge_entities (january_2024 15) new_BookingEntities
     [(ustr ''available_time'', PDict [(ustr ''date'', PStr zh_tomorrow_1)])]
     = Inr (new_BookingEntities
              \<lparr>available_time := Obj \<lparr>date = PStr (ustr ''2024-01-16''), time_slot = PNone\<rparr>\<rparr>, [])
   \<and> merge_entities (january_2024 16)
       (new_BookingEntities
          \<lparr>available_time := Obj \<lparr>date = PStr (ustr ''2024-01-16''), time_slot = PNone\<rparr>\<rparr>)
       [(ustr ''available_time'', PDict [(ustr ''date'', PStr zh_tomorrow_1)])]
     = Inr (new_BookingEntities
              \<lparr>available_time := Obj \<lparr>date = PStr (ustr ''2024-01-17''), time_slot = PNone\<rparr>\<rparr>, [])
   \<and> ustr ''2024-01-16'' \<noteq> ustr ''2024-01-17''"
  by (simp add: string_eval validator_eval merge_eval january_2024_def nat_digits.simps)


text \<open>
  Claim C7 (merge never overwrites with empty). An item of the incoming map whose value is
  false in Python's sense (\<^verbatim>\<open>None\<close>, the empty string, \<^verbatim>\<open>0\<close>, \<^verbatim>\<open>False\<close>, the empty dict) is
  skipped: the merge returns what it returns for the map without the item, whatever the key and
  whatever stands before and after it, so the field keeps its prior value and no error is
  recorded for the key. In particular a map with only such an item returns the entities
  unchanged and no error.
\<close>

theorem merge_skips_falsy:
  assumes "\<not> truthy v"
  shows "merge_entities clk E (before @ (k, v) # after) = merge_entities clk E (before @ after)
       \<and> merge_entities clk E [(k, v)] = Inr (E, [])"
proof -
  have "merge_items clk (before @ (k, v) # after) st = merge_items clk (before @ after) st" for st
    using assms by (simp add: merge_items_append merge_item_skip split: sum.splits)
  moreover have "merge_items clk [(k, v)] st = Inr st" for st
    using assms by (simp add: merge_item_skip)
  ultimately show ?thesis by (simp add: merge_entities_def)
qed

theorem merge_skips_falsy_witness:
  "\<not> truthy (PStr [])
   \<and> merge_entities example_clock (new_BookingEntities\<lparr>phone_number := PStr (ustr ''91234567'')\<rparr>)
       [(ustr ''phone_number'', PStr [])]
     = Inr (new_BookingEntities\<lparr>phone_number := PStr (ustr ''91234567'')\<rparr>, [])"
proof -
  have h: "\<not> truthy (PStr [])" by simp
  from merge_skips_falsy [OF h, where clk=example_clock and before="[]" and after="[]"
      and k="ustr ''phone_number''"
      and E="new_BookingEntities\<lparr>phone_number := PStr (ustr ''91234567'')\<rparr>"]
  have "merge_entities example_clock (new_BookingEntities\<lparr>phone_number := PStr (ustr ''91234567'')\<rparr>)
       [(ustr ''phone_number'', PStr [])]
     = Inr (new_BookingEntities\<lparr>phone_number := PStr (ustr ''91234567'')\<rparr>, [])"
    by (rule conjunct2)
  with h show ?thesis by (rule conjI)
qed

section \<open>Results on the validators and the missing fields\<close>

text \<open>
  Claim C9 (telephone validation), evaluated at the number 8521 2345 written without the
  country code. It has eight digits and starts with 8, so it is a number of the kind the
  claim and the docstring of \<^verbatim>\<open>validate_phone_number\<close> call valid; the same number is
  accepted when it is written with the prefix \<^verbatim>\<open>+852\<close> or \<^verbatim>\<open>852\<close>. Written bare, its first
  three digits are taken for the country code and removed, and the five digits left are
  rejected.
\<close>

theorem phone_bare_852_rejected:
  "validate_phone_number (ustr ''85212345'')
     = (False, ustr ''Please provide a valid Hong Kong phone number.'')
   \<and> phone_pattern (ustr ''85212345'')
   \<and> validate_phone_number (ustr ''+852 8521 2345'') = (True, ustr ''85212345'')
   \<and> validate_phone_number (ustr ''852-8521-2345'') = (True, ustr ''85212345'')"
  by (simp add: string_eval validator_eval)

lemma label_eval:
  "label_booking_type \<noteq> label_patient_info" "label_booking_type \<noteq> label_policy_number"
  "label_booking_type \<noteq> label_available_time" "label_booking_type \<noteq> label_phone_number"
  "label_patient_info \<noteq> label_policy_number" "label_patient_info \<noteq> label_available_time"
  "label_patient_info \<noteq> label_phone_number" "label_policy_number \<noteq> label_available_time"
  "label_policy_number \<noteq> label_phone_number" "label_available_time \<noteq> label_phone_number"
  by (simp_all add: label_booking_type_def label_patient_info_def label_policy_number_def
      label_available_time_def label_phone_number_def)

lemmas label_neq = label_eval label_eval[symmetric]

text \<open>
  Claim C3 as stated fails: for a new conversation every field is missing, and the list handed
  to the question generator names the policy number before the available time, which is not
  the priority order (appointment date before policy number).
\<close>

theorem missing_fields_priority_counterexample:
  "get_missing_fields (entities example_conversation) = Inr test_order
   \<and> map_sum id (map_option fst) (missing_fields_request example_conversation) = Inr (Some test_order)
   \<and> \<not> in_order test_order priority_order"
  by (simp add: missing_fields_request_def get_missing_fields_def attr_field_missing_def
      example_conversation_def new_BookingEntities_def new_PatientInfo_def new_PreferredTime_def
      test_order_def priority_order_def to_dict_def attr_field_or_none_def label_neq Let_def)

lemma get_missing_fields_form:
  assumes "get_missing_fields E = Inr missing"
  shows "\<exists>no_name no_date.
     attr_field_missing name (patient_info E) = Inr no_name
   \<and> attr_field_missing date (available_time E) = Inr no_date
   \<and> missing = (if \<not> truthy (booking_type E) then [label_booking_type] else [])
       @ (if no_name then [label_patient_info] else [])
       @ (if \<not> truthy (policy_number E) then [label_policy_number] else [])
       @ (if no_date then [label_available_time] else [])
       @ (if \<not> truthy (phone_number E) then [label_phone_number] else [])"
proof -
  from assms obtain no_name where n: "attr_field_missing name (patient_info E) = Inr no_name"
    unfolding get_missing_fields_def Let_def by (cases "attr_field_missing name (patient_info E)") simp_all
  from assms n obtain no_date where d: "attr_field_missing date (available_time E) = Inr no_date"
    unfolding get_missing_fields_def Let_def by (cases "attr_field_missing date (available_time E)") simp_all
  from assms show ?thesis
    unfolding get_missing_fields_def Let_def n d by (simp only: sum.case list.simps append.simps) auto
qed



lemma in_order_flags:
  "in_order ((if b1 then [label_booking_type] else []) @ (if b2 then [label_patient_info] else [])
       @ (if b3 then [label_policy_number] else []) @ (if b4 then [label_available_time] else [])
       @ (if b5 then [label_phone_number] else [])) test_order"
  by (cases b1; cases b2; cases b3; cases b4; cases b5) (simp_all add: test_order_def label_neq)

lemma get_missing_fields_in_order:
  assumes "get_missing_fields E = Inr missing"
  shows "in_order missing test_order"
proof -
  from get_missing_fields_form[OF assms] obtain no_name no_date where
    m: "missing = (if \<not> truthy (booking_type E) then [label_booking_type] else [])
       @ (if no_name then [label_patient_info] else [])
       @ (if \<not> truthy (policy_number E) then [label_policy_number] else [])
       @ (if no_date then [label_available_time] else [])
       @ (if \<not> truthy (phone_number E) then [label_phone_number] else [])"
    by blast
  show ?thesis unfolding m by (rule in_order_flags)
qed

text \<open>
  Claim C3, amended. Whenever the question generator is called, the list of missing fields it
  receives is the result of \<^verbatim>\<open>get_missing_fields\<close> unchanged, it is not empty, and it is in the
  order in which \<^verbatim>\<open>get_missing_fields\<close> tests the fields: appointment type, patient
  information (name), policy number, available time (date), phone number.
\<close>

theorem missing_fields_in_test_order:
  assumes "missing_fields_request conversation = Inr (Some (missing_fields, context, current_entities))"
  shows "get_missing_fields (entities conversation) = Inr missing_fields
       \<and> missing_fields \<noteq> [] \<and> in_order missing_fields test_order
       \<and> get_missing_fields_question generate conversation
           = Inr (generate missing_fields context current_entities)"
proof -
  from assms have g: "get_missing_fields (entities conversation) = Inr missing_fields"
    and ne: "missing_fields \<noteq> []"
    by (auto simp: missing_fields_request_def Let_def split: sum.splits if_splits)
  from g have "in_order missing_fields test_order" by (rule get_missing_fields_in_order)
  with g ne assms show ?thesis by (simp add: get_missing_fields_question_def)
qed

theorem missing_fields_in_test_order_witness:
  "missing_fields_request example_conversation
     = Inr (Some (test_order, [],
         PDict [(ustr ''booking_type'', PNone),
                (ustr ''patient_info'', PDict [(ustr ''name'', PNone), (ustr ''age'', PNone), (ustr ''gender'', PNone)]),
                (ustr ''policy_number'', PNone),
                (ustr ''available_time'', PDict [(ustr ''date'', PNone), (ustr ''time_slot'', PNone)]),
                (ustr ''phone_number'', PNone)]))
   \<and> in_order test_order test_order"
proof -
  have h: "missing_fields_request example_conversation
     = Inr (Some (test_order, [],
         PDict [(ustr ''booking_type'', PNone),
                (ustr ''patient_info'', PDict [(ustr ''name'', PNone), (ustr ''age'', PNone), (ustr ''gender'', PNone)]),
                (ustr ''policy_number'', PNone),
                (ustr ''available_time'', PDict [(ustr ''date'', PNone), (ustr ''time_slot'', PNone)]),
                (ustr ''phone_number'', PNone)]))"
    by (simp add: missing_fields_request_def get_missing_fields_def attr_field_missing_def
      example_conversation_def new_BookingEntities_def new_PatientInfo_def new_PreferredTime_def
      test_order_def to_dict_def attr_field_or_none_def get_conversation_context_def Let_def)
  from missing_fields_in_test_order [OF h] have "in_order test_order test_order" by simp
  with h show ?thesis by (rule conjI)
qed

section \<open>Results on the entity extractor\<close>

text \<open>
  Claim C8 (extraction-failure atomicity). Suppose the extraction service returns the empty
  dict, which is what it returns for an empty or unparseable answer, or raises. Then
  \<^verbatim>\<open>extract_and_merge\<close> leaves the conversation and the extraction history exactly as they
  were. When the entities of the conversation can be rendered by \<^verbatim>\<open>to_dict\<close> it returns the
  success flag \<^verbatim>\<open>False\<close>, with no merge recorded in the report (no snapshot after, no
  validation errors); when \<^verbatim>\<open>to_dict\<close> raises, which takes a sub-object field that holds a
  true value other than a model object, that exception leaves the call before the service is
  asked.
\<close>

theorem extraction_failure_atomic:
  assumes "\<forall>d. extract_entities user_message d (get_conversation_context conversation) = Inr []
             \<or> (\<exists>e. extract_entities user_message d (get_conversation_context conversation) = Inl e)"
  shows "snd (extract_and_merge extract_entities clk extraction_history conversation user_message)
           = (extraction_history, conversation)
       \<and> (\<forall>current. to_dict (entities conversation) = Inr current \<longrightarrow>
            (\<exists>info. fst (extract_and_merge extract_entities clk extraction_history conversation user_message)
                       = Returned (False, info)
                   \<and> \<not> merged_successfully info \<and> entities_before info = current
                   \<and> entities_after info = PNone \<and> validation_errors info = []))
       \<and> (\<forall>e. to_dict (entities conversation) = Inl e \<longrightarrow>
            fst (extract_and_merge extract_entities clk extraction_history conversation user_message)
              = Raised e)"
proof (cases "to_dict (entities conversation)")
  case (Inl e)
  then show ?thesis by (simp add: extract_and_merge_def)
next
  case (Inr current)
  from assms have "extract_entities user_message current (get_conversation_context conversation) = Inr []
      \<or> (\<exists>e. extract_entities user_message current (get_conversation_context conversation) = Inl e)"
    by blast
  then show ?thesis
  proof
    assume "extract_entities user_message current (get_conversation_context conversation) = Inr []"
    with Inr show ?thesis by (simp add: extract_and_merge_def Let_def)
  next
    assume "\<exists>e. extract_entities user_message current (get_conversation_context conversation) = Inl e"
    then obtain e where "extract_entities user_message current (get_conversation_context conversation) = Inl e"
      by blast
    with Inr show ?thesis by (simp add: extract_and_merge_def Let_def)
  qed
qed

theorem extraction_failure_atomic_witness:
  "extract_and_merge (\<lambda>m d c. Inr []) example_clock [] example_conversation (ustr ''hello'')
     = (Returned (False,
          \<lparr>message = ustr ''hello'', extracted_entities = [], merged_successfully = False,
           validation_errors = [],
           entities_before =
             PDict [(ustr ''booking_type'', PNone),
                (ustr ''patient_info'', PDict [(ustr ''name'', PNone), (ustr ''age'', PNone), (ustr ''gender'', PNone)]),
                (ustr ''policy_number'', PNone),
                (ustr ''available_time'', PDict [(ustr ''date'', PNone), (ustr ''time_slot'', PNone)]),
                (ustr ''phone_number'', PNone)],
           entities_after = PNone, error = None\<rparr>),
        [], example_conversation)"
proof -
  have t: "to_dict (entities example_conversation) =
      Inr (PDict [(ustr ''booking_type'', PNone),
                (ustr ''patient_info'', PDict [(ustr ''name'', PNone), (ustr ''age'', PNone), (ustr ''gender'', PNone)]),
                (ustr ''policy_number'', PNone),
                (ustr ''available_time'', PDict [(ustr ''date'', PNone), (ustr ''time_slot'', PNone)]),
                (ustr ''phone_number'', PNone)])"
    by (simp add: to_dict_def attr_field_or_none_def example_conversation_def
        new_BookingEntities_def new_PatientInfo_def new_PreferredTime_def)
  from extraction_failure_atomic [where extract_entities="\<lambda>m d c. Inr []"
      and user_message="ustr ''hello''" and conversation=example_conversation
      and clk=example_clock and extraction_history="[]"]
  have "snd (extract_and_merge (\<lambda>m d c. Inr []) example_clock [] example_conversation (ustr ''hello''))
           = ([], example_conversation)"
    by blast
  moreover have "fst (extract_and_merge (\<lambda>m d c. Inr []) example_clock [] example_conversation (ustr ''hello''))
     = Returned (False,
          \<lparr>message = ustr ''hello'', extracted_entities = [], merged_successfully = False,
           validation_errors = [],
           entities_before =
             PDict [(ustr ''booking_type'', PNone),
                (ustr ''patient_info'', PDict [(ustr ''name'', PNone), (ustr ''age'', PNone), (ustr ''gender'', PNone)]),
                (ustr ''policy_number'', PNone),
                (ustr ''available_time'', PDict [(ustr ''date'', PNone), (ustr ''time_slot'', PNone)]),
                (ustr ''phone_number'', PNone)],
           entities_after = PNone, error = None\<rparr>)"
    by (simp add: extract_and_merge_def t Let_def)
  ultimately show ?thesis by (simp add: prod_eq_iff)
qed

section \<open>Results on the stored values\<close>

lemma dict_get_Cons: "dict_get ((k, v) # d) f = (if f = k then v else dict_get d f)"
  by (simp add: dict_get_def)

lemma dict_get_absent: "f \<notin> fst ` set d \<Longrightarrow> dict_get d f = PNone"
  by (simp add: dict_get_def map_of_eq_None_iff[THEN iffD2])

lemma picked_Cons_other: "f \<noteq> k \<Longrightarrow> picked ((k, v) # d) f old = picked d f old"
  by (simp add: picked_def dict_get_Cons)

lemma picked_Cons_same:
  "k \<notin> fst ` set d \<Longrightarrow> picked ((k, v) # d) k old = (if truthy v then v else old)"
  by (simp add: picked_def dict_get_Cons)

lemma picked_absent: "f \<notin> fst ` set d \<Longrightarrow> picked d f old = old"
  by (simp add: picked_def dict_get_absent)

lemma field_key_neq [simp]:
  "ustr ''name'' \<noteq> ustr ''age''" "ustr ''name'' \<noteq> ustr ''gender''" "ustr ''age'' \<noteq> ustr ''gender''"
  "ustr ''date'' \<noteq> ustr ''time_slot''"
  by (simp_all add: ustr_def)

lemmas field_key_neq' = field_key_neq field_key_neq[symmetric]

lemma setattr_items_PatientInfo:
  "distinct (map fst d) \<Longrightarrow> setattr_items setattr_PatientInfo (Obj p) d = Inr t \<Longrightarrow>
   t = Obj \<lparr>name = picked d (ustr ''name'') (name p), age = picked d (ustr ''age'') (age p),
            gender = picked d (ustr ''gender'') (gender p)\<rparr>"
proof (induction d arbitrary: p)
  case Nil
  then show ?case by (cases p) (auto simp: picked_def dict_get_def)
next
  case (Cons kv d)
  obtain k v where kv: "kv = (k, v)" by (cases kv)
  from Cons.prems(1) kv have nk: "k \<notin> fst ` set d" and dd: "distinct (map fst d)" by auto
  show ?case
  proof (cases "truthy v")
    case False
    with Cons.prems(2) kv have "setattr_items setattr_PatientInfo (Obj p) d = Inr t" by simp
    from Cons.IH[OF dd this] show ?thesis
      using False nk unfolding kv
      by (cases "k = ustr ''name''"; cases "k = ustr ''age''"; cases "k = ustr ''gender''")
         (simp_all add: picked_Cons_other picked_Cons_same picked_absent field_key_neq')
  next
    case True
    with Cons.prems(2) kv obtain p' where p': "setattr_PatientInfo p k v = Inr p'"
      and r: "setattr_items setattr_PatientInfo (Obj p') d = Inr t"
      by (auto split: sum.splits)
    from Cons.IH[OF dd r] p' show ?thesis
      using True nk unfolding kv
      by (cases "k = ustr ''name''"; cases "k = ustr ''age''"; cases "k = ustr ''gender''")
         (auto simp: setattr_PatientInfo_def picked_Cons_other picked_Cons_same picked_absent
            field_key_neq')
  qed
qed

lemma setattr_items_PreferredTime:
  "distinct (map fst d) \<Longrightarrow> setattr_items setattr_PreferredTime (Obj p) d = Inr t \<Longrightarrow>
   t = Obj \<lparr>date = picked d (ustr ''date'') (date p),
            time_slot = picked d (ustr ''time_slot'') (time_slot p)\<rparr>"
proof (induction d arbitrary: p)
  case Nil
  then show ?case by (cases p) (auto simp: picked_def dict_get_def)
next
  case (Cons kv d)
  obtain k v where kv: "kv = (k, v)" by (cases kv)
  from Cons.prems(1) kv have nk: "k \<notin> fst ` set d" and dd: "distinct (map fst d)" by auto
  show ?case
  proof (cases "truthy v")
    case False
    with Cons.prems(2) kv have "setattr_items setattr_PreferredTime (Obj p) d = Inr t" by simp
    from Cons.IH[OF dd this] show ?thesis
      using False nk unfolding kv
      by (cases "k = ustr ''date''"; cases "k = ustr ''time_slot''")
         (simp_all add: picked_Cons_other picked_Cons_same picked_absent field_key_neq')
  next
    case True
    with Cons.prems(2) kv obtain p' where p': "setattr_PreferredTime p k v = Inr p'"
      and r: "setattr_items setattr_PreferredTime (Obj p') d = Inr t"
      by (auto split: sum.splits)
    from Cons.IH[OF dd r] p' show ?thesis
      using True nk unfolding kv
      by (cases "k = ustr ''date''"; cases "k = ustr ''time_slot''")
         (auto simp: setattr_PreferredTime_def picked_Cons_other picked_Cons_same picked_absent
            field_key_neq')
  qed
qed


lemma dict_get_dict_set: "dict_get (dict_set d k v) f = (if f = k then v else dict_get d f)"
  by (induction d) (auto simp: dict_get_def)

lemma dict_get_present: "dict_get d k \<noteq> PNone \<Longrightarrow> k \<in> fst ` set d"
  using dict_get_absent by blast

lemma keys_dict_set: "k \<in> set (map fst d) \<Longrightarrow> map fst (dict_set d k v) = map fst d"
proof (induction d)
  case Nil
  then show ?case by simp
next
  case (Cons kv d)
  obtain k' v' where kv: "kv = (k', v')" by (cases kv)
  show ?case
  proof (cases "k' = k")
    case True
    with kv show ?thesis by simp
  next
    case False
    with Cons.prems kv have "k \<in> set (map fst d)" by auto
    from Cons.IH[OF this] False kv show ?thesis by simp
  qed
qed

lemma truthy_not_None: "truthy v \<Longrightarrow> v \<noteq> PNone"
  by auto

lemma validate_gender_canonical:
  "validate_gender g = Inr (True, n) \<Longrightarrow> truthy g \<Longrightarrow> n \<in> set valid_genders"
  by (cases g) (auto simp: valid_genders_def split: if_splits)

lemma validate_patient_info_facts:
  assumes "validate_patient_info d = Inr (ok, errs, copy)"
  shows "ok \<longleftrightarrow> errs = []"
    and "ok \<Longrightarrow> truthy (dict_get d (ustr ''name'')) \<Longrightarrow>
           is_valid_chinese_name (dict_get d (ustr ''name'')) = Inr True"
    and "ok \<Longrightarrow> age_ok (dict_get d (ustr ''age''))"
    and "ok \<Longrightarrow> \<exists>n. (truthy (dict_get d (ustr ''gender'')) \<longrightarrow> n \<in> set valid_genders)
           \<and> copy = (if truthy (dict_get d (ustr ''gender''))
                      then dict_set d (ustr ''gender'') (PStr n) else d)"
proof -
  define nm where "nm = (if truthy (dict_get d (ustr ''name''))
                          then is_valid_chinese_name (dict_get d (ustr ''name'')) else Inr True)"
  from assms obtain name_ok where n: "nm = Inr name_ok"
    unfolding validate_patient_info_def Let_def nm_def
    by (cases "if truthy (dict_get d (ustr ''name''))
               then is_valid_chinese_name (dict_get d (ustr ''name'')) else Inr True") simp_all
  define e1 where "e1 = (if name_ok then [] else [ustr ''Name format is incorrect''])"
  define ag where "ag = (if dict_get d (ustr ''age'') \<noteq> PNone
            then (case py_int (dict_get d (ustr ''age'')) of
                    Inl ValueError \<Rightarrow> Inr (e1 @ [ustr ''Age must be a number''])
                  | Inl e \<Rightarrow> Inl e
                  | Inr age_int \<Rightarrow>
                      (case validate_age_range age_int of
                         (is_valid, error_msg) \<Rightarrow>
                           Inr (if \<not> is_valid then e1 @ [error_msg] else e1)))
            else Inr e1)"
  have step1: "validate_patient_info d =
      (case ag of Inl e \<Rightarrow> Inl e | Inr errors \<Rightarrow>
         if truthy (dict_get d (ustr ''gender''))
         then (case validate_gender (dict_get d (ustr ''gender'')) of
              Inl e \<Rightarrow> Inl e
            | Inr (is_valid, normalized_gender) \<Rightarrow>
                if \<not> is_valid
                then Inr (False, errors @ [normalized_gender], d)
                else Inr (errors = [], errors,
                          dict_set d (ustr ''gender'') (PStr normalized_gender)))
         else Inr (errors = [], errors, d))"
    using n unfolding validate_patient_info_def Let_def nm_def ag_def e1_def by simp
  from assms step1 obtain e2 where a: "ag = Inr e2" by (cases ag) simp_all
  have e2_nil: "e2 = [] \<Longrightarrow> name_ok \<and> age_ok (dict_get d (ustr ''age''))"
    using a unfolding ag_def e1_def age_ok_def
    by (auto split: if_splits sum.splits py_error.splits prod.splits)
  have res: "(if truthy (dict_get d (ustr ''gender''))
         then (case validate_gender (dict_get d (ustr ''gender'')) of
              Inl e \<Rightarrow> Inl e
            | Inr (is_valid, normalized_gender) \<Rightarrow>
                if \<not> is_valid
                then Inr (False, e2 @ [normalized_gender], d)
                else Inr (e2 = [], e2,
                          dict_set d (ustr ''gender'') (PStr normalized_gender)))
         else Inr (e2 = [], e2, d)) = Inr (ok, errs, copy)"
    using assms step1 a by simp
  show "ok \<longleftrightarrow> errs = []"
    using res by (auto split: if_splits sum.splits prod.splits)
  have ok_e2: "ok \<Longrightarrow> e2 = []"
    using res by (auto split: if_splits sum.splits prod.splits)
  show "ok \<Longrightarrow> truthy (dict_get d (ustr ''name'')) \<Longrightarrow>
           is_valid_chinese_name (dict_get d (ustr ''name'')) = Inr True"
    using ok_e2 e2_nil n unfolding nm_def by simp
  show "ok \<Longrightarrow> age_ok (dict_get d (ustr ''age''))"
    using ok_e2 e2_nil by simp
  show "ok \<Longrightarrow> \<exists>n. (truthy (dict_get d (ustr ''gender'')) \<longrightarrow> n \<in> set valid_genders)
           \<and> copy = (if truthy (dict_get d (ustr ''gender''))
                      then dict_set d (ustr ''gender'') (PStr n) else d)"
    using res
    by (auto split: if_splits sum.splits prod.splits dest: validate_gender_canonical)
qed


lemma keys_dict_set_truthy:
  "truthy (dict_get d k) \<Longrightarrow> map fst (dict_set d k v) = map fst d"
proof -
  assume "truthy (dict_get d k)"
  then have "dict_get d k \<noteq> PNone" by auto
  then have "k \<in> fst ` set d" by (rule dict_get_present)
  then have "k \<in> set (map fst d)" by simp
  then show ?thesis by (rule keys_dict_set)
qed

lemma normalize_time_slot_str_only:
  "normalize_time_slot v = Inr r \<Longrightarrow> truthy v \<Longrightarrow> \<exists>s. v = PStr s \<and> s \<noteq> []"
  by (cases v) (auto split: if_splits)

lemma validate_preferred_time_facts:
  assumes "validate_preferred_time clk d = Inr (ok, errs, copy)"
  shows "ok \<longleftrightarrow> errs = []"
    and "map fst copy = map fst d"
    and "ok \<Longrightarrow> truthy (dict_get copy (ustr ''date'')) \<Longrightarrow>
           \<exists>s. dict_get copy (ustr ''date'') = PStr s \<and> s \<noteq> []"
    and "ok \<Longrightarrow> truthy (dict_get copy (ustr ''time_slot'')) \<Longrightarrow>
           \<exists>s. dict_get copy (ustr ''time_slot'') = PStr s \<and> s \<noteq> []"
proof -
  define msg where "msg = ustr ''Date format cannot be recognized, please provide a specific date''"
  define dt where "dt = (if truthy (dict_get d (ustr ''date''))
            then (case normalize_date_expression clk (dict_get d (ustr ''date'')) of
                    Inl e \<Rightarrow> Inl e
                  | Inr normalized_date \<Rightarrow>
                      (case normalized_date of
                         Some text \<Rightarrow>
                           if text \<noteq> [] then Inr ([], dict_set d (ustr ''date'') (PStr text))
                           else Inr ([msg], d)
                       | None \<Rightarrow> Inr ([msg], d)))
            else Inr ([], d))"
  have step: "validate_preferred_time clk d =
     (case dt of Inl e \<Rightarrow> Inl e
      | Inr (errors, time_info) \<Rightarrow>
      if truthy (dict_get time_info (ustr ''time_slot''))
      then (case normalize_time_slot (dict_get time_info (ustr ''time_slot'')) of
              Inl e \<Rightarrow> Inl e
            | Inr normalized_slot \<Rightarrow>
                (case normalized_slot of
                   Some text \<Rightarrow>
                     if text \<noteq> []
                     then Inr (errors = [], errors, dict_set time_info (ustr ''time_slot'') (PStr text))
                     else Inr (errors = [], errors, time_info)
                 | None \<Rightarrow> Inr (errors = [], errors, time_info)))
      else Inr (errors = [], errors, time_info))"
    unfolding validate_preferred_time_def Let_def dt_def msg_def by simp
  from assms step obtain e1 d1 where dt1: "dt = Inr (e1, d1)" by (cases dt) auto
  have k1: "map fst d1 = map fst d"
    using dt1 unfolding dt_def
    by (auto simp: keys_dict_set_truthy split: if_splits sum.splits option.splits)
  have date1: "e1 = [] \<Longrightarrow> truthy (dict_get d1 (ustr ''date'')) \<Longrightarrow>
           \<exists>s. dict_get d1 (ustr ''date'') = PStr s \<and> s \<noteq> []"
    using dt1 unfolding dt_def
    by (auto simp: dict_get_dict_set split: if_splits sum.splits option.splits)
  have res: "(if truthy (dict_get d1 (ustr ''time_slot''))
      then (case normalize_time_slot (dict_get d1 (ustr ''time_slot'')) of
              Inl e \<Rightarrow> Inl e
            | Inr normalized_slot \<Rightarrow>
                (case normalized_slot of
                   Some text \<Rightarrow>
                     if text \<noteq> []
                     then Inr (e1 = [], e1, dict_set d1 (ustr ''time_slot'') (PStr text))
                     else Inr (e1 = [], e1, d1)
                 | None \<Rightarrow> Inr (e1 = [], e1, d1)))
      else Inr (e1 = [], e1, d1)) = Inr (ok, errs, copy)"
    using assms step dt1 by simp
  show "ok \<longleftrightarrow> errs = []"
    using res by (auto split: if_splits sum.splits option.splits)
  have oke: "ok \<Longrightarrow> e1 = []"
    using res by (auto split: if_splits sum.splits option.splits)
  have "map fst copy = map fst d1"
    using res
    by (auto simp: keys_dict_set_truthy split: if_splits sum.splits option.splits)
  with k1 show "map fst copy = map fst d" by simp
  show "ok \<Longrightarrow> truthy (dict_get copy (ustr ''date'')) \<Longrightarrow>
           \<exists>s. dict_get copy (ustr ''date'') = PStr s \<and> s \<noteq> []"
    using res date1 oke
    by (auto simp: dict_get_dict_set field_key_neq' split: if_splits sum.splits option.splits)
  show "ok \<Longrightarrow> truthy (dict_get copy (ustr ''time_slot'')) \<Longrightarrow>
           \<exists>s. dict_get copy (ustr ''time_slot'') = PStr s \<and> s \<noteq> []"
    using res
    by (auto simp: dict_get_dict_set split: if_splits sum.splits option.splits
             dest: normalize_time_slot_str_only)
qed


lemma decimal_not_space: "is_decimal c \<Longrightarrow> c \<noteq> 0x0A"
  by (auto simp: is_decimal_def decimal_value_def decimal_blocks_def)

lemma validate_phone_number_accepted:
  assumes "validate_phone_number raw = (True, s)"
  shows "accepted_phone_text s"
proof -
  define c where "c = strip_country_code (filter (\<lambda>c. \<not> (is_space c \<or> c = 0x2D)) raw)"
  from assms have s: "s = c" and p: "phone_pattern c"
    unfolding validate_phone_number_def Let_def c_def by (auto split: if_splits)
  have "set c \<subseteq> set (filter (\<lambda>c. \<not> (is_space c \<or> c = 0x2D)) raw)"
    unfolding c_def strip_country_code_def by (auto dest: in_set_dropD)
  then have "0x0A \<notin> set c" by (auto simp: is_space_def)
  then have "\<not> (c \<noteq> [] \<and> last c = 0x0A)" by (metis last_in_set)
  with p have "length c = 8 \<and> 0x32 \<le> hd c \<and> hd c \<le> 0x39 \<and> list_all is_decimal (tl c)"
    unfolding phone_pattern_def re_match_dollar_def by blast
  then show ?thesis unfolding s accepted_phone_text_def .
qed

lemma upper_char_alnum: "is_ascii_alnum c \<Longrightarrow> is_ascii_alnum (upper_char c)"
  by (auto simp: is_ascii_alnum_def is_ascii_letter_def upper_char_def)

lemma upper_char_idem: "upper_char (upper_char c) = upper_char c"
  by (auto simp: upper_char_def)

lemma policy_full_upper:
  "6 \<le> length t \<and> length t \<le> 20 \<and> list_all is_ascii_alnum t \<Longrightarrow>
   6 \<le> length (py_upper t) \<and> length (py_upper t) \<le> 20 \<and> list_all is_ascii_alnum (py_upper t)"
  by (simp add: py_upper_def list_all_iff upper_char_alnum)

lemma policy_pattern_upper: "policy_pattern raw \<Longrightarrow> policy_pattern (py_upper raw)"
proof -
  assume "policy_pattern raw"
  then consider (a) "6 \<le> length raw \<and> length raw \<le> 20 \<and> list_all is_ascii_alnum raw"
    | (b) "raw \<noteq> []" "last raw = 0x0A"
          "6 \<le> length (butlast raw) \<and> length (butlast raw) \<le> 20 \<and> list_all is_ascii_alnum (butlast raw)"
    unfolding policy_pattern_def re_match_dollar_def by blast
  then show ?thesis
  proof cases
    case a
    from policy_full_upper[OF a] show ?thesis
      unfolding policy_pattern_def re_match_dollar_def by blast
  next
    case b
    have "py_upper raw \<noteq> []" using b(1) by (simp add: py_upper_def)
    moreover have "last (py_upper raw) = 0x0A"
      using b(1,2) by (simp add: py_upper_def last_map upper_char_def)
    moreover have "butlast (py_upper raw) = py_upper (butlast raw)"
      by (simp add: py_upper_def map_butlast)
    ultimately show ?thesis
      using policy_full_upper[OF b(3)]
      unfolding policy_pattern_def re_match_dollar_def by simp
  qed
qed

lemma validate_policy_number_fixed:
  assumes "validate_policy_number raw = (True, s)"
  shows "validate_policy_number s = (True, s)"
proof -
  from assms have r: "raw \<noteq> []" "policy_pattern raw" "s = py_upper raw"
    unfolding validate_policy_number_def by (auto split: if_splits)
  have "py_upper s = s" unfolding r(3) by (simp add: py_upper_def upper_char_idem)
  moreover have "s \<noteq> []" using r(1,3) by (simp add: py_upper_def)
  moreover have "policy_pattern s" unfolding r(3) using r(2) by (rule policy_pattern_upper)
  ultimately show ?thesis by (simp add: validate_policy_number_def)
qed

lemma catalog_nonempty: "t \<in> set get_clinic_appointment_types \<Longrightarrow> t \<noteq> []"
  by (auto simp: get_clinic_appointment_types_def)

lemma validate_appointment_type_ok:
  assumes "validate_appointment_type v get_clinic_appointment_types = Inr (True, r)"
  shows "booking_type_ok (PStr r)"
proof -
  have "r \<noteq> []"
  proof (cases v)
    case (PStr a)
    with assms show ?thesis
      by (auto split: if_splits option.splits dest: find_Some_iff[THEN iffD1] catalog_nonempty)
         (metis catalog_nonempty find_Some_iff nth_mem)
  qed (use assms in \<open>auto split: if_splits\<close>)
  then show ?thesis
    by (auto simp: booking_type_ok_def split: option.splits)
qed


lemma ensure_patient_ok:
  "patient_info_ok s \<Longrightarrow> \<exists>p. ensure_attr new_PatientInfo s = Obj p \<and> patient_info_ok (Obj p)"
  by (cases s) (auto simp: ensure_attr_def new_PatientInfo_def name_ok_def age_ok_def gender_ok_def)

lemma ensure_time_ok:
  "available_time_ok s \<Longrightarrow> \<exists>p. ensure_attr new_PreferredTime s = Obj p \<and> available_time_ok (Obj p)"
  by (cases s) (auto simp: ensure_attr_def new_PreferredTime_def)

lemma patient_stored_ok:
  assumes v: "validate_patient_info d = Inr (True, errs, copy)"
    and dist: "distinct (map fst d)"
    and old: "patient_info_ok (Obj p)"
    and run: "setattr_items setattr_PatientInfo (Obj p) copy = Inr t"
  shows "patient_info_ok t"
proof -
  from validate_patient_info_facts(4)[OF v] obtain n where
    n: "truthy (dict_get d (ustr ''gender'')) \<longrightarrow> n \<in> set valid_genders"
    and copy: "copy = (if truthy (dict_get d (ustr ''gender''))
                      then dict_set d (ustr ''gender'') (PStr n) else d)"
    by auto
  have keys: "map fst copy = map fst d"
    unfolding copy by (simp add: keys_dict_set_truthy)
  then have dc: "distinct (map fst copy)" using dist by simp
  have t: "t = Obj \<lparr>name = picked copy (ustr ''name'') (name p),
                   age = picked copy (ustr ''age'') (age p),
                   gender = picked copy (ustr ''gender'') (gender p)\<rparr>"
    using dc run by (rule setattr_items_PatientInfo)
  have gn: "dict_get copy (ustr ''name'') = dict_get d (ustr ''name'')"
    and ga: "dict_get copy (ustr ''age'') = dict_get d (ustr ''age'')"
    unfolding copy by (simp_all add: dict_get_dict_set field_key_neq')
  have "name_ok (picked copy (ustr ''name'') (name p))"
    using validate_patient_info_facts(2)[OF v] old
    by (auto simp: picked_def gn name_ok_def)
  moreover have "age_ok (picked copy (ustr ''age'') (age p))"
    using validate_patient_info_facts(3)[OF v] old
    by (auto simp: picked_def ga)
  moreover have "gender_ok (picked copy (ustr ''gender'') (gender p))"
    using n old unfolding copy
    by (auto simp: picked_def dict_get_dict_set gender_ok_def)
  ultimately show ?thesis unfolding t by simp
qed

lemma time_stored_ok:
  assumes v: "validate_preferred_time clk d = Inr (True, errs, copy)"
    and dist: "distinct (map fst d)"
    and old: "available_time_ok (Obj p)"
    and run: "setattr_items setattr_PreferredTime (Obj p) copy = Inr t"
  shows "available_time_ok t"
proof -
  have dc: "distinct (map fst copy)"
    using validate_preferred_time_facts(2)[OF v] dist by simp
  have t: "t = Obj \<lparr>date = picked copy (ustr ''date'') (date p),
                   time_slot = picked copy (ustr ''time_slot'') (time_slot p)\<rparr>"
    using dc run by (rule setattr_items_PreferredTime)
  have "text_ok (picked copy (ustr ''date'') (date p))"
    using validate_preferred_time_facts(3)[OF v] old by (auto simp: picked_def)
  moreover have "text_ok (picked copy (ustr ''time_slot'') (time_slot p))"
    using validate_preferred_time_facts(4)[OF v] old by (auto simp: picked_def)
  ultimately show ?thesis unfolding t by simp
qed

lemma item_valid:
  assumes run: "merge_item clk (key, value) (m, e) = Inr (m1, e1)"
    and inv: "entities_valid m"
    and wf: "case value of PDict d \<Rightarrow> distinct (map fst d) | _ \<Rightarrow> True"
  shows "entities_valid m1"
proof (rule merge_item_cases[where v="value" and k=key])
  assume "\<not> truthy value"
  then show ?thesis using run inv by (simp add: merge_item_skip)
next
  assume "truthy value" "key = ustr ''booking_type''"
  then show ?thesis using run inv
    by (auto simp: merge_item_booking entities_valid_def validate_appointment_type_ok
             split: sum.splits prod.splits if_splits)
next
  assume "truthy value" "key = ustr ''phone_number''"
  then show ?thesis using run inv
    by (auto simp: merge_item_phone entities_valid_def validate_phone_number_accepted
             split: sum.splits prod.splits if_splits)
next
  assume "truthy value" "key = ustr ''policy_number''"
  then show ?thesis using run inv
    by (auto simp: merge_item_policy entities_valid_def validate_policy_number_fixed
             split: sum.splits prod.splits if_splits)
next
  fix d assume d: "d \<noteq> []" "key = ustr ''patient_info''" "value = PDict d"
  from inv have "patient_info_ok (patient_info m)" by (simp add: entities_valid_def)
  from ensure_patient_ok[OF this] obtain p where
    p: "ensure_attr new_PatientInfo (patient_info m) = Obj p" "patient_info_ok (Obj p)"
    by blast
  from run d obtain ok errs copy where v: "validate_patient_info d = Inr (ok, errs, copy)"
    by (auto simp: merge_item_patient split: sum.splits)
  show ?thesis
  proof (cases ok)
    case False
    then have "m1 = m\<lparr>patient_info := Obj p\<rparr>"
      using run d v p(1) by (simp add: merge_item_patient)
    then show ?thesis using inv p(2) by (simp add: entities_valid_def)
  next
    case True
    then obtain t where t: "setattr_items setattr_PatientInfo (Obj p) copy = Inr t"
      and m1: "m1 = m\<lparr>patient_info := t\<rparr>"
      using run d v p(1) by (auto simp: merge_item_patient split: sum.splits)
    have v': "validate_patient_info d = Inr (True, errs, copy)" using v True by simp
    have dist: "distinct (map fst d)" using wf d by simp
    have "patient_info_ok t" using v' dist p(2) t by (rule patient_stored_ok)
    then show ?thesis using inv m1 by (simp add: entities_valid_def)
  qed
next
  fix d assume d: "d \<noteq> []" "key = ustr ''available_time''" "value = PDict d"
  from inv have "available_time_ok (available_time m)" by (simp add: entities_valid_def)
  from ensure_time_ok[OF this] obtain p where
    p: "ensure_attr new_PreferredTime (available_time m) = Obj p" "available_time_ok (Obj p)"
    by blast
  from run d obtain ok errs copy where v: "validate_preferred_time clk d = Inr (ok, errs, copy)"
    by (auto simp: merge_item_time split: sum.splits)
  show ?thesis
  proof (cases ok)
    case False
    then have "m1 = m\<lparr>available_time := Obj p\<rparr>"
      using run d v p(1) by (simp add: merge_item_time)
    then show ?thesis using inv p(2) by (simp add: entities_valid_def)
  next
    case True
    then obtain t where t: "setattr_items setattr_PreferredTime (Obj p) copy = Inr t"
      and m1: "m1 = m\<lparr>available_time := t\<rparr>"
      using run d v p(1) by (auto simp: merge_item_time split: sum.splits)
    have v': "validate_preferred_time clk d = Inr (True, errs, copy)" using v True by simp
    have dist: "distinct (map fst d)" using wf d by simp
    have "available_time_ok t" using v' dist p(2) t by (rule time_stored_ok)
    then show ?thesis using inv m1 by (simp add: entities_valid_def)
  qed
next
  assume "truthy value" "key \<noteq> ustr ''booking_type''" "key \<noteq> ustr ''phone_number''"
    "key \<noteq> ustr ''policy_number''" "\<not> (key = ustr ''patient_info'' \<and> is_dict value)"
    "\<not> (key = ustr ''available_time'' \<and> is_dict value)"
  then show ?thesis using run inv by (simp add: merge_item_other)
qed

lemma items_valid:
  "merge_items clk M (m, e) = Inr (m', e') \<Longrightarrow> entities_valid m \<Longrightarrow> dicts_well_formed M \<Longrightarrow>
   entities_valid m'"
proof (induction M arbitrary: m e)
  case Nil
  then show ?case by simp
next
  case (Cons item M)
  obtain key v where item: "item = (key, v)" by (cases item)
  from Cons.prems(1) item obtain m1 e1 where
    s1: "merge_item clk (key, v) (m, e) = Inr (m1, e1)"
    and r1: "merge_items clk M (m1, e1) = Inr (m', e')"
    by (auto split: sum.splits)
  from Cons.prems(3) item have wf: "case v of PDict d \<Rightarrow> distinct (map fst d) | _ \<Rightarrow> True"
    and wfM: "dicts_well_formed M"
    by (simp_all add: dicts_well_formed_def)
  from item_valid[OF s1 Cons.prems(2) wf] have "entities_valid m1" .
  from Cons.IH[OF r1 this wfM] show ?case .
qed

text \<open>
  Claim C6, amended (stored-value validation invariant of the merge). If every stored field
  of the entities is absent or holds a value that passed its validator (\<open>entities_valid\<close>:
  appointment type, policy number, name and age accepted by their validators, gender one of
  the three canonical values, telephone number a text the telephone validator returns on
  acceptance, date and time slot a text that is not empty), and the dicts of the incoming map
  have distinct keys, then the entities returned by the merge satisfy the same. In particular
  the stored gender is absent or one of the canonical values.
\<close>

theorem merge_preserves_validity:
  assumes "entities_valid E" and "dicts_well_formed M"
    and "merge_entities clk E M = Inr (E', errors)"
  shows "entities_valid E'
       \<and> (\<forall>p. patient_info E' = Obj p \<longrightarrow> gender p = PNone \<or> gender p \<in> PStr ` set valid_genders)"
proof -
  from assms(3) have "merge_items clk M (E, []) = Inr (E', errors)"
    by (simp add: merge_entities_def)
  from items_valid[OF this assms(1,2)] have v: "entities_valid E'" .
  then have "\<forall>p. patient_info E' = Obj p \<longrightarrow> gender p = PNone \<or> gender p \<in> PStr ` set valid_genders"
    by (auto simp: entities_valid_def gender_ok_def)
  with v show ?thesis by simp
qed


lemmas entities_eval =
  entities_valid_def booking_type_ok_def accepted_phone_text_def name_ok_def age_ok_def
  gender_ok_def dicts_well_formed_def update_entities_def update_item_def
  setattr_BookingEntities_def example_conversation_def

theorem merge_preserves_validity_witness:
  "entities_valid new_BookingEntities
   \<and> dicts_well_formed
       [(ustr ''phone_number'', PStr (ustr ''+852 9123 4567'')),
        (ustr ''patient_info'', PDict [(ustr ''name'', PStr (ustr ''Alice'')), (ustr ''gender'', PStr (ustr ''M''))])]
   \<and> merge_entities example_clock new_BookingEntities
       [(ustr ''phone_number'', PStr (ustr ''+852 9123 4567'')),
        (ustr ''patient_info'', PDict [(ustr ''name'', PStr (ustr ''Alice'')), (ustr ''gender'', PStr (ustr ''M''))])]
     = Inr (new_BookingEntities
              \<lparr>patient_info := Obj \<lparr>name = PStr (ustr ''Alice''), age = PNone, gender = PStr zh_male\<rparr>,
               phone_number := PStr (ustr ''91234567'')\<rparr>, [])
   \<and> entities_valid (new_BookingEntities
              \<lparr>patient_info := Obj \<lparr>name = PStr (ustr ''Alice''), age = PNone, gender = PStr zh_male\<rparr>,
               phone_number := PStr (ustr ''91234567'')\<rparr>)"
proof -
  have a: "entities_valid new_BookingEntities"
    by (simp add: entities_eval new_BookingEntities_def new_PatientInfo_def new_PreferredTime_def)
  have b: "dicts_well_formed
       [(ustr ''phone_number'', PStr (ustr ''+852 9123 4567'')),
        (ustr ''patient_info'', PDict [(ustr ''name'', PStr (ustr ''Alice'')), (ustr ''gender'', PStr (ustr ''M''))])]"
    by (simp add: dicts_well_formed_def ustr_def)
  have c: "merge_entities example_clock new_BookingEntities
       [(ustr ''phone_number'', PStr (ustr ''+852 9123 4567'')),
        (ustr ''patient_info'', PDict [(ustr ''name'', PStr (ustr ''Alice'')), (ustr ''gender'', PStr (ustr ''M''))])]
     = Inr (new_BookingEntities
              \<lparr>patient_info := Obj \<lparr>name = PStr (ustr ''Alice''), age = PNone, gender = PStr zh_male\<rparr>,
               phone_number := PStr (ustr ''91234567'')\<rparr>, [])"
    by (simp add: string_eval validator_eval merge_eval)
  from merge_preserves_validity [OF a b c] have "entities_valid (new_BookingEntities
              \<lparr>patient_info := Obj \<lparr>name = PStr (ustr ''Alice''), age = PNone, gender = PStr zh_male\<rparr>,
               phone_number := PStr (ustr ''91234567'')\<rparr>)"
    by (rule conjunct1)
  with a b c show ?thesis by simp
qed

text \<open>
  Claim C6 as stated fails for the entity-update step of the conversation manager:
  \<^verbatim>\<open>update_entities\<close> runs no validator. On a new conversation, whose entities satisfy the
  invariant, it stores the telephone number \<^verbatim>\<open>"abc"\<close>, which the telephone validator rejects,
  and the raw gender \<^verbatim>\<open>"male"\<close>, which is not a canonical value.
\<close>

theorem update_entities_stores_unvalidated:
  "entities_valid (entities example_conversation)
   \<and> update_entities example_conversation
        [(ustr ''phone_number'', PStr (ustr ''abc'')),
         (ustr ''patient_info'', PDict [(ustr ''gender'', PStr (ustr ''male''))])]
      = (example_conversation
           \<lparr>entities := new_BookingEntities
              \<lparr>patient_info := Obj \<lparr>name = PNone, age = PNone, gender = PStr (ustr ''male'')\<rparr>,
               phone_number := PStr (ustr ''abc'')\<rparr>\<rparr>, None)
   \<and> \<not> entities_valid (new_BookingEntities
              \<lparr>patient_info := Obj \<lparr>name = PNone, age = PNone, gender = PStr (ustr ''male'')\<rparr>,
               phone_number := PStr (ustr ''abc'')\<rparr>)
   \<and> validate_phone_number (ustr ''abc'')
       = (False, ustr ''Please provide a valid Hong Kong phone number.'')
   \<and> PStr (ustr ''male'') \<notin> PStr ` set valid_genders"
  by (simp add: entities_eval string_eval validator_eval new_BookingEntities_def new_PatientInfo_def
      new_PreferredTime_def setattr_PatientInfo_def)

section \<open>Results on the composite keys\<close>











section \<open>Results on the merger on the store\<close>

text \<open>
  The loops on the store and on values go the same way. Assigning into the sub-object at an
  address changes the object at that address and no other.
\<close>

lemma setattr_items_store_obj:
  assumes "a < length objs"
  shows "\<exists>objs' err. setattr_items_store setter (Obj a) d objs = (objs', err)
           \<and> length objs' = length objs \<and> (\<forall>i. i \<noteq> a \<longrightarrow> objs' ! i = objs ! i)
           \<and> (err = None \<longrightarrow> setattr_items setter (Obj (objs ! a)) d = Inr (Obj (objs' ! a)))
           \<and> (\<forall>e. err = Some e \<longrightarrow> setattr_items setter (Obj (objs ! a)) d = Inl e)"
  using assms
proof (induction d arbitrary: objs)
  case Nil
  then show ?case by simp
next
  case (Cons kv d)
  obtain k v where kv: "kv = (k, v)" by (cases kv)
  show ?case
  proof (cases "truthy v")
    case False
    with Cons.IH[OF Cons.prems] kv show ?thesis by simp
  next
    case True
    show ?thesis
    proof (cases "setter (objs ! a) k v")
      case (Inl e)
      with True kv show ?thesis by simp
    next
      case (Inr p')
      have len: "a < length (objs[a := p'])" using Cons.prems by simp
      from Cons.IH[OF len] obtain objs' err where
        r: "setattr_items_store setter (Obj a) d (objs[a := p']) = (objs', err)"
        "length objs' = length (objs[a := p'])"
        "\<forall>i. i \<noteq> a \<longrightarrow> objs' ! i = objs[a := p'] ! i"
        "err = None \<longrightarrow> setattr_items setter (Obj (objs[a := p'] ! a)) d = Inr (Obj (objs' ! a))"
        "\<forall>e. err = Some e \<longrightarrow> setattr_items setter (Obj (objs[a := p'] ! a)) d = Inl e"
        by blast
      have pa: "objs[a := p'] ! a = p'" using Cons.prems by simp
      show ?thesis
        using True kv Inr r pa by auto
    qed
  qed
qed

lemma setattr_items_store_val:
  "\<exists>err. setattr_items_store setter (Val w) d objs = (objs, err)
     \<and> (err = None \<longrightarrow> setattr_items setter (Val w) d = Inr (Val w))
     \<and> (\<forall>e. err = Some e \<longrightarrow> setattr_items setter (Val w) d = Inl e)"
  by (induction d) auto


lemma attr_truthy_read [simp]: "attr_truthy (read_attr objs a) = attr_truthy a"
  by (cases a) simp_all

lemma merge_item_store_skip:
  "\<not> truthy v \<Longrightarrow> merge_item_store clk (k, v) m (st, errs) = ((st, errs), None)"
  by (simp add: merge_item_store_def Let_def)

lemma merge_item_store_other:
  assumes "k \<noteq> ustr ''booking_type''" "k \<noteq> ustr ''phone_number''" "k \<noteq> ustr ''policy_number''"
    and "\<not> (k = ustr ''patient_info'' \<and> is_dict v)"
    and "\<not> (k = ustr ''available_time'' \<and> is_dict v)"
  shows "merge_item_store clk (k, v) m (st, errs) = ((st, errs), None)"
  using assms by (auto simp: merge_item_store_def Let_def)

lemma merge_item_store_booking:
  assumes "truthy v"
  shows "merge_item_store clk (ustr ''booking_type'', v) m (st, errs) =
     (case validate_appointment_type v get_clinic_appointment_types of
        Inl e \<Rightarrow> ((st, errs), Some e)
      | Inr (is_valid, result) \<Rightarrow>
          if is_valid
          then ((st\<lparr>BookingEntities_objects :=
                     (BookingEntities_objects st)[m := (BookingEntities_objects st ! m)\<lparr>booking_type := PStr result\<rparr>]\<rparr>,
                 errs), None)
          else ((st, errs @ [ustr ''booking_type: '' @ result]), None))"
  using assms by (simp add: merge_item_store_def Let_def)

lemma merge_item_store_phone:
  assumes "truthy v"
  shows "merge_item_store clk (ustr ''phone_number'', v) m (st, errs) =
     (case validate_phone_number (py_str v) of
        (is_valid, result) \<Rightarrow>
          if is_valid
          then ((st\<lparr>BookingEntities_objects :=
                     (BookingEntities_objects st)[m := (BookingEntities_objects st ! m)\<lparr>phone_number := PStr result\<rparr>]\<rparr>,
                 errs), None)
          else ((st, errs @ [ustr ''phone_number: '' @ result]), None))"
  using assms by (simp add: merge_item_store_def Let_def key_neq')

lemma merge_item_store_policy:
  assumes "truthy v"
  shows "merge_item_store clk (ustr ''policy_number'', v) m (st, errs) =
     (case validate_policy_number (py_str v) of
        (is_valid, result) \<Rightarrow>
          if is_valid
          then ((st\<lparr>BookingEntities_objects :=
                     (BookingEntities_objects st)[m := (BookingEntities_objects st ! m)\<lparr>policy_number := PStr result\<rparr>]\<rparr>,
                 errs), None)
          else ((st, errs @ [ustr ''policy_number: '' @ result]), None))"
  using assms by (simp add: merge_item_store_def Let_def key_neq')

lemma merge_item_store_patient:
  assumes "d \<noteq> []"
  shows "merge_item_store clk (ustr ''patient_info'', PDict d) m (st, errs) =
     (case ensure_store new_PatientInfo (PatientInfo_objects st)
             (patient_info (BookingEntities_objects st ! m)) of
        (ps, target) \<Rightarrow>
          (case validate_patient_info d of
             Inl e \<Rightarrow>
               ((st\<lparr>PatientInfo_objects := ps,
                     BookingEntities_objects :=
                       (BookingEntities_objects st)[m := (BookingEntities_objects st ! m)\<lparr>patient_info := target\<rparr>]\<rparr>,
                 errs), Some e)
           | Inr (is_valid, errors, patient_copy) \<Rightarrow>
               if \<not> is_valid
               then ((st\<lparr>PatientInfo_objects := ps,
                     BookingEntities_objects :=
                       (BookingEntities_objects st)[m := (BookingEntities_objects st ! m)\<lparr>patient_info := target\<rparr>]\<rparr>,
                      errs @ map (\<lambda>error. ustr ''patient_info: '' @ error) errors), None)
               else (case setattr_items_store setattr_PatientInfo target patient_copy ps of
                       (ps', err) \<Rightarrow>
                         ((st\<lparr>PatientInfo_objects := ps',
                              BookingEntities_objects :=
                                (BookingEntities_objects st)[m := (BookingEntities_objects st ! m)\<lparr>patient_info := target\<rparr>]\<rparr>,
                           errs), err))))"
  using assms
  by (simp add: merge_item_store_def Let_def key_neq' split: prod.split sum.split)

lemma merge_item_store_time:
  assumes "d \<noteq> []"
  shows "merge_item_store clk (ustr ''available_time'', PDict d) m (st, errs) =
     (case ensure_store new_PreferredTime (PreferredTime_objects st)
             (available_time (BookingEntities_objects st ! m)) of
        (ts, target) \<Rightarrow>
          (case validate_preferred_time clk d of
             Inl e \<Rightarrow>
               ((st\<lparr>PreferredTime_objects := ts,
                     BookingEntities_objects :=
                       (BookingEntities_objects st)[m := (BookingEntities_objects st ! m)\<lparr>available_time := target\<rparr>]\<rparr>,
                 errs), Some e)
           | Inr (is_valid, errors, time_copy) \<Rightarrow>
               if \<not> is_valid
               then ((st\<lparr>PreferredTime_objects := ts,
                     BookingEntities_objects :=
                       (BookingEntities_objects st)[m := (BookingEntities_objects st ! m)\<lparr>available_time := target\<rparr>]\<rparr>,
                      errs @ map (\<lambda>error. ustr ''available_time: '' @ error) errors), None)
               else (case setattr_items_store setattr_PreferredTime target time_copy ts of
                       (ts', err) \<Rightarrow>
                         ((st\<lparr>PreferredTime_objects := ts',
                              BookingEntities_objects :=
                                (BookingEntities_objects st)[m := (BookingEntities_objects st ! m)\<lparr>available_time := target\<rparr>]\<rparr>,
                           errs), err))))"
  using assms
  by (simp add: merge_item_store_def Let_def key_neq' split: prod.split sum.split)


lemma take_eq_if_same_below:
  assumes "length xs' = length xs" "\<forall>i. i \<noteq> a \<longrightarrow> xs' ! i = xs ! i" "n \<le> a"
  shows "take n xs' = take n xs"
  using assms by (intro nth_equalityI) auto

lemma take_prefix_length:
  assumes "take (length ys) xs = ys"
  shows "length ys \<le> length xs"
proof -
  have "length (take (length ys) xs) = length ys" using assms by simp
  then show ?thesis by (simp add: min_def split: if_splits)
qed

lemma store_extends_length:
  assumes "store_extends st0 st"
  shows "length (PatientInfo_objects st0) \<le> length (PatientInfo_objects st)"
    and "length (PreferredTime_objects st0) \<le> length (PreferredTime_objects st)"
    and "length (BookingEntities_objects st0) \<le> length (BookingEntities_objects st)"
  using assms by (simp_all add: store_extends_def take_prefix_length)

lemma separated_scalar:
  assumes "separated st0 st m"
    and "patient_info b = patient_info (BookingEntities_objects st ! m)"
    and "available_time b = available_time (BookingEntities_objects st ! m)"
  shows "separated st0 (st\<lparr>BookingEntities_objects := (BookingEntities_objects st)[m := b]\<rparr>) m"
  using assms by (simp add: separated_def store_extends_def)

lemma read_scalar:
  assumes "m < length (BookingEntities_objects st)"
  shows "read_entities (st\<lparr>BookingEntities_objects :=
            (BookingEntities_objects st)[m := (BookingEntities_objects st ! m)\<lparr>booking_type := x\<rparr>]\<rparr>) m
           = (read_entities st m)\<lparr>booking_type := x\<rparr>"
    and "read_entities (st\<lparr>BookingEntities_objects :=
            (BookingEntities_objects st)[m := (BookingEntities_objects st ! m)\<lparr>phone_number := x\<rparr>]\<rparr>) m
           = (read_entities st m)\<lparr>phone_number := x\<rparr>"
    and "read_entities (st\<lparr>BookingEntities_objects :=
            (BookingEntities_objects st)[m := (BookingEntities_objects st ! m)\<lparr>policy_number := x\<rparr>]\<rparr>) m
           = (read_entities st m)\<lparr>policy_number := x\<rparr>"
  using assms by (simp_all add: read_entities_def)

lemma ensure_store_cases:
  assumes "ensure_store fresh objs a = (objs', target)"
  obtains "attr_truthy a" "objs' = objs" "target = a"
  | "\<not> attr_truthy a" "objs' = objs @ [fresh]" "target = Obj (length objs)"
  using assms by (auto simp: ensure_store_def split: if_splits)

lemma ensure_store_patient:
  assumes sep: "separated st0 st m"
    and en: "ensure_store new_PatientInfo (PatientInfo_objects st)
               (patient_info (BookingEntities_objects st ! m)) = (ps, target)"
    and st1: "st1 = st\<lparr>PatientInfo_objects := ps,
                     BookingEntities_objects :=
                       (BookingEntities_objects st)[m := (BookingEntities_objects st ! m)\<lparr>patient_info := target\<rparr>]\<rparr>"
  shows "separated st0 st1 m"
    and "read_entities st1 m
           = (read_entities st m)\<lparr>patient_info :=
                ensure_attr new_PatientInfo (patient_info (read_entities st m))\<rparr>"
    and "patient_info (BookingEntities_objects st1 ! m) = target"
    and "PatientInfo_objects st1 = ps"
proof -
  from sep have m: "m < length (BookingEntities_objects st)" by (simp add: separated_def)
  from sep have len: "length (PatientInfo_objects st0) \<le> length (PatientInfo_objects st)"
    by (simp add: separated_def store_extends_length)
  show "patient_info (BookingEntities_objects st1 ! m) = target"
    using m by (simp add: st1)
  show "PatientInfo_objects st1 = ps" by (simp add: st1)
  from en show "separated st0 st1 m"
  proof (cases rule: ensure_store_cases)
    case 1
    then show ?thesis using sep by (simp add: st1 separated_def store_extends_def)
  next
    case 2
    then show ?thesis
      using sep len
      by (cases "available_time (BookingEntities_objects st ! m)")
         (simp_all add: st1 separated_def store_extends_def)
  qed
  from en show "read_entities st1 m
           = (read_entities st m)\<lparr>patient_info :=
                ensure_attr new_PatientInfo (patient_info (read_entities st m))\<rparr>"
  proof (cases rule: ensure_store_cases)
    case 1
    then show ?thesis using m by (simp add: st1 read_entities_def ensure_attr_def)
  next
    case 2
    then show ?thesis using m by (simp add: st1 read_entities_def ensure_attr_def)
  qed
qed

lemma ensure_store_time:
  assumes sep: "separated st0 st m"
    and en: "ensure_store new_PreferredTime (PreferredTime_objects st)
               (available_time (BookingEntities_objects st ! m)) = (ts, target)"
    and st1: "st1 = st\<lparr>PreferredTime_objects := ts,
                     BookingEntities_objects :=
                       (BookingEntities_objects st)[m := (BookingEntities_objects st ! m)\<lparr>available_time := target\<rparr>]\<rparr>"
  shows "separated st0 st1 m"
    and "read_entities st1 m
           = (read_entities st m)\<lparr>available_time :=
                ensure_attr new_PreferredTime (available_time (read_entities st m))\<rparr>"
    and "available_time (BookingEntities_objects st1 ! m) = target"
    and "PreferredTime_objects st1 = ts"
proof -
  from sep have m: "m < length (BookingEntities_objects st)" by (simp add: separated_def)
  from sep have len: "length (PreferredTime_objects st0) \<le> length (PreferredTime_objects st)"
    by (simp add: separated_def store_extends_length)
  show "available_time (BookingEntities_objects st1 ! m) = target"
    using m by (simp add: st1)
  show "PreferredTime_objects st1 = ts" by (simp add: st1)
  from en show "separated st0 st1 m"
  proof (cases rule: ensure_store_cases)
    case 1
    then show ?thesis using sep by (simp add: st1 separated_def store_extends_def)
  next
    case 2
    then show ?thesis
      using sep len
      by (cases "patient_info (BookingEntities_objects st ! m)")
         (simp_all add: st1 separated_def store_extends_def)
  qed
  from en show "read_entities st1 m
           = (read_entities st m)\<lparr>available_time :=
                ensure_attr new_PreferredTime (available_time (read_entities st m))\<rparr>"
  proof (cases rule: ensure_store_cases)
    case 1
    then show ?thesis using m by (simp add: st1 read_entities_def ensure_attr_def)
  next
    case 2
    then show ?thesis using m by (simp add: st1 read_entities_def ensure_attr_def)
  qed
qed

lemma setattr_store_patient:
  assumes sep: "separated st0 st m"
    and run: "setattr_items_store setter (patient_info (BookingEntities_objects st ! m)) d
                (PatientInfo_objects st) = (ps', err)"
  shows "separated st0 (st\<lparr>PatientInfo_objects := ps'\<rparr>) m"
    and "err = None \<longrightarrow>
           setattr_items setter (patient_info (read_entities st m)) d
             = Inr (patient_info (read_entities (st\<lparr>PatientInfo_objects := ps'\<rparr>) m))"
    and "\<forall>e. err = Some e \<longrightarrow> setattr_items setter (patient_info (read_entities st m)) d = Inl e"
    and "read_entities (st\<lparr>PatientInfo_objects := ps'\<rparr>) m
           = (read_entities st m)\<lparr>patient_info :=
                patient_info (read_entities (st\<lparr>PatientInfo_objects := ps'\<rparr>) m)\<rparr>"
proof -
  show "read_entities (st\<lparr>PatientInfo_objects := ps'\<rparr>) m
           = (read_entities st m)\<lparr>patient_info :=
                patient_info (read_entities (st\<lparr>PatientInfo_objects := ps'\<rparr>) m)\<rparr>"
    by (simp add: read_entities_def)
  show "separated st0 (st\<lparr>PatientInfo_objects := ps'\<rparr>) m"
    and "err = None \<longrightarrow>
           setattr_items setter (patient_info (read_entities st m)) d
             = Inr (patient_info (read_entities (st\<lparr>PatientInfo_objects := ps'\<rparr>) m))"
    and "\<forall>e. err = Some e \<longrightarrow> setattr_items setter (patient_info (read_entities st m)) d = Inl e"
  proof (atomize (full), cases "patient_info (BookingEntities_objects st ! m)")
    case (Obj a)
    with sep have a: "length (PatientInfo_objects st0) \<le> a" "a < length (PatientInfo_objects st)"
      by (simp_all add: separated_def)
    from setattr_items_store_obj[OF a(2), of setter d] run Obj
    have r: "length ps' = length (PatientInfo_objects st)"
      "\<forall>i. i \<noteq> a \<longrightarrow> ps' ! i = PatientInfo_objects st ! i"
      "err = None \<longrightarrow> setattr_items setter (Obj (PatientInfo_objects st ! a)) d = Inr (Obj (ps' ! a))"
      "\<forall>e. err = Some e \<longrightarrow> setattr_items setter (Obj (PatientInfo_objects st ! a)) d = Inl e"
      by auto
    have tk: "take (length (PatientInfo_objects st0)) ps'
                = take (length (PatientInfo_objects st0)) (PatientInfo_objects st)"
      using r(1,2) a(1) by (rule take_eq_if_same_below)
    show "separated st0 (st\<lparr>PatientInfo_objects := ps'\<rparr>) m \<and>
      (err = None \<longrightarrow>
       setattr_items setter (patient_info (read_entities st m)) d =
       Inr (patient_info (read_entities (st\<lparr>PatientInfo_objects := ps'\<rparr>) m))) \<and>
      (\<forall>e. err = Some e \<longrightarrow> setattr_items setter (patient_info (read_entities st m)) d = Inl e)"
      using sep Obj a r tk by (simp add: separated_def store_extends_def read_entities_def)
  next
    case (Val w)
    from setattr_items_store_val[of setter w d "PatientInfo_objects st"] run Val
    have r: "ps' = PatientInfo_objects st"
      "err = None \<longrightarrow> setattr_items setter (Val w) d = Inr (Val w)"
      "\<forall>e. err = Some e \<longrightarrow> setattr_items setter (Val w) d = Inl e"
      by auto
    show "separated st0 (st\<lparr>PatientInfo_objects := ps'\<rparr>) m \<and>
      (err = None \<longrightarrow>
       setattr_items setter (patient_info (read_entities st m)) d =
       Inr (patient_info (read_entities (st\<lparr>PatientInfo_objects := ps'\<rparr>) m))) \<and>
      (\<forall>e. err = Some e \<longrightarrow> setattr_items setter (patient_info (read_entities st m)) d = Inl e)"
      using sep Val r by (simp add: separated_def store_extends_def read_entities_def)
  qed
qed

lemma setattr_store_time:
  assumes sep: "separated st0 st m"
    and run: "setattr_items_store setter (available_time (BookingEntities_objects st ! m)) d
                (PreferredTime_objects st) = (ts', err)"
  shows "separated st0 (st\<lparr>PreferredTime_objects := ts'\<rparr>) m"
    and "err = None \<longrightarrow>
           setattr_items setter (available_time (read_entities st m)) d
             = Inr (available_time (read_entities (st\<lparr>PreferredTime_objects := ts'\<rparr>) m))"
    and "\<forall>e. err = Some e \<longrightarrow> setattr_items setter (available_time (read_entities st m)) d = Inl e"
    and "read_entities (st\<lparr>PreferredTime_objects := ts'\<rparr>) m
           = (read_entities st m)\<lparr>available_time :=
                available_time (read_entities (st\<lparr>PreferredTime_objects := ts'\<rparr>) m)\<rparr>"
proof -
  show "read_entities (st\<lparr>PreferredTime_objects := ts'\<rparr>) m
           = (read_entities st m)\<lparr>available_time :=
                available_time (read_entities (st\<lparr>PreferredTime_objects := ts'\<rparr>) m)\<rparr>"
    by (simp add: read_entities_def)
  show "separated st0 (st\<lparr>PreferredTime_objects := ts'\<rparr>) m"
    and "err = None \<longrightarrow>
           setattr_items setter (available_time (read_entities st m)) d
             = Inr (available_time (read_entities (st\<lparr>PreferredTime_objects := ts'\<rparr>) m))"
    and "\<forall>e. err = Some e \<longrightarrow> setattr_items setter (available_time (read_entities st m)) d = Inl e"
  proof (atomize (full), cases "available_time (BookingEntities_objects st ! m)")
    case (Obj a)
    with sep have a: "length (PreferredTime_objects st0) \<le> a" "a < length (PreferredTime_objects st)"
      by (simp_all add: separated_def)
    from setattr_items_store_obj[OF a(2), of setter d] run Obj
    have r: "length ts' = length (PreferredTime_objects st)"
      "\<forall>i. i \<noteq> a \<longrightarrow> ts' ! i = PreferredTime_objects st ! i"
      "err = None \<longrightarrow> setattr_items setter (Obj (PreferredTime_objects st ! a)) d = Inr (Obj (ts' ! a))"
      "\<forall>e. err = Some e \<longrightarrow> setattr_items setter (Obj (PreferredTime_objects st ! a)) d = Inl e"
      by auto
    have tk: "take (length (PreferredTime_objects st0)) ts'
                = take (length (PreferredTime_objects st0)) (PreferredTime_objects st)"
      using r(1,2) a(1) by (rule take_eq_if_same_below)
    show "separated st0 (st\<lparr>PreferredTime_objects := ts'\<rparr>) m \<and>
      (err = None \<longrightarrow>
       setattr_items setter (available_time (read_entities st m)) d =
       Inr (available_time (read_entities (st\<lparr>PreferredTime_objects := ts'\<rparr>) m))) \<and>
      (\<forall>e. err = Some e \<longrightarrow> setattr_items setter (available_time (read_entities st m)) d = Inl e)"
      using sep Obj a r tk by (simp add: separated_def store_extends_def read_entities_def)
  next
    case (Val w)
    from setattr_items_store_val[of setter w d "PreferredTime_objects st"] run Val
    have r: "ts' = PreferredTime_objects st"
      "err = None \<longrightarrow> setattr_items setter (Val w) d = Inr (Val w)"
      "\<forall>e. err = Some e \<longrightarrow> setattr_items setter (Val w) d = Inl e"
      by auto
    show "separated st0 (st\<lparr>PreferredTime_objects := ts'\<rparr>) m \<and>
      (err = None \<longrightarrow>
       setattr_items setter (available_time (read_entities st m)) d =
       Inr (available_time (read_entities (st\<lparr>PreferredTime_objects := ts'\<rparr>) m))) \<and>
      (\<forall>e. err = Some e \<longrightarrow> setattr_items setter (available_time (read_entities st m)) d = Inl e)"
      using sep Val r by (simp add: separated_def store_extends_def read_entities_def)
  qed
qed


lemma merge_item_store_sim:
  assumes sep: "separated st0 st m"
    and run: "merge_item_store clk (k, v) m (st, errs) = ((st', errs'), err)"
  shows "separated st0 st' m
     \<and> (err = None \<longrightarrow> merge_item clk (k, v) (read_entities st m, errs) = Inr (read_entities st' m, errs'))
     \<and> (\<forall>e. err = Some e \<longrightarrow> merge_item clk (k, v) (read_entities st m, errs) = Inl e)"
proof (rule merge_item_cases[where v=v and k=k])
  assume "\<not> truthy v"
  with run sep show ?thesis by (simp add: merge_item_store_skip merge_item_skip)
next
  assume o: "truthy v" "k \<noteq> ustr ''booking_type''" "k \<noteq> ustr ''phone_number''"
    "k \<noteq> ustr ''policy_number''" "\<not> (k = ustr ''patient_info'' \<and> is_dict v)"
    "\<not> (k = ustr ''available_time'' \<and> is_dict v)"
  from run sep show ?thesis
    by (simp add: merge_item_store_other[OF o(2-6)] merge_item_other[OF o(2-6)])
next
  assume t: "truthy v" and k: "k = ustr ''booking_type''"
  from sep have m: "m < length (BookingEntities_objects st)" by (simp add: separated_def)
  show ?thesis
  proof (cases "validate_appointment_type v get_clinic_appointment_types")
    case (Inl e)
    with run t sep show ?thesis
      by (auto simp: k merge_item_store_booking merge_item_booking)
  next
    case (Inr r)
    obtain ok res where r: "r = (ok, res)" by (cases r)
    from run t sep Inr r show ?thesis
      by (cases ok) (auto simp: k merge_item_store_booking merge_item_booking read_scalar[OF m]
                       separated_scalar)
  qed
next
  assume t: "truthy v" and k: "k = ustr ''phone_number''"
  from sep have m: "m < length (BookingEntities_objects st)" by (simp add: separated_def)
  obtain ok res where r: "validate_phone_number (py_str v) = (ok, res)"
    by (cases "validate_phone_number (py_str v)")
  from run t sep r show ?thesis
    by (cases ok) (auto simp: k merge_item_store_phone merge_item_phone read_scalar[OF m]
                     separated_scalar)
next
  assume t: "truthy v" and k: "k = ustr ''policy_number''"
  from sep have m: "m < length (BookingEntities_objects st)" by (simp add: separated_def)
  obtain ok res where r: "validate_policy_number (py_str v) = (ok, res)"
    by (cases "validate_policy_number (py_str v)")
  from run t sep r show ?thesis
    by (cases ok) (auto simp: k merge_item_store_policy merge_item_policy read_scalar[OF m]
                     separated_scalar)
next
  fix d assume d: "d \<noteq> []" and k: "k = ustr ''patient_info''" and v: "v = PDict d"
  obtain ps target where en: "ensure_store new_PatientInfo (PatientInfo_objects st)
      (patient_info (BookingEntities_objects st ! m)) = (ps, target)"
    by (cases "ensure_store new_PatientInfo (PatientInfo_objects st)
      (patient_info (BookingEntities_objects st ! m))")
  define st1 where "st1 = st\<lparr>PatientInfo_objects := ps,
                     BookingEntities_objects :=
                       (BookingEntities_objects st)[m := (BookingEntities_objects st ! m)\<lparr>patient_info := target\<rparr>]\<rparr>"
  note A = ensure_store_patient[OF sep en st1_def]
  note eq = merge_item_store_patient[OF d, of clk m st errs, unfolded en prod.case, folded st1_def]
  show ?thesis
  proof (cases "validate_patient_info d")
    case (Inl e)
    with run have "st' = st1" "errs' = errs" "err = Some e"
      by (simp_all add: k v eq)
    then show ?thesis using A(1) Inl by (simp add: k v merge_item_patient[OF d])
  next
    case (Inr r)
    obtain ok errors copy where r: "r = (ok, errors, copy)" by (cases r)
    show ?thesis
    proof (cases ok)
      case False
      with run Inr r have "st' = st1"
        "errs' = errs @ map (\<lambda>error. ustr ''patient_info: '' @ error) errors" "err = None"
        by (simp_all add: k v eq)
      then show ?thesis using A(1,2) Inr r False by (simp add: k v merge_item_patient[OF d])
    next
      case True
      obtain ps' e' where sa: "setattr_items_store setattr_PatientInfo target copy ps = (ps', e')"
        by (cases "setattr_items_store setattr_PatientInfo target copy ps")
      have upd: "st\<lparr>PatientInfo_objects := ps',
                     BookingEntities_objects :=
                       (BookingEntities_objects st)[m := (BookingEntities_objects st ! m)\<lparr>patient_info := target\<rparr>]\<rparr>
                 = st1\<lparr>PatientInfo_objects := ps'\<rparr>"
        by (simp add: st1_def)
      from run Inr r True sa have res: "st' = st1\<lparr>PatientInfo_objects := ps'\<rparr>" "errs' = errs" "err = e'"
        by (simp_all add: k v merge_item_store_patient[OF d] en upd)
      from sa A(3,4) have sa': "setattr_items_store setattr_PatientInfo
          (patient_info (BookingEntities_objects st1 ! m)) copy (PatientInfo_objects st1) = (ps', e')"
        by simp
      note B = setattr_store_patient[OF A(1) sa', folded res(1)]
      define q where "q = patient_info (read_entities st' m)"
      have ens: "patient_info (read_entities st1 m)
                   = ensure_attr new_PatientInfo (patient_info (read_entities st m))"
        by (simp add: A(2))
      have rd: "read_entities st' m = (read_entities st m)\<lparr>patient_info := q\<rparr>"
        using B(4) by (simp add: A(2) q_def[symmetric])
      have ok: "err = None \<longrightarrow> setattr_items setattr_PatientInfo
                  (ensure_attr new_PatientInfo (patient_info (read_entities st m))) copy = Inr q"
        using B(2) by (simp add: ens res(3) q_def)
      have bad: "\<forall>e. err = Some e \<longrightarrow> setattr_items setattr_PatientInfo
                  (ensure_attr new_PatientInfo (patient_info (read_entities st m))) copy = Inl e"
        using B(3) by (simp add: ens res(3))
      show ?thesis
        using B(1) ok bad Inr r True
        by (simp add: k v merge_item_patient[OF d] rd res(2))
    qed
  qed
next
  fix d assume d: "d \<noteq> []" and k: "k = ustr ''available_time''" and v: "v = PDict d"
  obtain ts target where en: "ensure_store new_PreferredTime (PreferredTime_objects st)
      (available_time (BookingEntities_objects st ! m)) = (ts, target)"
    by (cases "ensure_store new_PreferredTime (PreferredTime_objects st)
      (available_time (BookingEntities_objects st ! m))")
  define st1 where "st1 = st\<lparr>PreferredTime_objects := ts,
                     BookingEntities_objects :=
                       (BookingEntities_objects st)[m := (BookingEntities_objects st ! m)\<lparr>available_time := target\<rparr>]\<rparr>"
  note A = ensure_store_time[OF sep en st1_def]
  note eq = merge_item_store_time[OF d, of clk m st errs, unfolded en prod.case, folded st1_def]
  show ?thesis
  proof (cases "validate_preferred_time clk d")
    case (Inl e)
    with run have "st' = st1" "errs' = errs" "err = Some e"
      by (simp_all add: k v eq)
    then show ?thesis using A(1) Inl by (simp add: k v merge_item_time[OF d])
  next
    case (Inr r)
    obtain ok errors copy where r: "r = (ok, errors, copy)" by (cases r)
    show ?thesis
    proof (cases ok)
      case False
      with run Inr r have "st' = st1"
        "errs' = errs @ map (\<lambda>error. ustr ''available_time: '' @ error) errors" "err = None"
        by (simp_all add: k v eq)
      then show ?thesis using A(1,2) Inr r False by (simp add: k v merge_item_time[OF d])
    next
      case True
      obtain ts' e' where sa: "setattr_items_store setattr_PreferredTime target copy ts = (ts', e')"
        by (cases "setattr_items_store setattr_PreferredTime target copy ts")
      have upd: "st\<lparr>PreferredTime_objects := ts',
                     BookingEntities_objects :=
                       (BookingEntities_objects st)[m := (BookingEntities_objects st ! m)\<lparr>available_time := target\<rparr>]\<rparr>
                 = st1\<lparr>PreferredTime_objects := ts'\<rparr>"
        by (simp add: st1_def)
      from run Inr r True sa have res: "st' = st1\<lparr>PreferredTime_objects := ts'\<rparr>" "errs' = errs" "err = e'"
        by (simp_all add: k v merge_item_store_time[OF d] en upd)
      from sa A(3,4) have sa': "setattr_items_store setattr_PreferredTime
          (available_time (BookingEntities_objects st1 ! m)) copy (PreferredTime_objects st1) = (ts', e')"
        by simp
      note B = setattr_store_time[OF A(1) sa', folded res(1)]
      define q where "q = available_time (read_entities st' m)"
      have ens: "available_time (read_entities st1 m)
                   = ensure_attr new_PreferredTime (available_time (read_entities st m))"
        by (simp add: A(2))
      have rd: "read_entities st' m = (read_entities st m)\<lparr>available_time := q\<rparr>"
        using B(4) by (simp add: A(2) q_def[symmetric])
      have ok: "err = None \<longrightarrow> setattr_items setattr_PreferredTime
                  (ensure_attr new_PreferredTime (available_time (read_entities st m))) copy = Inr q"
        using B(2) by (simp add: ens res(3) q_def)
      have bad: "\<forall>e. err = Some e \<longrightarrow> setattr_items setattr_PreferredTime
                  (ensure_attr new_PreferredTime (available_time (read_entities st m))) copy = Inl e"
        using B(3) by (simp add: ens res(3))
      show ?thesis
        using B(1) ok bad Inr r True
        by (simp add: k v merge_item_time[OF d] rd res(2))
    qed
  qed
qed


lemma merge_items_store_sim:
  assumes "separated st0 st m"
    and "merge_items_store clk M m (st, errs) = ((st', errs'), err)"
  shows "separated st0 st' m
     \<and> (err = None \<longrightarrow> merge_items clk M (read_entities st m, errs) = Inr (read_entities st' m, errs'))
     \<and> (\<forall>e. err = Some e \<longrightarrow> merge_items clk M (read_entities st m, errs) = Inl e)"
  using assms
proof (induction M arbitrary: st errs)
  case Nil
  then show ?case by simp
next
  case (Cons item M)
  obtain k v where item: "item = (k, v)" by (cases item)
  obtain st1 errs1 err1 where
    s1: "merge_item_store clk (k, v) m (st, errs) = ((st1, errs1), err1)"
    by (metis surj_pair)
  note I = merge_item_store_sim[OF Cons.prems(1) s1]
  show ?case
  proof (cases err1)
    case None
    with Cons.prems(2) item s1
    have r: "merge_items_store clk M m (st1, errs1) = ((st', errs'), err)" by simp
    from I have sep1: "separated st0 st1 m" by simp
    from Cons.IH[OF sep1 r] I None show ?thesis by (simp add: item)
  next
    case (Some e)
    with Cons.prems(2) item s1 have "st' = st1" "errs' = errs1" "err = Some e" by simp_all
    with I Some show ?thesis by (simp add: item)
  qed
qed

lemma copy_deep_separated:
  assumes "entities_in_store st r" and "copy_deep st r = (st1, m)"
  shows "separated st st1 m" and "read_entities st1 m = read_entities st r"
proof -
  show "separated st st1 m"
    using assms
    by (cases "patient_info (BookingEntities_objects st ! r)";
        cases "available_time (BookingEntities_objects st ! r)")
       (auto simp: copy_deep_def Let_def separated_def store_extends_def entities_in_store_def)
  show "read_entities st1 m = read_entities st r"
    using assms
    by (cases "patient_info (BookingEntities_objects st ! r)";
        cases "available_time (BookingEntities_objects st ! r)")
       (auto simp: copy_deep_def Let_def read_entities_def entities_in_store_def nth_append)
qed

lemma prefix_nth:
  assumes "take (length xs) xs' = xs" and "i < length xs"
  shows "xs' ! i = xs ! i"
  using assms by (metis nth_take)

lemma store_extends_read:
  assumes "store_extends st st'" and "entities_in_store st r"
  shows "read_entities st' r = read_entities st r"
proof -
  from assms have b: "BookingEntities_objects st' ! r = BookingEntities_objects st ! r"
    by (simp add: store_extends_def entities_in_store_def prefix_nth)
  have p: "read_attr (PatientInfo_objects st') (patient_info (BookingEntities_objects st ! r))
         = read_attr (PatientInfo_objects st) (patient_info (BookingEntities_objects st ! r))"
    using assms
    by (cases "patient_info (BookingEntities_objects st ! r)")
       (simp_all add: store_extends_def entities_in_store_def prefix_nth)
  have t: "read_attr (PreferredTime_objects st') (available_time (BookingEntities_objects st ! r))
         = read_attr (PreferredTime_objects st) (available_time (BookingEntities_objects st ! r))"
    using assms
    by (cases "available_time (BookingEntities_objects st ! r)")
       (simp_all add: store_extends_def entities_in_store_def prefix_nth)
  show ?thesis by (simp add: read_entities_def b p t)
qed

lemma separated_in_store: "separated st0 st m \<Longrightarrow> entities_in_store st m"
  by (cases "patient_info (BookingEntities_objects st ! m)";
      cases "available_time (BookingEntities_objects st ! m)")
     (simp_all add: separated_def entities_in_store_def)

lemmas store_eval =
  example_store_def example_store_after_def merge_entities_store_def copy_deep_def
  merge_item_store_def ensure_store_def entities_in_store_def read_entities_def store_extends_def

text \<open>
  Claim C10 (the merge does not touch its input). Let \<open>current_entities\<close> be the address of a
  \<^verbatim>\<open>BookingEntities\<close> object in the store \<open>st\<close>, and let \<^verbatim>\<open>merge_entities\<close> be called on it with any
  incoming map. Whether the call returns or raises an exception, every object that was in
  the store before the call is in the store after it with the same content in every field;
  in particular the object at \<open>current_entities\<close> and its sub-objects read as they did
  before. If the call returns, the object \<^verbatim>\<open>merged\<close> it returns is an object made during the
  call, so it is not the object handed in, and it holds the entities that the merge on values
  computes from the entities handed in; if the call raises an exception, so does the merge on
  values. The caller, \<^verbatim>\<open>extract_and_merge\<close>, then assigns the returned object to
  \<^verbatim>\<open>conversation.entities\<close>: the record held before is replaced, not changed.
\<close>

theorem merge_leaves_input_unchanged:
  assumes "entities_in_store st current_entities"
    and "merge_entities_store clk st current_entities new_entities = (st', result)"
  shows "store_extends st st'
     \<and> read_entities st' current_entities = read_entities st current_entities
     \<and> (\<forall>merged all_errors. result = Returned (merged, all_errors) \<longrightarrow>
          length (BookingEntities_objects st) \<le> merged \<and> entities_in_store st' merged
          \<and> merge_entities clk (read_entities st current_entities) new_entities
              = Inr (read_entities st' merged, all_errors))
     \<and> (\<forall>e. result = Raised e \<longrightarrow>
          merge_entities clk (read_entities st current_entities) new_entities = Inl e)"
proof -
  obtain st1 m where c: "copy_deep st current_entities = (st1, m)"
    by (cases "copy_deep st current_entities")
  obtain st2 errs err where
    l: "merge_items_store clk new_entities m (st1, []) = ((st2, errs), err)"
    by (metis surj_pair)
  note C = copy_deep_separated[OF assms(1) c]
  note L = merge_items_store_sim[OF C(1) l, unfolded C(2)]
  from L have sep: "separated st st2 m" by simp
  have res: "st' = st2" "result = (case err of Some e \<Rightarrow> Raised e | None \<Rightarrow> Returned (m, errs))"
    using assms(2) c l by (auto simp: merge_entities_store_def split: option.splits)
  from sep have ext: "store_extends st st2" by (simp add: separated_def)
  have "read_entities st2 current_entities = read_entities st current_entities"
    using ext assms(1) by (rule store_extends_read)
  moreover have "length (BookingEntities_objects st) \<le> m" using sep by (simp add: separated_def)
  moreover have "entities_in_store st2 m" using sep by (rule separated_in_store)
  ultimately show ?thesis
    using ext L res by (cases err) (simp_all add: merge_entities_def)
qed

theorem merge_leaves_input_unchanged_witness:
  "entities_in_store example_store 0
   \<and> merge_entities_store example_clock example_store 0
       [(ustr ''patient_info'', PDict [(ustr ''name'', PStr (ustr ''Bob''))]),
        (ustr ''phone_number'', PStr (ustr ''9123 4567''))]
     = (example_store_after, Returned (1, []))
   \<and> store_extends example_store example_store_after
   \<and> read_entities example_store_after 0 = read_entities example_store 0
   \<and> length (BookingEntities_objects example_store) \<le> 1
   \<and> entities_in_store example_store_after 1
   \<and> merge_entities example_clock (read_entities example_store 0)
       [(ustr ''patient_info'', PDict [(ustr ''name'', PStr (ustr ''Bob''))]),
        (ustr ''phone_number'', PStr (ustr ''9123 4567''))]
     = Inr (read_entities example_store_after 1, [])"
proof -
  have start: "entities_in_store example_store 0"
    by (simp add: store_eval)
  have run: "merge_entities_store example_clock example_store 0
       [(ustr ''patient_info'', PDict [(ustr ''name'', PStr (ustr ''Bob''))]),
        (ustr ''phone_number'', PStr (ustr ''9123 4567''))]
     = (example_store_after, Returned (1, []))"
    by (simp add: string_eval validator_eval merge_eval store_eval)
  from merge_leaves_input_unchanged [OF start run] start run show ?thesis by simp
qed

text \<open>
  It is the deep copy that protects the object handed in. The loop changes the object whose
  address it is given: run on address 0 of the example store itself, it replaces the name
  Alice held there.
\<close>

lemma loop_changes_the_object_it_is_given:
  "merge_items_store example_clock
       [(ustr ''patient_info'', PDict [(ustr ''name'', PStr (ustr ''Bob''))])] 0 (example_store, [])
     = ((example_store\<lparr>PatientInfo_objects := [\<lparr>name = PStr (ustr ''Bob''), age = PNone, gender = PNone\<rparr>]\<rparr>, []),
        None)
   \<and> patient_info (read_entities example_store 0)
       = Obj \<lparr>name = PStr (ustr ''Alice''), age = PNone, gender = PNone\<rparr>
   \<and> patient_info (read_entities
         (example_store\<lparr>PatientInfo_objects := [\<lparr>name = PStr (ustr ''Bob''), age = PNone, gender = PNone\<rparr>]\<rparr>) 0)
       = Obj \<lparr>name = PStr (ustr ''Bob''), age = PNone, gender = PNone\<rparr>"
  by (simp add: string_eval validator_eval merge_eval store_eval)

end
